(* ===== verification/Prelude.thy ===== *)
theory Prelude
  imports Main "HOL-Library.Word" "HOL-Library.Sublist"
begin

text \<open>
  The prelude of the development: the machine integers of the program, results with early
  return, and the parts of Rust's \<open>str\<close> and integer formatting that the sources call.
  A Rust string is a \<open>string\<close> whose characters are read as ASCII; the functions that are
  Unicode aware in Rust (\<open>trim\<close>, \<open>split_whitespace\<close>, \<open>to_lowercase\<close>, \<open>to_uppercase\<close>)
  are given by their ASCII tables.
\<close>

named_theorems str_simps \<open>characterisations of the string functions\<close>
named_theorems err_intros \<open>introduction rules for the errors a result may hold\<close>
named_theorems res_simps \<open>equations for results and early return\<close>

section \<open>Machine integers and results\<close>

type_synonym u8 = "8 word"
type_synonym u16 = "16 word"
type_synonym u32 = "32 word"
type_synonym u64 = "64 word"
type_synonym usize = "64 word"

text \<open>The \<open>?\<close> operator: an error returns at once, a value goes on.\<close>

fun and_then :: "'e + 'a \<Rightarrow> ('a \<Rightarrow> 'e + 'b) \<Rightarrow> 'e + 'b" where
  "and_then (Inl e) f = Inl e"
| "and_then (Inr x) f = f x"

definition ok_or :: "'a option \<Rightarrow> 'e \<Rightarrow> 'e + 'a" where
  "ok_or x e = (case x of None \<Rightarrow> Inl e | Some a \<Rightarrow> Inr a)"

fun map_err :: "('e \<Rightarrow> 'f) \<Rightarrow> 'e + 'a \<Rightarrow> 'f + 'a" where
  "map_err f (Inl e) = Inl (f e)"
| "map_err f (Inr x) = Inr x"

definition is_ok :: "'e + 'a \<Rightarrow> bool" where
  "is_ok r = (case r of Inl _ \<Rightarrow> False | Inr _ \<Rightarrow> True)"

text \<open>Every error the result can hold satisfies \<open>P\<close>.\<close>

definition errs_in :: "('e \<Rightarrow> bool) \<Rightarrow> 'e + 'a \<Rightarrow> bool" where
  "errs_in P r = (case r of Inl e \<Rightarrow> P e | Inr _ \<Rightarrow> True)"

section \<open>Characters\<close>

definition is_ws :: "char \<Rightarrow> bool" where
  "is_ws c = (let n = (of_char c :: nat) in 9 \<le> n \<and> n \<le> 13 \<or> n = 32)"

definition ascii_lower :: "char \<Rightarrow> char" where
  "ascii_lower c = (let n = (of_char c :: nat) in if 65 \<le> n \<and> n \<le> 90 then char_of (n + 32) else c)"

definition ascii_upper :: "char \<Rightarrow> char" where
  "ascii_upper c = (let n = (of_char c :: nat) in if 97 \<le> n \<and> n \<le> 122 then char_of (n - 32) else c)"

abbreviation to_lowercase :: "string \<Rightarrow> string" where
  "to_lowercase \<equiv> map ascii_lower"

abbreviation to_uppercase :: "string \<Rightarrow> string" where
  "to_uppercase \<equiv> map ascii_upper"

definition eq_ignore_ascii_case :: "string \<Rightarrow> string \<Rightarrow> bool" where
  "eq_ignore_ascii_case s t = (to_lowercase s = to_lowercase t)"

section \<open>String functions\<close>

definition trim_start :: "string \<Rightarrow> string" where
  "trim_start s = dropWhile is_ws s"

definition trim_end :: "string \<Rightarrow> string" where
  "trim_end s = rev (dropWhile is_ws (rev s))"

definition trim :: "string \<Rightarrow> string" where
  "trim s = trim_end (trim_start s)"

definition trim_end_matches :: "char \<Rightarrow> string \<Rightarrow> string" where
  "trim_end_matches c s = rev (dropWhile (\<lambda>x. x = c) (rev s))"

abbreviation starts_with :: "string \<Rightarrow> string \<Rightarrow> bool" where
  "starts_with s p \<equiv> prefix p s"

fun strip_prefix :: "string \<Rightarrow> string \<Rightarrow> string option" where
  "strip_prefix [] s = Some s"
| "strip_prefix (p # ps) [] = None"
| "strip_prefix (p # ps) (c # cs) = (if p = c then strip_prefix ps cs else None)"

fun str_contains :: "string \<Rightarrow> string \<Rightarrow> bool" where
  "str_contains p [] = (p = [])"
| "str_contains p (c # cs) = (prefix p (c # cs) \<or> str_contains p cs)"

fun str_find :: "char \<Rightarrow> string \<Rightarrow> nat option" where
  "str_find c [] = None"
| "str_find c (x # xs) = (if x = c then Some 0 else map_option Suc (str_find c xs))"

fun str_rfind :: "char \<Rightarrow> string \<Rightarrow> nat option" where
  "str_rfind c [] = None"
| "str_rfind c (x # xs) =
     (case str_rfind c xs of
        Some i \<Rightarrow> Some (Suc i)
      | None \<Rightarrow> if x = c then Some 0 else None)"

fun split_once :: "char \<Rightarrow> string \<Rightarrow> (string \<times> string) option" where
  "split_once c [] = None"
| "split_once c (x # xs) =
     (if x = c then Some ([], xs) else map_option (\<lambda>(a, b). (x # a, b)) (split_once c xs))"

fun rsplit_once :: "char \<Rightarrow> string \<Rightarrow> (string \<times> string) option" where
  "rsplit_once c [] = None"
| "rsplit_once c (x # xs) =
     (case rsplit_once c xs of
        Some (a, b) \<Rightarrow> Some (x # a, b)
      | None \<Rightarrow> if x = c then Some ([], xs) else None)"

fun split_once_str :: "string \<Rightarrow> string \<Rightarrow> (string \<times> string) option" where
  "split_once_str p [] = (if p = [] then Some ([], []) else None)"
| "split_once_str p (x # xs) =
     (case strip_prefix p (x # xs) of
        Some rest \<Rightarrow> Some ([], rest)
      | None \<Rightarrow> map_option (\<lambda>(a, b). (x # a, b)) (split_once_str p xs))"

fun split_char :: "char \<Rightarrow> string \<Rightarrow> string list" where
  "split_char c [] = [[]]"
| "split_char c (x # xs) =
     (if x = c then [] # split_char c xs
      else case split_char c xs of
             [] \<Rightarrow> [[x]]
           | w # ws \<Rightarrow> (x # w) # ws)"

text \<open>A text between single quotes, and the UTF-8 bytes of the dash some messages hold.\<close>

definition quoted :: "string \<Rightarrow> string" where
  "quoted s = CHR 0x27 # s @ [CHR 0x27]"

definition em_dash :: string where
  "em_dash = [CHR 0xE2, CHR 0x80, CHR 0x94]"

fun str_join :: "string \<Rightarrow> string list \<Rightarrow> string" where
  "str_join sep [] = []"
| "str_join sep [x] = x"
| "str_join sep (x # y # ys) = x @ sep @ str_join sep (y # ys)"

function split_whitespace :: "string \<Rightarrow> string list" where
  "split_whitespace s =
     (case dropWhile is_ws s of
        [] \<Rightarrow> []
      | c # cs \<Rightarrow> (c # takeWhile (\<lambda>x. \<not> is_ws x) cs)
                   # split_whitespace (dropWhile (\<lambda>x. \<not> is_ws x) cs))"
  by pat_completeness auto
termination
proof (relation "measure length")
  fix s :: string and c cs
  assume "dropWhile is_ws s = c # cs"
  then have "length (c # cs) \<le> length s"
    by (metis length_dropWhile_le)
  moreover have "length (dropWhile (\<lambda>x. \<not> is_ws x) cs) \<le> length cs"
    by (rule length_dropWhile_le)
  ultimately show "(dropWhile (\<lambda>x. \<not> is_ws x) cs, s) \<in> measure length"
    by simp
qed simp

declare split_whitespace.simps [simp del]

text \<open>
  \<open>str::lines\<close>: the pieces between line feeds, without a final empty piece and without
  the carriage return that ends a piece closed by a line feed.
\<close>

definition strip_cr :: "string \<Rightarrow> string" where
  "strip_cr s = (if s \<noteq> [] \<and> last s = CHR 0x0D then butlast s else s)"

fun str_lines :: "string \<Rightarrow> string list" where
  "str_lines s =
     (let ps = split_char (CHR 0x0A) s
      in map strip_cr (butlast ps) @ (if last ps = [] then [] else [last ps]))"

section \<open>Numbers in text\<close>

definition digit_char :: "nat \<Rightarrow> char" where
  "digit_char d = char_of (48 + d)"

definition digit_val :: "char \<Rightarrow> nat option" where
  "digit_val c = (let n = (of_char c :: nat) in if 48 \<le> n \<and> n \<le> 57 then Some (n - 48) else None)"

fun show_nat :: "nat \<Rightarrow> string" where
  "show_nat n = (if n < 10 then [digit_char n] else show_nat (n div 10) @ [digit_char (n mod 10)])"

declare show_nat.simps [simp del]

abbreviation show_word :: "'a::len word \<Rightarrow> string" where
  "show_word w \<equiv> show_nat (unat w)"

text \<open>
  \<open>str::parse\<close> for an unsigned integer below \<open>m\<close>: an optional plus sign, at least one
  digit, and a checked multiplication and addition per digit.
\<close>

fun parse_digits :: "nat \<Rightarrow> nat \<Rightarrow> string \<Rightarrow> nat option" where
  "parse_digits m acc [] = Some acc"
| "parse_digits m acc (c # cs) =
     (case digit_val c of
        None \<Rightarrow> None
      | Some d \<Rightarrow> if acc * 10 + d < m then parse_digits m (acc * 10 + d) cs else None)"

fun parse_uint :: "nat \<Rightarrow> string \<Rightarrow> nat option" where
  "parse_uint m [] = None"
| "parse_uint m (c # cs) =
     (if c = CHR ''+'' then (if cs = [] then None else parse_digits m 0 cs)
      else parse_digits m 0 (c # cs))"

definition parse_u16 :: "string \<Rightarrow> u16 option" where
  "parse_u16 s = map_option word_of_nat (parse_uint (2 ^ 16) s)"

definition parse_usize :: "string \<Rightarrow> usize option" where
  "parse_usize s = map_option word_of_nat (parse_uint (2 ^ 64) s)"

section \<open>Lemmas on results\<close>

declare and_then.simps [res_simps]

lemma and_then_Inr_iff [res_simps]:
  "and_then r f = Inr y \<longleftrightarrow> (\<exists>x. r = Inr x \<and> f x = Inr y)"
  by (cases r) auto

lemma and_then_Inl_iff [res_simps]:
  "and_then r f = Inl e \<longleftrightarrow> r = Inl e \<or> (\<exists>x. r = Inr x \<and> f x = Inl e)"
  by (cases r) auto

lemma ok_or_simps [simp]: "ok_or None e = Inl e" "ok_or (Some a) e = Inr a"
  by (simp_all add: ok_or_def)

lemma ok_or_Inr_iff [res_simps]: "ok_or x e = Inr a \<longleftrightarrow> x = Some a"
  by (cases x) auto

lemma map_err_Inr_iff [res_simps]: "map_err f r = Inr x \<longleftrightarrow> r = Inr x"
  by (cases r) auto

lemma is_ok_simps [simp]: "is_ok (Inr x)" "\<not> is_ok (Inl e)"
  by (simp_all add: is_ok_def)

lemma map_err_Inl_iff [res_simps]: "map_err f r = Inl e \<longleftrightarrow> (\<exists>x. r = Inl x \<and> e = f x)"
  by (cases r) auto

lemma ok_or_Inl_iff [res_simps]: "ok_or x e = Inl e' \<longleftrightarrow> x = None \<and> e' = e"
  by (cases x) auto

lemma errs_in_Inr [simp, err_intros]: "errs_in P (Inr x)"
  by (simp add: errs_in_def)

lemma errs_in_Inl [simp]: "errs_in P (Inl e) \<longleftrightarrow> P e"
  by (simp add: errs_in_def)

lemma errs_in_InlI [err_intros]: "P e \<Longrightarrow> errs_in P (Inl e)"
  by simp

lemma errs_in_and_then [err_intros]:
  "errs_in P r \<Longrightarrow> (\<And>x. r = Inr x \<Longrightarrow> errs_in P (f x)) \<Longrightarrow> errs_in P (and_then r f)"
  by (cases r) auto

lemma errs_in_map_err [err_intros]: "(\<And>e. P (f e)) \<Longrightarrow> errs_in P (map_err f r)"
  by (cases r) auto

lemma errs_in_ok_or [err_intros]: "P e \<Longrightarrow> errs_in P (ok_or x e)"
  by (cases x) auto

lemma errs_in_if [err_intros]:
  "(b \<Longrightarrow> errs_in P r) \<Longrightarrow> (\<not> b \<Longrightarrow> errs_in P q) \<Longrightarrow> errs_in P (if b then r else q)"
  by simp

lemma errs_in_case_option [err_intros]:
  "(x = None \<Longrightarrow> errs_in P r) \<Longrightarrow> (\<And>y. x = Some y \<Longrightarrow> errs_in P (f y)) \<Longrightarrow>
     errs_in P (case x of None \<Rightarrow> r | Some y \<Rightarrow> f y)"
  by (cases x) auto

lemma errs_in_Let [err_intros]: "(\<And>x. x = a \<Longrightarrow> errs_in P (f x)) \<Longrightarrow> errs_in P (Let a f)"
  by simp

lemma errs_in_case_prod [err_intros]:
  "(\<And>a b. p = (a, b) \<Longrightarrow> errs_in P (f a b)) \<Longrightarrow> errs_in P (case p of (a, b) \<Rightarrow> f a b)"
  by (cases p) auto

lemma errs_inD: "errs_in P r \<Longrightarrow> r = Inl e \<Longrightarrow> P e"
  by simp

lemma is_ok_iff: "is_ok r \<longleftrightarrow> (\<exists>x. r = Inr x)"
  by (cases r) auto

section \<open>Lemmas on strings\<close>

lemma strip_prefix_iff [str_simps]: "strip_prefix p s = Some t \<longleftrightarrow> s = p @ t"
  by (induction p s rule: strip_prefix.induct) auto

lemma strip_prefix_None_iff [str_simps]: "strip_prefix p s = None \<longleftrightarrow> \<not> prefix p s"
  by (induction p s rule: strip_prefix.induct) auto

lemma strip_prefix_append [simp]: "strip_prefix p (p @ s) = Some s"
  by (simp add: strip_prefix_iff)

lemma str_contains_iff [str_simps]: "str_contains p s \<longleftrightarrow> (\<exists>a b. s = a @ p @ b)"
proof (induction s)
  case Nil
  show ?case by auto
next
  case (Cons c cs)
  show ?case (is "?l \<longleftrightarrow> ?r")
  proof
    assume ?l
    then consider "prefix p (c # cs)" | "str_contains p cs" by auto
    then show ?r
    proof cases
      case 1
      then obtain b where "c # cs = [] @ p @ b" by (auto simp: prefix_def)
      then show ?thesis by blast
    next
      case 2
      then obtain a b where "c # cs = (c # a) @ p @ b" using Cons.IH by auto
      then show ?thesis by blast
    qed
  next
    assume ?r
    then obtain a b where eq: "c # cs = a @ p @ b" by blast
    show ?l
    proof (cases a)
      case Nil
      then have "prefix p (c # cs)" using eq by (metis append_Nil prefixI)
      then show ?thesis by simp
    next
      case (Cons x a')
      then show ?thesis using eq Cons.IH by auto
    qed
  qed
qed

lemma str_find_None_iff [str_simps]: "str_find c s = None \<longleftrightarrow> c \<notin> set s"
  by (induction s) auto

lemma str_find_SomeD:
  "str_find c s = Some i \<Longrightarrow> i < length s \<and> s ! i = c \<and> c \<notin> set (take i s)"
  by (induction s arbitrary: i) (auto split: if_splits)

lemma str_find_Some_split:
  assumes "str_find c s = Some i"
  shows "s = take i s @ c # drop (Suc i) s" "c \<notin> set (take i s)"
  using str_find_SomeD [OF assms] by (auto simp: id_take_nth_drop [symmetric])

lemma str_find_append [simp]: "c \<notin> set a \<Longrightarrow> str_find c (a @ c # b) = Some (length a)"
  by (induction a) auto

lemma str_rfind_None_iff [str_simps]: "str_rfind c s = None \<longleftrightarrow> c \<notin> set s"
  by (induction s) (auto split: option.splits)

lemma str_rfind_append [simp]: "c \<notin> set b \<Longrightarrow> str_rfind c (a @ c # b) = Some (length a)"
proof (induction a)
  case Nil
  then have "str_rfind c b = None" by (simp add: str_rfind_None_iff)
  then show ?case by simp
qed simp

lemma split_once_None_iff [str_simps]: "split_once c s = None \<longleftrightarrow> c \<notin> set s"
  by (induction s) auto

lemma split_once_append [simp]: "c \<notin> set a \<Longrightarrow> split_once c (a @ c # b) = Some (a, b)"
  by (induction a) auto

lemma split_once_Some_iff [str_simps]:
  "split_once c s = Some (a, b) \<longleftrightarrow> s = a @ c # b \<and> c \<notin> set a"
  by (induction s arbitrary: a b) (auto simp: Cons_eq_append_conv)

lemma rsplit_once_None_iff [str_simps]: "rsplit_once c s = None \<longleftrightarrow> c \<notin> set s"
  by (induction s) (auto split: option.splits)

lemma rsplit_once_append [simp]: "c \<notin> set b \<Longrightarrow> rsplit_once c (a @ c # b) = Some (a, b)"
proof (induction a)
  case Nil
  then have "rsplit_once c b = None" by (simp add: rsplit_once_None_iff)
  then show ?case by simp
qed simp

lemma rsplit_once_SomeD:
  "rsplit_once c s = Some (a, b) \<Longrightarrow> s = a @ c # b \<and> c \<notin> set b"
  by (induction s arbitrary: a)
    (auto split: option.splits if_splits simp: rsplit_once_None_iff)

lemma rsplit_once_Some_iff [str_simps]:
  "rsplit_once c s = Some (a, b) \<longleftrightarrow> s = a @ c # b \<and> c \<notin> set b"
  using rsplit_once_SomeD by fastforce

lemma split_char_not_Nil [simp]: "split_char c s \<noteq> []"
  by (induction s) (auto split: list.splits)

lemma split_char_no_sep: "c \<notin> set s \<Longrightarrow> split_char c s = [s]"
  by (induction s) auto

lemma split_char_append_sep:
  "c \<notin> set a \<Longrightarrow> split_char c (a @ c # b) = a # split_char c b"
  by (induction a) auto

lemma str_join_split_char: "str_join [c] (split_char c s) = s"
proof (induction s)
  case Nil
  show ?case by simp
next
  case (Cons x xs)
  obtain w ws where eq: "split_char c xs = w # ws"
    by (meson neq_Nil_conv split_char_not_Nil)
  show ?case using Cons.IH by (cases ws) (auto simp: eq)
qed

lemma trim_ws_only: "trim s = [] \<longleftrightarrow> list_all is_ws s"
proof -
  have "trim s = [] \<longleftrightarrow> list_all is_ws (dropWhile is_ws s)"
    by (simp add: trim_def trim_end_def trim_start_def list_all_iff)
  also have "\<dots> \<longleftrightarrow> list_all is_ws s"
    by (induction s) auto
  finally show ?thesis .
qed

lemma trim_end_append_ws:
  "list_all is_ws w \<Longrightarrow> trim_end (s @ w) = trim_end s"
  by (auto simp: trim_end_def list_all_iff intro: dropWhile_append2)

lemma trim_end_id: "s = [] \<or> \<not> is_ws (last s) \<Longrightarrow> trim_end s = s"
  by (cases s rule: rev_cases) (auto simp: trim_end_def)

lemma trim_end_matches_id: "s = [] \<or> last s \<noteq> c \<Longrightarrow> trim_end_matches c s = s"
  by (cases s rule: rev_cases) (auto simp: trim_end_matches_def)

lemma split_whitespace_word:
  assumes "w \<noteq> []" "list_all (\<lambda>c. \<not> is_ws c) w" "is_ws b"
  shows "split_whitespace (w @ b # rest) = w # split_whitespace (b # rest)"
proof -
  obtain c cs where w: "w = c # cs" using assms(1) by (cases w) auto
  have nows: "\<not> is_ws c" "\<forall>x \<in> set cs. \<not> is_ws x"
    using assms(2) by (auto simp: w list_all_iff)
  have "takeWhile (\<lambda>x. \<not> is_ws x) (cs @ b # rest) = cs"
    using nows assms(3) by (simp add: takeWhile_append2)
  moreover have "dropWhile (\<lambda>x. \<not> is_ws x) (cs @ b # rest) = b # rest"
    using nows assms(3) by (simp add: dropWhile_append2)
  ultimately show ?thesis
    using nows by (subst split_whitespace.simps) (simp add: w)
qed

lemma split_whitespace_last_word:
  assumes "w \<noteq> []" "list_all (\<lambda>c. \<not> is_ws c) w"
  shows "split_whitespace w = [w]"
proof -
  obtain c cs where w: "w = c # cs" using assms(1) by (cases w) auto
  have nows: "\<not> is_ws c" "\<forall>x \<in> set cs. \<not> is_ws x"
    using assms(2) by (auto simp: w list_all_iff)
  have eqs: "takeWhile (\<lambda>x. \<not> is_ws x) cs = cs" "dropWhile (\<lambda>x. \<not> is_ws x) cs = []"
    using nows(2) by (simp_all add: takeWhile_eq_all_conv)
  have "split_whitespace [] = []" by (simp add: split_whitespace.simps)
  then show ?thesis
    by (subst split_whitespace.simps) (simp add: w nows(1) eqs)
qed

lemma split_whitespace_skip: "is_ws b \<Longrightarrow> split_whitespace (b # s) = split_whitespace s"
  by (subst (1 2) split_whitespace.simps) simp

lemma split_whitespace_words:
  "w \<in> set (split_whitespace s) \<Longrightarrow> w \<noteq> [] \<and> list_all (\<lambda>c. \<not> is_ws c) w"
proof (induction s rule: split_whitespace.induct)
  case (1 s)
  show ?case
  proof (cases "dropWhile is_ws s")
    case Nil
    show ?thesis using "1.prems" by (simp add: split_whitespace.simps [of s] Nil)
  next
    case (Cons c cs)
    have nc: "\<not> is_ws c"
      using hd_dropWhile [of is_ws s] Cons by simp
    have "w = c # takeWhile (\<lambda>x. \<not> is_ws x) cs
        \<or> w \<in> set (split_whitespace (dropWhile (\<lambda>x. \<not> is_ws x) cs))"
      using "1.prems" by (simp add: split_whitespace.simps [of s] Cons)
    then show ?thesis
    proof
      assume "w = c # takeWhile (\<lambda>x. \<not> is_ws x) cs"
      then show ?thesis using nc by (auto simp: list_all_iff dest: set_takeWhileD)
    next
      assume "w \<in> set (split_whitespace (dropWhile (\<lambda>x. \<not> is_ws x) cs))"
      then show ?thesis by (rule "1.IH" [OF Cons])
    qed
  qed
qed

section \<open>Lemmas on numbers in text\<close>

lemma digit_val_digit_char [simp]: "d < 10 \<Longrightarrow> digit_val (digit_char d) = Some d"
  by (simp add: digit_val_def digit_char_def)

lemma digit_char_table [simp]:
  "digit_char 0 = CHR ''0''" "digit_char (Suc 0) = CHR ''1''" "digit_char 1 = CHR ''1''"
  "digit_char 2 = CHR ''2''" "digit_char 3 = CHR ''3''" "digit_char 4 = CHR ''4''"
  "digit_char 5 = CHR ''5''" "digit_char 6 = CHR ''6''" "digit_char 7 = CHR ''7''"
  "digit_char 8 = CHR ''8''" "digit_char 9 = CHR ''9''"
  by code_simp+

lemma digit_char_inj: "d < 10 \<Longrightarrow> e < 10 \<Longrightarrow> digit_char d = digit_char e \<longleftrightarrow> d = e"
  by (metis digit_val_digit_char option.inject)

lemma show_nat_not_Nil [simp]: "show_nat n \<noteq> []"
  by (subst show_nat.simps) simp

lemma show_nat_digits: "c \<in> set (show_nat n) \<Longrightarrow> \<exists>d < 10. c = digit_char d"
proof (induction n rule: show_nat.induct)
  case (1 n)
  then show ?case
    by (cases "n < 10") (force simp: show_nat.simps [of n])+
qed

lemma parse_digits_append:
  "parse_digits m a (xs @ ys) =
     (case parse_digits m a xs of None \<Rightarrow> None | Some b \<Rightarrow> parse_digits m b ys)"
  by (induction xs arbitrary: a) (auto split: option.splits)

lemma parse_digits_show_nat: "n < m \<Longrightarrow> parse_digits m 0 (show_nat n) = Some n"
proof (induction n rule: show_nat.induct)
  case (1 n)
  show ?case
  proof (cases "n < 10")
    case True
    then show ?thesis using "1.prems" by (simp add: show_nat.simps [of n])
  next
    case False
    then have "parse_digits m 0 (show_nat (n div 10)) = Some (n div 10)"
      using 1 by simp
    then show ?thesis
      using False "1.prems" by (simp add: show_nat.simps [of n] parse_digits_append)
  qed
qed

lemma digit_char_not: "d < 10 \<Longrightarrow> digit_val c = None \<Longrightarrow> digit_char d \<noteq> c"
  by (metis digit_val_digit_char option.distinct(1))

lemma show_nat_no_char: "digit_val c = None \<Longrightarrow> c \<notin> set (show_nat n)"
  using show_nat_digits digit_char_not by blast

lemma parse_uint_show_nat [simp]: "n < m \<Longrightarrow> parse_uint m (show_nat n) = Some n"
proof -
  assume n: "n < m"
  obtain c cs where eq: "show_nat n = c # cs"
    by (meson neq_Nil_conv show_nat_not_Nil)
  have "digit_val (CHR ''+'') = None" by (simp add: digit_val_def)
  then have "c \<noteq> CHR ''+''" using show_nat_no_char [of "CHR ''+''" n] eq by auto
  then show ?thesis using parse_digits_show_nat [OF n] by (simp add: eq)
qed

lemma show_nat_inj: "show_nat a = show_nat b \<longleftrightarrow> a = b"
proof
  assume eq: "show_nat a = show_nat b"
  have "parse_digits (Suc (a + b)) 0 (show_nat a) = Some a"
    by (rule parse_digits_show_nat) simp
  moreover have "parse_digits (Suc (a + b)) 0 (show_nat b) = Some b"
    by (rule parse_digits_show_nat) simp
  ultimately show "a = b" using eq by (metis option.inject)
qed simp

lemma parse_u16_show [simp]: "parse_u16 (show_word (p :: u16)) = Some p"
proof -
  have "unat p < 2 ^ 16" using unsigned_less [of p] by simp
  then show ?thesis by (simp add: parse_u16_def)
qed

lemma parse_digits_bound: "a < m \<Longrightarrow> parse_digits m a s = Some n \<Longrightarrow> n < m"
  by (induction s arbitrary: a) (auto split: option.splits if_splits)

lemma parse_uint_bound: "0 < m \<Longrightarrow> parse_uint m s = Some n \<Longrightarrow> n < m"
  by (cases s) (auto simp del: parse_digits.simps split: if_splits dest: parse_digits_bound [rotated])

end
