(* ===== verification/Houdinny_Error.thy ===== *)
theory Houdinny_Error
  imports Prelude
begin

text \<open>
  The error type of the crate (\<open>src/src/error.rs\<close>), its \<open>Display\<close> text and the
  result type every fallible operation returns. An \<open>io::Error\<close> is carried as its text.
\<close>

datatype error =
    NoHealthyTunnels
  | TunnelConnect string
  | TunnelProvision string
  | Proxy string
  | Config string
  | Payment string
  | Io string

type_synonym 'a result = "error + 'a"

fun error_display :: "error \<Rightarrow> string" where
  "error_display NoHealthyTunnels = ''no healthy tunnels available''"
| "error_display (TunnelConnect m) = ''tunnel connection failed: '' @ m"
| "error_display (TunnelProvision m) = ''tunnel provisioning failed: '' @ m"
| "error_display (Proxy m) = ''proxy error: '' @ m"
| "error_display (Config m) = ''config error: '' @ m"
| "error_display (Payment m) = ''payment error: '' @ m"
| "error_display (Io m) = m"

text \<open>The constructors that stand for a failure of a tunnel, as opposed to one of the request.\<close>

fun is_tunnel_error :: "error \<Rightarrow> bool" where
  "is_tunnel_error NoHealthyTunnels = True"
| "is_tunnel_error (TunnelConnect _) = True"
| "is_tunnel_error (TunnelProvision _) = True"
| "is_tunnel_error _ = False"

end
