(* ===== verification/Config_Model.thy ===== *)
theory Config_Model
  imports Houdinny_Error
begin

text \<open>
  Configuration (\<open>src/src/config/mod.rs\<close>): the configuration structs with their defaults,
  the \<open>.env\<close> loader, the resolution of \<open>${VAR}\<close> references, the construction from tunnel
  URLs and the parsing of strategy names. The process environment is a map; the TOML
  deserialiser is a parameter of the functions that call it.
\<close>

section \<open>Data\<close>

datatype proxy_mode = Transparent | Mitm

datatype strategy = Random | RoundRobin

record proxy_config =
  pc_listen :: string
  pc_mode :: proxy_mode
  pc_strategy :: strategy

record vpn_config =
  vpn_provider :: string
  vpn_token :: "string option"
  vpn_country :: string

record docker_config =
  dc_enabled :: bool
  dc_vpn :: "vpn_config list"

record tunnel_config =
  tc_protocol :: string
  tc_label :: "string option"
  tc_address :: "string option"
  tc_endpoint :: "string option"
  tc_private_key :: "string option"
  tc_public_key :: "string option"
  tc_dns :: "string option"
  tc_interface :: "string option"
  tc_circuits :: "u32 option"
  tc_rotate_interval :: "string option"
  tc_node :: "string option"
  tc_denom :: "string option"
  tc_deposit :: "string option"
  tc_wallet_key :: "string option"

record config =
  cfg_proxy :: proxy_config
  cfg_docker :: docker_config
  cfg_tunnel :: "tunnel_config list"

definition default_listen :: string where
  "default_listen = ''127.0.0.1:8080''"

definition proxy_mode_default :: proxy_mode where
  "proxy_mode_default = Transparent"

definition strategy_default :: strategy where
  "strategy_default = Random"

definition proxy_config_default :: proxy_config where
  "proxy_config_default =
     \<lparr>pc_listen = default_listen, pc_mode = proxy_mode_default, pc_strategy = strategy_default\<rparr>"

definition docker_config_default :: docker_config where
  "docker_config_default = \<lparr>dc_enabled = False, dc_vpn = []\<rparr>"

fun strategy_display :: "strategy \<Rightarrow> string" where
  "strategy_display Random = ''random''"
| "strategy_display RoundRobin = ''round-robin''"

fun proxy_mode_display :: "proxy_mode \<Rightarrow> string" where
  "proxy_mode_display Transparent = ''transparent''"
| "proxy_mode_display Mitm = ''mitm''"

section \<open>Environment variables\<close>

type_synonym env = "string \<rightharpoonup> string"

text \<open>
  \<open>std::env::set_var\<close> panics on an empty key, a key with \<open>=\<close> or NUL, and a value with
  NUL; a panic is \<open>None\<close>.
\<close>

definition set_var :: "string \<Rightarrow> string \<Rightarrow> env \<Rightarrow> env option" where
  "set_var key val e =
     (if key = [] \<or> CHR ''='' \<in> set key \<or> CHR 0x00 \<in> set key \<or> CHR 0x00 \<in> set val then None
      else Some (e(key \<mapsto> val)))"

definition dotenv_line :: "string \<Rightarrow> env \<Rightarrow> env option" where
  "dotenv_line line0 e =
     (let line = trim line0 in
      if line = [] \<or> starts_with line ''#'' then Some e
      else case split_once (CHR ''='') line of
             Some (key, val) \<Rightarrow> set_var (trim key) (trim val) e
           | None \<Rightarrow> Some e)"

fun dotenv_lines :: "string list \<Rightarrow> env \<Rightarrow> env option" where
  "dotenv_lines [] e = Some e"
| "dotenv_lines (l # ls) e =
     (case dotenv_line l e of None \<Rightarrow> None | Some e' \<Rightarrow> dotenv_lines ls e')"

text \<open>\<open>file\<close> is what \<open>read_to_string\<close> returns, \<open>None\<close> when it fails.\<close>

definition load_dotenv :: "string option \<Rightarrow> env \<Rightarrow> env option" where
  "load_dotenv file e =
     (case file of None \<Rightarrow> Some e | Some content \<Rightarrow> dotenv_lines (str_lines content) e)"

text \<open>The scan for the closing brace: the name, whether it was closed, the rest.\<close>

fun take_var_name :: "string \<Rightarrow> string \<times> bool \<times> string" where
  "take_var_name [] = ([], False, [])"
| "take_var_name (c # cs) =
     (if c = CHR ''}'' then ([], True, cs)
      else case take_var_name cs of (name, closed, rest) \<Rightarrow> (c # name, closed, rest))"

lemma take_var_name_length: "(name, closed, rest) = take_var_name s \<Longrightarrow> length rest \<le> length s"
  by (induction s arbitrary: name) (fastforce split: prod.splits if_splits)+

definition resolve_ref :: "env \<Rightarrow> string \<Rightarrow> bool \<Rightarrow> string" where
  "resolve_ref e var_name found_close =
     (if found_close \<and> var_name \<noteq> []
      then case e var_name of
             Some val \<Rightarrow> val
           | None \<Rightarrow> ''${'' @ var_name @ ''}''
      else ''${'' @ var_name @ (if found_close then ''}'' else []))"

function resolve_env_vars :: "env \<Rightarrow> string \<Rightarrow> string" where
  "resolve_env_vars e [] = []"
| "resolve_env_vars e (ch # cs) =
     (if ch = CHR ''$'' \<and> cs \<noteq> [] \<and> hd cs = CHR ''{''
      then case take_var_name (tl cs) of
             (var_name, found_close, rest) \<Rightarrow>
               resolve_ref e var_name found_close @ resolve_env_vars e rest
      else ch # resolve_env_vars e cs)"
  by pat_completeness auto
termination
  by (relation "measure (\<lambda>(e, s). length s)") (auto dest!: take_var_name_length)

section \<open>Constructors\<close>

text \<open>\<open>toml\<close> stands for \<open>toml::from_str\<close>: a configuration or the error's text.\<close>

definition config_from_str :: "(string \<Rightarrow> string + config) \<Rightarrow> string \<Rightarrow> error + config" where
  "config_from_str toml s = map_err (\<lambda>e. Config (''invalid TOML: '' @ e)) (toml s)"

definition parse_toml :: "(string \<Rightarrow> string + config) \<Rightarrow> string \<Rightarrow> error + config" where
  [simp]: "parse_toml toml s = config_from_str toml s"

definition config_from_file ::
  "(string \<Rightarrow> string + config) \<Rightarrow> env \<Rightarrow> string \<Rightarrow> (string + string) \<Rightarrow> error + config" where
  "config_from_file toml e path contents =
     and_then (map_err (\<lambda>m. Config (''failed to read '' @ path @ '': '' @ m)) contents)
       (\<lambda>c. config_from_str toml (resolve_env_vars e c))"

definition parse_tunnel_url :: "string \<Rightarrow> string \<times> string" where
  "parse_tunnel_url url =
     (case split_once_str ''://'' url of
        Some (scheme, rest) \<Rightarrow> (scheme, rest)
      | None \<Rightarrow> (''socks5'', url))"

definition tunnel_of_url :: "nat \<Rightarrow> string \<Rightarrow> tunnel_config" where
  "tunnel_of_url i url =
     (case parse_tunnel_url url of
        (protocol, address) \<Rightarrow>
          \<lparr>tc_protocol = protocol, tc_label = Some (''cli-'' @ show_nat i),
           tc_address = Some address, tc_endpoint = None, tc_private_key = None,
           tc_public_key = None, tc_dns = None, tc_interface = None, tc_circuits = None,
           tc_rotate_interval = None, tc_node = None, tc_denom = None, tc_deposit = None,
           tc_wallet_key = None\<rparr>)"

definition from_tunnel_urls :: "string list \<Rightarrow> config" where
  "from_tunnel_urls urls =
     \<lparr>cfg_proxy = proxy_config_default, cfg_docker = docker_config_default,
      cfg_tunnel = map (\<lambda>(i, url). tunnel_of_url i url) (enumerate 0 urls)\<rparr>"

definition strategy_from_name :: "string \<Rightarrow> error + strategy" where
  "strategy_from_name name =
     (let other = to_lowercase name in
      if other = ''random'' then Inr Random
      else if other = ''round-robin'' \<or> other = ''roundrobin'' \<or> other = ''rr'' then Inr RoundRobin
      else Inl (Config (''unknown strategy: '' @ other)))"

section \<open>Reference resolution\<close>

lemma take_var_name_append:
  "CHR ''}'' \<notin> set name \<Longrightarrow> take_var_name (name @ CHR ''}'' # rest) = (name, True, rest)"
  by (induction name) auto

lemma take_var_name_join:
  "take_var_name s = (name, found, rest) \<Longrightarrow> s = name @ (if found then CHR ''}'' # rest else [])"
  by (induction s arbitrary: name) (auto split: prod.splits if_splits)

lemma take_var_name_open: "take_var_name s = (name, False, rest) \<Longrightarrow> rest = []"
  by (induction s arbitrary: name) (auto split: prod.splits if_splits)

lemma resolve_ref_unset: "e name = None \<Longrightarrow> resolve_ref e name found = ''${'' @ name @ (if found then ''}'' else [])"
  by (auto simp: resolve_ref_def)

lemma resolve_env_vars_plain:
  "CHR ''$'' \<notin> set pre \<Longrightarrow> resolve_env_vars e (pre @ s) = pre @ resolve_env_vars e s"
  by (induction pre) auto

lemma resolve_env_vars_reference:
  assumes "CHR ''}'' \<notin> set name" "name \<noteq> []"
  shows "resolve_env_vars e (''${'' @ name @ ''}'' @ s) =
    (case e name of Some v \<Rightarrow> v | None \<Rightarrow> ''${'' @ name @ ''}'') @ resolve_env_vars e s"
  using assms take_var_name_append [of name s]
  by (auto simp: resolve_ref_def split: option.splits)

text \<open>
  Resolving a text of a closed reference between text without a dollar sign puts
  the value of the variable in its place, or leaves the reference as it stands when the
  variable is not set, and goes on with what follows; the value itself is not scanned.
\<close>

theorem resolve_env_vars_substitutes:
  assumes "CHR ''$'' \<notin> set pre" and "CHR ''}'' \<notin> set name" and "name \<noteq> []"
  shows "resolve_env_vars e (pre @ ''${'' @ name @ ''}'' @ post) =
    pre @ (case e name of Some v \<Rightarrow> v | None \<Rightarrow> ''${'' @ name @ ''}'') @ resolve_env_vars e post"
  unfolding resolve_env_vars_plain [OF assms(1)]
  using resolve_env_vars_reference [OF assms(2,3)] by simp

theorem resolve_env_vars_substitutes_witness:
  "resolve_env_vars [''T'' \<mapsto> ''${T}''] ''a=${T}b'' = ''a=${T}b''"
  using resolve_env_vars_substitutes [of "''a=''" "''T''" "[''T'' \<mapsto> ''${T}'']" "''b''"] by simp

text \<open>
  In an environment that sets none of its variables every text is left unchanged,
  malformed references included.
\<close>

theorem resolve_env_vars_unset: "resolve_env_vars Map.empty s = s"
proof (induction "Map.empty :: env" s rule: resolve_env_vars.induct)
  case 1
  show ?case by simp
next
  case (2 ch cs)
  show ?case
  proof (cases "ch = CHR ''$'' \<and> cs \<noteq> [] \<and> hd cs = CHR ''{''")
    case False
    then show ?thesis using "2.hyps"(2) by auto
  next
    case True
    obtain name found rest where tk: "take_var_name (tl cs) = (name, found, rest)"
      by (cases "take_var_name (tl cs)") auto
    have "resolve_env_vars Map.empty rest = rest"
      by (rule "2.hyps"(1) [OF True tk [symmetric] refl])
    moreover have "tl cs = name @ (if found then CHR ''}'' # rest else [])"
      by (rule take_var_name_join [OF tk])
    moreover have "found \<or> rest = []" using take_var_name_open tk by (cases found) auto
    moreover have "ch # cs = ''${'' @ tl cs" using True by (cases cs) auto
    moreover have "resolve_env_vars Map.empty (ch # cs)
        = resolve_ref Map.empty name found @ resolve_env_vars Map.empty rest"
      using True by (simp add: tk)
    ultimately show ?thesis
      by (cases found) (simp_all add: resolve_ref_unset)
  qed
qed

section \<open>The dotenv file\<close>

text \<open>The assignments of a list of lines, in order.\<close>

definition dotenv_assign :: "string \<Rightarrow> (string \<times> string) option" where
  "dotenv_assign line =
     (if trim line = [] \<or> starts_with (trim line) ''#'' then None
      else map_option (\<lambda>(k, v). (trim k, trim v)) (split_once (CHR ''='') (trim line)))"

definition dotenv_assigns :: "string list \<Rightarrow> (string \<times> string) list" where
  "dotenv_assigns ls = List.map_filter dotenv_assign ls"

lemma dotenv_line_eq:
  "dotenv_line l e = (case dotenv_assign l of None \<Rightarrow> Some e | Some (k, v) \<Rightarrow> set_var k v e)"
  by (auto simp: dotenv_line_def dotenv_assign_def Let_def split: option.splits)

fun set_vars :: "(string \<times> string) list \<Rightarrow> env \<Rightarrow> env option" where
  "set_vars [] e = Some e"
| "set_vars ((k, v) # as) e = (case set_var k v e of None \<Rightarrow> None | Some e' \<Rightarrow> set_vars as e')"

lemma dotenv_lines_eq: "dotenv_lines ls e = set_vars (dotenv_assigns ls) e"
  by (induction ls arbitrary: e)
    (auto simp: dotenv_assigns_def map_filter_simps dotenv_line_eq split: option.splits)

lemma set_vars_Some:
  "set_vars as e = Some e' \<Longrightarrow> e' = e ++ map_of (rev as)"
  by (induction as arbitrary: e) (auto simp: set_var_def split: if_splits)

lemma trim_chars: "c \<in> set (trim s) \<Longrightarrow> c \<in> set s"
  by (auto simp: trim_def trim_end_def trim_start_def dest!: set_dropWhileD)

lemma dotenv_assign_key: "dotenv_assign l = Some (k, v) \<Longrightarrow> CHR ''='' \<notin> set k"
  by (auto simp: dotenv_assign_def str_simps split: if_splits dest: trim_chars)

text \<open>
  Loading a \<open>.env\<close> file sets every assignment of its lines that are neither blank nor
  comments, the last one of a key winning, and leaves every other variable alone; it panics
  exactly when an assignment has an empty name, or a name or a value with a NUL.
\<close>

theorem load_dotenv_assigns:
  "load_dotenv (Some content) e =
     (if list_all (\<lambda>(k, v). k \<noteq> [] \<and> CHR 0x00 \<notin> set k \<and> CHR 0x00 \<notin> set v)
           (dotenv_assigns (str_lines content))
      then Some (e ++ map_of (rev (dotenv_assigns (str_lines content)))) else None)"
proof -
  have ok: "set_vars as e = None \<longleftrightarrow>
      \<not> list_all (\<lambda>(k, v). k \<noteq> [] \<and> CHR 0x00 \<notin> set k \<and> CHR 0x00 \<notin> set v) as"
    if "\<forall>(k, v) \<in> set as. CHR ''='' \<notin> set k" for as e
    using that
  proof (induction as arbitrary: e)
    case (Cons a as)
    obtain k v where a: "a = (k, v)" by (cases a)
    show ?case using Cons.prems by (simp add: a set_var_def Cons.IH)
  qed simp
  have keys: "\<forall>(k, v) \<in> set (dotenv_assigns ls). CHR ''='' \<notin> set k" for ls
    by (auto simp: dotenv_assigns_def map_filter_def dest: dotenv_assign_key)
  show ?thesis
    using ok [OF keys, of "str_lines content" e]
    by (cases "set_vars (dotenv_assigns (str_lines content)) e")
      (auto simp: load_dotenv_def dotenv_lines_eq dest: set_vars_Some)
qed

section \<open>Tunnel URLs and strategies\<close>

lemma split_once_str_append:
  assumes "CHR '':'' \<notin> set a"
  shows "split_once_str ''://'' (a @ ''://'' @ b) = Some (a, b)"
  using assms by (induction a) auto

text \<open>
  The configuration built from tunnel URLs has one tunnel per URL, in order, labelled
  \<open>cli-0\<close>, \<open>cli-1\<close>, \<dots> without repetition; a URL \<open>scheme://address\<close> gives that scheme as
  the protocol and that address, and the proxy section is the default one.
\<close>

theorem from_tunnel_urls_spec:
  "length (cfg_tunnel (from_tunnel_urls urls)) = length urls
   \<and> distinct (map tc_label (cfg_tunnel (from_tunnel_urls urls)))
   \<and> cfg_proxy (from_tunnel_urls urls) = proxy_config_default
   \<and> (\<forall>i scheme rest. i < length urls \<longrightarrow> urls ! i = scheme @ ''://'' @ rest \<longrightarrow>
        CHR '':'' \<notin> set scheme \<longrightarrow>
        tc_protocol (cfg_tunnel (from_tunnel_urls urls) ! i) = scheme
        \<and> tc_address (cfg_tunnel (from_tunnel_urls urls) ! i) = Some rest)"
proof (intro conjI allI impI)
  let ?ts = "cfg_tunnel (from_tunnel_urls urls)"
  show "length ?ts = length urls"
    by (simp add: from_tunnel_urls_def)
  have "map tc_label ?ts = map (\<lambda>i. Some (''cli-'' @ show_nat i)) [0..<length urls]"
    by (rule nth_equalityI)
      (auto simp: from_tunnel_urls_def nth_enumerate_eq tunnel_of_url_def split: prod.splits)
  then show "distinct (map tc_label ?ts)"
    by (simp add: distinct_map inj_on_def show_nat_inj)
  show "cfg_proxy (from_tunnel_urls urls) = proxy_config_default"
    by (simp add: from_tunnel_urls_def)
next
  fix i scheme rest
  assume i: "i < length urls" and u: "urls ! i = scheme @ ''://'' @ rest"
    and c: "CHR '':'' \<notin> set scheme"
  have "parse_tunnel_url (urls ! i) = (scheme, rest)"
    unfolding u parse_tunnel_url_def by (simp only: split_once_str_append [OF c]) simp
  then show "tc_protocol (cfg_tunnel (from_tunnel_urls urls) ! i) = scheme"
    "tc_address (cfg_tunnel (from_tunnel_urls urls) ! i) = Some rest"
    using i by (simp_all add: from_tunnel_urls_def nth_enumerate_eq tunnel_of_url_def)
qed

theorem from_tunnel_urls_spec_witness:
  "tc_protocol (cfg_tunnel (from_tunnel_urls [''http-proxy://h:1'']) ! 0) = ''http-proxy''
   \<and> tc_address (cfg_tunnel (from_tunnel_urls [''http-proxy://h:1'']) ! 0) = Some ''h:1''"
  using from_tunnel_urls_spec [of "[''http-proxy://h:1'']"]
  by (elim conjE allE [of _ 0] allE [of _ "''http-proxy''"] allE [of _ "''h:1''"]) simp

lemma strategy_from_name_display: "strategy_from_name (strategy_display s) = Inr s"
  by (cases s) (simp_all add: strategy_from_name_def ascii_lower_def)

end
