(* ===== verification/Config_File.thy ===== *)
theory Config_File
  imports Config_Model "HOL-Library.Monad_Syntax"
begin

text \<open>
  The configuration file as text. \<open>src/src/config/mod.rs\<close> derives \<open>Deserialize\<close> for its
  structs and leaves the reading of TOML to the \<open>toml\<close> crate, which is the parameter \<open>toml\<close>
  of the model. This theory states what the rest of the program relies on: the documents of a
  fragment of TOML (comments, blank lines, the tables of the configuration and entries with
  string, boolean and integer values, with or without a comment behind them) are decoded as the derived instances decode them:
  defaults for the fields with \<open>serde(default)\<close>, optional fields, required fields, enums by
  their kebab-case names, unknown keys ignored.
\<close>

section \<open>Documents\<close>

datatype toml_value = TStr string | TBool bool | TInt nat

datatype header = Table string | Tables string

text \<open>An entry may be followed by a comment, after some spaces.\<close>

datatype toml_line =
    Blank
  | Comment string
  | Header header
  | Entry string toml_value
  | Noted string toml_value nat string

fun render_value :: "toml_value \<Rightarrow> string" where
  "render_value (TStr s) = CHR 0x22 # s @ [CHR 0x22]"
| "render_value (TBool b) = (if b then ''true'' else ''false'')"
| "render_value (TInt n) = show_nat n"

fun render_header :: "header \<Rightarrow> string" where
  "render_header (Table name) = ''['' @ name @ '']''"
| "render_header (Tables name) = ''[['' @ name @ '']]''"

fun render_line :: "toml_line \<Rightarrow> string" where
  "render_line Blank = []"
| "render_line (Comment s) = CHR ''#'' # s"
| "render_line (Header h) = render_header h"
| "render_line (Entry key v) = key @ '' = '' @ render_value v"
| "render_line (Noted key v n s) = key @ '' = '' @ render_value v @ replicate n (CHR '' '') @ CHR ''#'' # s"

definition render :: "toml_line list \<Rightarrow> string" where
  "render ls = concat (map (\<lambda>l. render_line l @ [CHR 0x0A]) ls)"

text \<open>The entries up to the next header, and the tables with their entries.\<close>

fun entries :: "toml_line list \<Rightarrow> (string \<times> toml_value) list" where
  "entries [] = []"
| "entries (Header h # ls) = []"
| "entries (Entry key v # ls) = (key, v) # entries ls"
| "entries (Noted key v n s # ls) = (key, v) # entries ls"
| "entries (Blank # ls) = entries ls"
| "entries (Comment s # ls) = entries ls"

fun sections :: "toml_line list \<Rightarrow> (header \<times> (string \<times> toml_value) list) list" where
  "sections [] = []"
| "sections (Header h # ls) = (h, entries ls) # sections ls"
| "sections (Entry key v # ls) = sections ls"
| "sections (Noted key v n s # ls) = sections ls"
| "sections (Blank # ls) = sections ls"
| "sections (Comment s # ls) = sections ls"

definition plain_char :: "char \<Rightarrow> bool" where
  "plain_char c = (let n = (of_char c :: nat) in 32 \<le> n \<and> n \<noteq> 127)"

lemma plain_char_Char [simp]:
  "plain_char (Char b0 b1 b2 b3 b4 b5 b6 b7) \<longleftrightarrow>
     (b5 \<or> b6 \<or> b7) \<and> \<not> (b0 \<and> b1 \<and> b2 \<and> b3 \<and> b4 \<and> b5 \<and> b6 \<and> \<not> b7)"
  by (cases b0; cases b1; cases b2; cases b3; cases b4; cases b5; cases b6; cases b7) (simp_all add: plain_char_def)

definition plain_string :: "string \<Rightarrow> bool" where
  "plain_string s = list_all (\<lambda>c. plain_char c \<and> c \<noteq> CHR 0x22 \<and> c \<noteq> CHR 0x5C) s"

definition bare_char :: "char \<Rightarrow> bool" where
  "bare_char c = (let n = (of_char c :: nat) in
     65 \<le> n \<and> n \<le> 90 \<or> 97 \<le> n \<and> n \<le> 122 \<or> 48 \<le> n \<and> n \<le> 57 \<or> n = 95 \<or> n = 45)"

fun wf_value :: "toml_value \<Rightarrow> bool" where
  "wf_value (TStr s) = plain_string s"
| "wf_value (TBool b) = True"
| "wf_value (TInt n) = (n < 2 ^ 63)"

fun wf_line :: "toml_line \<Rightarrow> bool" where
  "wf_line Blank = True"
| "wf_line (Comment s) = list_all plain_char s"
| "wf_line (Header h) = (h \<in> {Table ''proxy'', Table ''docker'', Tables ''docker.vpn'', Tables ''tunnel''})"
| "wf_line (Entry key v) = (key \<noteq> [] \<and> list_all bare_char key \<and> wf_value v)"
| "wf_line (Noted key v n s) =
     (key \<noteq> [] \<and> list_all bare_char key \<and> wf_value v \<and> n > 0 \<and> list_all plain_char s)"

text \<open>No entry before the first table, no table twice, no key twice in a table.\<close>

definition wf_doc :: "toml_line list \<Rightarrow> bool" where
  "wf_doc ls =
     (list_all wf_line ls \<and> entries ls = []
      \<and> distinct (filter (\<lambda>h. h \<in> {Table ''proxy'', Table ''docker''}) (map fst (sections ls)))
      \<and> list_all (\<lambda>(h, kvs). distinct (map fst kvs) \<and> (h = Table ''docker'' \<longrightarrow> ''vpn'' \<notin> fst ` set kvs)) (sections ls))"

section \<open>The derived instances\<close>

text \<open>\<open>None\<close> is the rejection of the document.\<close>

definition req_str :: "string \<Rightarrow> (string \<times> toml_value) list \<Rightarrow> string option" where
  "req_str key kvs = (case map_of kvs key of Some (TStr s) \<Rightarrow> Some s | _ \<Rightarrow> None)"

definition opt_str :: "string \<Rightarrow> (string \<times> toml_value) list \<Rightarrow> string option option" where
  "opt_str key kvs =
     (case map_of kvs key of None \<Rightarrow> Some None | Some (TStr s) \<Rightarrow> Some (Some s) | _ \<Rightarrow> None)"

definition opt_u32 :: "string \<Rightarrow> (string \<times> toml_value) list \<Rightarrow> u32 option option" where
  "opt_u32 key kvs =
     (case map_of kvs key of
        None \<Rightarrow> Some None
      | Some (TInt n) \<Rightarrow> if n < 2 ^ 32 then Some (Some (word_of_nat n)) else None
      | _ \<Rightarrow> None)"

definition decode_mode :: "string \<Rightarrow> proxy_mode option" where
  "decode_mode s = map_of [(''transparent'', Transparent), (''mitm'', Mitm)] s"

definition decode_strategy :: "string \<Rightarrow> strategy option" where
  "decode_strategy s = map_of [(''random'', Random), (''round-robin'', RoundRobin)] s"

definition decode_proxy :: "(string \<times> toml_value) list \<Rightarrow> proxy_config option" where
  "decode_proxy kvs = do {
     listen \<leftarrow> opt_str ''listen'' kvs;
     mode \<leftarrow> opt_str ''mode'' kvs;
     mode \<leftarrow> (case mode of None \<Rightarrow> Some proxy_mode_default | Some s \<Rightarrow> decode_mode s);
     strategy \<leftarrow> opt_str ''strategy'' kvs;
     strategy \<leftarrow> (case strategy of None \<Rightarrow> Some strategy_default | Some s \<Rightarrow> decode_strategy s);
     Some \<lparr>pc_listen = (case listen of None \<Rightarrow> default_listen | Some s \<Rightarrow> s), pc_mode = mode, pc_strategy = strategy\<rparr>
   }"

definition decode_vpn :: "(string \<times> toml_value) list \<Rightarrow> vpn_config option" where
  "decode_vpn kvs = do {
     provider \<leftarrow> req_str ''provider'' kvs;
     token \<leftarrow> opt_str ''token'' kvs;
     country \<leftarrow> req_str ''country'' kvs;
     Some \<lparr>vpn_provider = provider, vpn_token = token, vpn_country = country\<rparr>
   }"

definition decode_enabled :: "(string \<times> toml_value) list \<Rightarrow> bool option" where
  "decode_enabled kvs =
     (case map_of kvs ''enabled'' of None \<Rightarrow> Some False | Some (TBool b) \<Rightarrow> Some b | _ \<Rightarrow> None)"

definition decode_tunnel :: "(string \<times> toml_value) list \<Rightarrow> tunnel_config option" where
  "decode_tunnel kvs = do {
     protocol \<leftarrow> req_str ''protocol'' kvs;
     label \<leftarrow> opt_str ''label'' kvs;
     address \<leftarrow> opt_str ''address'' kvs;
     endpoint \<leftarrow> opt_str ''endpoint'' kvs;
     private_key \<leftarrow> opt_str ''private_key'' kvs;
     public_key \<leftarrow> opt_str ''public_key'' kvs;
     dns \<leftarrow> opt_str ''dns'' kvs;
     interface \<leftarrow> opt_str ''interface'' kvs;
     circuits \<leftarrow> opt_u32 ''circuits'' kvs;
     rotate_interval \<leftarrow> opt_str ''rotate_interval'' kvs;
     node \<leftarrow> opt_str ''node'' kvs;
     denom \<leftarrow> opt_str ''denom'' kvs;
     deposit \<leftarrow> opt_str ''deposit'' kvs;
     wallet_key \<leftarrow> opt_str ''wallet_key'' kvs;
     Some \<lparr>tc_protocol = protocol, tc_label = label, tc_address = address, tc_endpoint = endpoint,
       tc_private_key = private_key, tc_public_key = public_key, tc_dns = dns, tc_interface = interface,
       tc_circuits = circuits, tc_rotate_interval = rotate_interval, tc_node = node, tc_denom = denom,
       tc_deposit = deposit, tc_wallet_key = wallet_key\<rparr>
   }"

definition tables_of :: "header \<Rightarrow> (header \<times> (string \<times> toml_value) list) list \<Rightarrow> (string \<times> toml_value) list list" where
  "tables_of h secs = map snd (filter (\<lambda>(g, _). g = h) secs)"

definition decode_config :: "(header \<times> (string \<times> toml_value) list) list \<Rightarrow> config option" where
  "decode_config secs = do {
     proxy \<leftarrow> (case tables_of (Table ''proxy'') secs of [] \<Rightarrow> Some proxy_config_default | kvs # _ \<Rightarrow> decode_proxy kvs);
     enabled \<leftarrow> decode_enabled (concat (tables_of (Table ''docker'') secs));
     vpn \<leftarrow> those (map decode_vpn (tables_of (Tables ''docker.vpn'') secs));
     tunnel \<leftarrow> those (map decode_tunnel (tables_of (Tables ''tunnel'') secs));
     Some \<lparr>cfg_proxy = proxy, cfg_docker = \<lparr>dc_enabled = enabled, dc_vpn = vpn\<rparr>, cfg_tunnel = tunnel\<rparr>
   }"

lemmas decode_eval = decode_config_def tables_of_def decode_proxy_def decode_vpn_def decode_enabled_def decode_tunnel_def
  decode_mode_def decode_strategy_def req_str_def opt_str_def opt_u32_def proxy_config_default_def
  default_listen_def proxy_mode_default_def strategy_default_def

text \<open>The documented behaviour of \<open>toml::from_str\<close> on the fragment.\<close>

definition toml_reads :: "(string \<Rightarrow> string + config) \<Rightarrow> bool" where
  "toml_reads toml =
     (\<forall>ls. wf_doc ls \<longrightarrow>
        (case decode_config (sections ls) of
           Some cfg \<Rightarrow> toml (render ls) = Inr cfg
         | None \<Rightarrow> (\<exists>e. toml (render ls) = Inl e)))"

text \<open>A document is read to a configuration with some property.\<close>

definition parses_to :: "(string \<Rightarrow> string + config) \<Rightarrow> toml_line list \<Rightarrow> (config \<Rightarrow> bool) \<Rightarrow> bool" where
  "parses_to toml ls P = (case parse_toml toml (render ls) of Inr cfg \<Rightarrow> P cfg | Inl _ \<Rightarrow> False)"

lemma parses_toI:
  assumes "toml_reads toml" "wf_doc ls"
    and "case decode_config (sections ls) of Some cfg \<Rightarrow> P cfg | None \<Rightarrow> False"
  shows "parses_to toml ls P"
  using assms by (auto simp: toml_reads_def parses_to_def config_from_str_def split: option.splits)

section \<open>A reader of the fragment\<close>

definition read_value :: "string \<Rightarrow> toml_value" where
  "read_value s =
     (if starts_with s [CHR 0x22] then TStr (butlast (tl s))
      else if s = ''true'' then TBool True
      else if s = ''false'' then TBool False
      else TInt (case parse_uint (2 ^ 63) s of Some n \<Rightarrow> n | None \<Rightarrow> 0))"

text \<open>Where the text of a value ends, and what follows it.\<close>

definition value_text :: "string \<Rightarrow> string" where
  "value_text s =
     (if starts_with s [CHR 0x22] then CHR 0x22 # takeWhile (\<lambda>c. c \<noteq> CHR 0x22) (tl s) @ [CHR 0x22]
      else takeWhile (\<lambda>c. c \<noteq> CHR '' '') s)"

definition read_entry :: "string \<Rightarrow> string \<Rightarrow> toml_line" where
  "read_entry key s =
     (let v = read_value (value_text s); rest = drop (length (value_text s)) s in
      if rest = [] then Entry key v
      else Noted key v (length (takeWhile (\<lambda>c. c = CHR '' '') rest)) (tl (dropWhile (\<lambda>c. c = CHR '' '') rest)))"

definition read_line :: "string \<Rightarrow> toml_line" where
  "read_line s =
     (if s = [] then Blank
      else if starts_with s ''#'' then Comment (tl s)
      else if starts_with s ''[['' then Header (Tables (take (length s - 4) (drop 2 s)))
      else if starts_with s ''['' then Header (Table (butlast (tl s)))
      else case split_once (CHR '' '') s of
             Some (key, rest) \<Rightarrow> read_entry key (drop 2 rest)
           | None \<Rightarrow> Blank)"

definition read_doc :: "string \<Rightarrow> toml_line list" where
  "read_doc s = map read_line (butlast (split_char (CHR 0x0A) s))"

definition fragment_toml :: "string \<Rightarrow> string + config" where
  "fragment_toml s =
     (case decode_config (sections (read_doc s)) of Some cfg \<Rightarrow> Inr cfg | None \<Rightarrow> Inl ''invalid document'')"

lemma split_char_nonempty [simp]: "split_char c s \<noteq> []"
  by (induction s) (auto split: list.split)

lemma split_char_append: "c \<notin> set a \<Longrightarrow> split_char c (a @ c # b) = a # split_char c b"
  by (induction a) (auto split: list.split)

lemma plain_not_nl: "plain_char c \<Longrightarrow> c \<noteq> CHR 0x0A"
  by (auto simp: plain_char_def)

lemma bare_not: "bare_char c \<Longrightarrow> c \<noteq> CHR 0x0A \<and> c \<noteq> CHR '' '' \<and> c \<noteq> CHR ''#'' \<and> c \<noteq> CHR ''[''"
  by (auto simp: bare_char_def)

lemma read_value_render:
  assumes "wf_value v"
  shows "read_value (render_value v) = v"
proof (cases v)
  case (TInt n)
  obtain c cs where n: "show_nat n = c # cs" by (meson neq_Nil_conv show_nat_not_Nil)
  have "digit_val c \<noteq> None" using show_nat_no_char [of c n] n by auto
  then have "c \<notin> {CHR 0x22, CHR ''t'', CHR ''f''}" by (auto simp: digit_val_def)
  then have "read_value (show_nat n) = TInt (case parse_uint (2 ^ 63) (show_nat n) of Some n \<Rightarrow> n | None \<Rightarrow> 0)"
    unfolding read_value_def n by auto
  then show ?thesis using TInt assms by simp
qed (simp_all add: read_value_def)

lemma wf_value_no_nl: "wf_value v \<Longrightarrow> CHR 0x0A \<notin> set (render_value v)"
proof (cases v)
  case (TInt n)
  have "digit_val (CHR 0x0A) = None" by (simp add: digit_val_def)
  from show_nat_no_char [OF this] show ?thesis by (simp add: TInt)
qed (auto simp: plain_string_def list_all_iff dest: plain_not_nl)

lemma wf_line_no_nl: "wf_line l \<Longrightarrow> CHR 0x0A \<notin> set (render_line l)"
  by (cases l) (auto simp: list_all_iff plain_not_nl bare_not wf_value_no_nl dest: plain_not_nl bare_not)

lemma value_text_render:
  assumes "wf_value v" "rest = [] \<or> (\<exists>r. rest = CHR '' '' # r)"
  shows "value_text (render_value v @ rest) = render_value v"
proof (cases v)
  case (TStr s)
  then have "CHR 0x22 \<notin> set s" using assms(1) by (auto simp: plain_string_def list_all_iff)
  then have "takeWhile (\<lambda>c. c \<noteq> CHR 0x22) (s @ CHR 0x22 # rest) = s"
    by (subst takeWhile_append2) auto
  then show ?thesis by (simp add: TStr value_text_def)
next
  case (TInt n)
  have no: "c \<notin> set (show_nat n)" if "digit_val c = None" for c using show_nat_no_char [OF that] .
  have "takeWhile (\<lambda>c. c \<noteq> CHR '' '') (show_nat n @ rest) = show_nat n @ takeWhile (\<lambda>c. c \<noteq> CHR '' '') rest"
    using no [of "CHR '' ''"] by (intro takeWhile_append2) (auto simp: digit_val_def)
  moreover have "takeWhile (\<lambda>c. c \<noteq> CHR '' '') rest = []" using assms(2) by auto
  moreover have "\<not> starts_with (show_nat n @ rest) [CHR 0x22]"
    using no [of "CHR 0x22"] by (cases "show_nat n") (auto simp: digit_val_def)
  ultimately show ?thesis by (simp add: TInt value_text_def)
next
  case (TBool b)
  then show ?thesis using assms(2) by (cases b) (auto simp: value_text_def)
qed

lemma read_entry_render:
  assumes "wf_value v"
  shows "read_entry key (render_value v) = Entry key v"
    and "n > 0 \<Longrightarrow> read_entry key (render_value v @ replicate n (CHR '' '') @ CHR ''#'' # s) = Noted key v n s"
proof -
  show "read_entry key (render_value v) = Entry key v"
    using value_text_render [OF assms, of "[]"] by (simp add: read_entry_def Let_def read_value_render [OF assms])
  assume "n > 0"
  then obtain m where "n = Suc m" by (cases n) auto
  then have "value_text (render_value v @ replicate n (CHR '' '') @ CHR ''#'' # s) = render_value v"
    by (intro value_text_render [OF assms]) auto
  then show "read_entry key (render_value v @ replicate n (CHR '' '') @ CHR ''#'' # s) = Noted key v n s"
    using \<open>n > 0\<close> by (simp add: read_entry_def Let_def read_value_render [OF assms] takeWhile_append dropWhile_append del: replicate.simps)
qed

lemma read_key_render:
  assumes "key \<noteq> []" "list_all bare_char key"
  shows "read_line (key @ '' = '' @ text) = read_entry key text"
proof -
  obtain c cs where key: "key = c # cs" using assms(1) by (cases key) auto
  then have "CHR '' '' \<notin> set key" "c \<noteq> CHR ''#''" "c \<noteq> CHR ''[''"
    using assms(2) bare_not by (auto simp: list_all_iff)
  then show ?thesis
    using key split_once_append [of "CHR '' ''" key "CHR ''='' # CHR '' '' # text"] by (simp add: read_line_def)
qed

lemma read_line_render:
  assumes "wf_line l"
  shows "read_line (render_line l) = l"
proof (cases l)
  case (Entry key v)
  then show ?thesis using assms read_key_render [of key "render_value v"] read_entry_render(1) by simp
next
  case (Noted key v n s)
  then show ?thesis
    using assms read_key_render [of key "render_value v @ replicate n (CHR '' '') @ CHR ''#'' # s"] read_entry_render(2) by simp
qed (use assms in \<open>auto simp: read_line_def\<close>)

lemma read_doc_render: "list_all wf_line ls \<Longrightarrow> read_doc (render ls) = ls"
  by (induction ls)
    (simp_all add: read_doc_def render_def split_char_append wf_line_no_nl read_line_render)

lemma fragment_toml_reads: "toml_reads fragment_toml"
  by (auto simp: toml_reads_def fragment_toml_def wf_doc_def read_doc_render split: option.split)

end
