(* ===== verification/Docker.thy ===== *)
theory Docker
  imports Config_Model
begin

text \<open>
  The Docker stack (\<open>src/src/docker.rs\<close>): country names, the generated compose file, \<open>.env\<close>
  and tunnel configuration, and the start and stop commands with the polling of the VPN
  containers. Processes, files and the clock are the fields of \<open>host_ops\<close>, over an abstract
  world that every call may change; the YAML printer is a parameter. Console output is not
  modelled. Errors are the texts of the outermost \<open>anyhow\<close> context.
\<close>

section \<open>Countries\<close>

definition country_map :: "(string \<times> string) list" where
  "country_map =
    [(''us'', ''United_States''), (''de'', ''Germany''), (''jp'', ''Japan''), (''kr'', ''South_Korea''),
     (''gb'', ''United_Kingdom''), (''uk'', ''United_Kingdom''), (''fr'', ''France''), (''nl'', ''Netherlands''),
     (''ca'', ''Canada''), (''au'', ''Australia''), (''ch'', ''Switzerland''), (''se'', ''Sweden''),
     (''sg'', ''Singapore''), (''hk'', ''Hong_Kong''), (''in'', ''India''), (''br'', ''Brazil''), (''it'', ''Italy''),
     (''es'', ''Spain''), (''pl'', ''Poland''), (''at'', ''Austria''), (''no'', ''Norway''), (''dk'', ''Denmark''),
     (''fi'', ''Finland''), (''ie'', ''Ireland''), (''nz'', ''New_Zealand''), (''mx'', ''Mexico''),
     (''za'', ''South_Africa''), (''ro'', ''Romania''), (''cz'', ''Czech_Republic''), (''tw'', ''Taiwan'')]"

fun capitalise :: "string \<Rightarrow> string" where
  "capitalise [] = []"
| "capitalise (c # cs) = ascii_upper c # to_lowercase cs"

definition resolve_country :: "string \<Rightarrow> string" where
  "resolve_country input =
     (let lower = to_lowercase (trim input) in
      if CHR ''_'' \<in> set lower \<or> length lower > 3
      then str_join ''_'' (map capitalise (split_char (CHR ''_'') (trim input)))
      else (case map_of country_map lower of Some full \<Rightarrow> full | None \<Rightarrow> trim input))"

section \<open>The compose file\<close>

record build =
  context_dir :: string
  dockerfile :: string

record healthcheck =
  hc_test :: "string list"
  hc_interval :: string
  hc_timeout :: string
  hc_retries :: u32
  hc_start_period :: string

record network_config =
  ipv4_address :: string

text \<open>A \<open>BTreeMap\<close> is a map; the order of its keys is a matter of the printer.\<close>

record depends_on =
  do_condition :: string

record service =
  sv_build :: "build option"
  sv_container_name :: "string option"
  sv_cap_add :: "string list option"
  sv_sysctls :: "string list option"
  sv_environment :: "string list option"
  sv_healthcheck :: "healthcheck option"
  sv_networks :: "(string \<rightharpoonup> network_config) option"
  sv_ports :: "string list option"
  sv_volumes :: "string list option"
  sv_command :: "string list option"
  sv_depends_on :: "(string \<rightharpoonup> depends_on) option"

record ipam_config =
  ic_subnet :: string

record ipam =
  ip_config :: "ipam_config list"

record network =
  nw_driver :: string
  nw_ipam :: ipam

record compose_file =
  cf_services :: "string \<rightharpoonup> service"
  cf_networks :: "string \<rightharpoonup> network"

definition service_default :: service where
  "service_default =
     \<lparr>sv_build = None, sv_container_name = None, sv_cap_add = None, sv_sysctls = None, sv_environment = None,
      sv_healthcheck = None, sv_networks = None, sv_ports = None, sv_volumes = None, sv_command = None,
      sv_depends_on = None\<rparr>"

definition vpn_ip :: "nat \<Rightarrow> string" where
  "vpn_ip n = ''172.20.0.'' @ show_nat (10 + n)"

definition vpn_service :: "nat \<Rightarrow> string \<Rightarrow> service" where
  "vpn_service n country =
     service_default
       \<lparr>sv_build := Some \<lparr>context_dir = ''./docker'', dockerfile = ''Dockerfile.vpn''\<rparr>,
        sv_container_name := Some (''houdinny-vpn-'' @ show_nat n),
        sv_cap_add := Some [''NET_ADMIN'', ''NET_RAW''],
        sv_sysctls := Some [''net.ipv6.conf.all.disable_ipv6=1''],
        sv_environment := Some [''TOKEN=${NORD_TOKEN}'', ''CONNECT='' @ resolve_country country,
          ''TECHNOLOGY=NordLynx'', ''WHITELIST_SUBNET=172.20.0.0/16'', ''NETWORK=172.20.0.0/16''],
        sv_healthcheck := Some
          \<lparr>hc_test = [''CMD-SHELL'', ''nordvpn status | grep -qi connected && nc -z 127.0.0.1 1080''],
           hc_interval = ''10s'', hc_timeout = ''5s'', hc_retries = 18, hc_start_period = ''60s''\<rparr>,
        sv_networks := Some [''houdinny-net'' \<mapsto> \<lparr>ipv4_address = vpn_ip n\<rparr>]\<rparr>"

definition houdinny_service :: "u16 \<Rightarrow> service" where
  "houdinny_service port =
     service_default
       \<lparr>sv_build := Some \<lparr>context_dir = ''.'', dockerfile = ''Dockerfile''\<rparr>,
        sv_container_name := Some ''houdinny'',
        sv_ports := Some [show_word port @ '':'' @ show_word port],
        sv_volumes := Some [''./tunnels.docker.toml:/etc/houdinny/tunnels.toml:ro''],
        sv_command := Some [''-c'', ''/etc/houdinny/tunnels.toml''],
        sv_networks := Some [''houdinny-net'' \<mapsto> \<lparr>ipv4_address = ''172.20.0.20''\<rparr>]\<rparr>"

fun insert_vpns :: "nat \<Rightarrow> string list \<Rightarrow> (string \<rightharpoonup> service) \<Rightarrow> string \<rightharpoonup> service" where
  "insert_vpns i [] services = services"
| "insert_vpns i (country # rest) services =
     insert_vpns (i + 1) rest (services(''vpn-'' @ show_nat (i + 1) \<mapsto> vpn_service (i + 1) country))"

definition compose :: "string list \<Rightarrow> u16 \<Rightarrow> compose_file" where
  "compose countries port =
     \<lparr>cf_services = (insert_vpns 0 countries Map.empty)(''houdinny'' \<mapsto> houdinny_service port),
      cf_networks = [''houdinny-net'' \<mapsto> \<lparr>nw_driver = ''bridge'', nw_ipam = \<lparr>ip_config = [\<lparr>ic_subnet = ''172.20.0.0/16''\<rparr>]\<rparr>\<rparr>]\<rparr>"

abbreviation nl :: string where
  "nl \<equiv> [CHR 0x0A]"

abbreviation dquote :: string where
  "dquote \<equiv> [CHR 0x22]"

definition generate_docker_compose :: "(compose_file \<Rightarrow> string) \<Rightarrow> string list \<Rightarrow> u16 \<Rightarrow> string" where
  "generate_docker_compose to_yaml countries port =
     ''# Auto-generated by `houdinny start`'' @ nl @ nl @ to_yaml (compose countries port)"

definition generate_env :: "string \<Rightarrow> string" where
  "generate_env nord_token = ''NORD_TOKEN='' @ nord_token @ nl"

definition key_value :: "string \<Rightarrow> string \<Rightarrow> string" where
  "key_value key v = key @ '' = '' @ dquote @ v @ dquote @ nl"

definition tunnel_stanza :: "nat \<Rightarrow> string \<Rightarrow> string" where
  "tunnel_stanza n country =
     nl @ ''[[tunnel]]'' @ nl @ key_value ''protocol'' ''socks5''
       @ key_value ''address'' (vpn_ip n @ '':1080'')
       @ key_value ''label'' (''vpn-'' @ show_nat n @ ''-'' @ resolve_country country)"

fun tunnel_stanzas :: "nat \<Rightarrow> string list \<Rightarrow> string" where
  "tunnel_stanzas i [] = []"
| "tunnel_stanzas i (country # rest) = tunnel_stanza (i + 1) country @ tunnel_stanzas (i + 1) rest"

definition generate_tunnels_config :: "string list \<Rightarrow> string \<Rightarrow> u16 \<Rightarrow> string" where
  "generate_tunnels_config countries strategy_name port =
     ''# Auto-generated by `houdinny start` '' @ em_dash @ '' do not edit manually.'' @ nl @ nl
       @ ''[proxy]'' @ nl @ key_value ''listen'' (''0.0.0.0:'' @ show_word port)
       @ key_value ''mode'' ''transparent'' @ key_value ''strategy'' strategy_name
       @ tunnel_stanzas 0 countries"

section \<open>The host\<close>

record process_output =
  po_success :: bool
  po_code :: "int option"
  po_stdout :: string
  po_stderr :: string

text \<open>
  \<open>run\<close> starts a program with its arguments and waits for it; \<open>elapsed\<close> is the time since
  the program began and \<open>sleep\<close> lets time pass, both in milliseconds.
\<close>

record 'w host_ops =
  metadata_ok :: "'w \<Rightarrow> string \<Rightarrow> bool"
  run :: "'w \<Rightarrow> string \<Rightarrow> string list \<Rightarrow> (string + process_output) \<times> 'w"
  current_dir :: "'w \<Rightarrow> string + string"
  write_file :: "'w \<Rightarrow> string \<Rightarrow> string \<Rightarrow> (string + unit) \<times> 'w"
  elapsed :: "'w \<Rightarrow> nat"
  sleep :: "'w \<Rightarrow> nat \<Rightarrow> 'w"

definition docker_missing :: string where
  "docker_missing =
     ''docker not found. Please install Docker Desktop or Docker Engine.'' @ nl
       @ ''https://docs.docker.com/get-docker/''"

definition docker_candidates :: "string list" where
  "docker_candidates = [''/usr/local/bin/docker'', ''/usr/bin/docker'', ''/opt/homebrew/bin/docker'']"

definition find_docker :: "'w host_ops \<Rightarrow> 'w \<Rightarrow> (string + string) \<times> 'w" where
  "find_docker host w =
     (case find (metadata_ok host w) docker_candidates of
        Some candidate \<Rightarrow> (Inr candidate, w)
      | None \<Rightarrow>
          (case run host w ''which'' [''docker''] of
             (Inl _, w) \<Rightarrow> (Inl ''failed to search PATH for docker'', w)
           | (Inr output, w) \<Rightarrow>
               let path = trim (po_stdout output) in
               if po_success output \<and> path \<noteq> [] then (Inr path, w) else (Inl docker_missing, w)))"

section \<open>Polling\<close>

datatype vpn_state = Waiting | Connected | Failed string

fun is_resolved :: "vpn_state \<Rightarrow> bool" where
  "is_resolved Waiting = False"
| "is_resolved _ = True"

fun is_connected :: "vpn_state \<Rightarrow> bool" where
  "is_connected Connected = True"
| "is_connected _ = False"

definition diagnose_container :: "'w host_ops \<Rightarrow> 'w \<Rightarrow> string \<Rightarrow> string \<Rightarrow> string \<times> 'w" where
  "diagnose_container host w docker container =
     (let (logs, w) = run host w docker [''logs'', ''--tail'', ''20'', container];
          log_text = (case logs of Inr out \<Rightarrow> po_stdout out @ po_stderr out | Inl _ \<Rightarrow> []);
          lower = to_lowercase log_text in
      if str_contains ''token'' lower then (''invalid or expired NordVPN token'', w)
      else if str_contains ''no such device'' lower
      then (''WireGuard/NordLynx not available '' @ em_dash @ '' restart Docker Desktop'', w)
      else
        (trim (case find (\<lambda>l. trim l \<noteq> []) (rev (str_lines log_text)) of
                 Some l \<Rightarrow> l | None \<Rightarrow> ''unknown error''), w))"

definition poll_vpn :: "'w host_ops \<Rightarrow> string \<Rightarrow> nat \<Rightarrow> vpn_state \<Rightarrow> 'w \<Rightarrow> vpn_state \<times> 'w" where
  "poll_vpn host docker i state w =
     (if is_resolved state then (state, w)
      else
        let container = ''houdinny-vpn-'' @ show_nat (i + 1);
            (inspect, w) = run host w docker [''inspect'', ''-f'', ''{{.State.Running}}'', container];
            running = (case inspect of
                         Inr out \<Rightarrow> eq_ignore_ascii_case (trim (po_stdout out)) ''true''
                       | Inl _ \<Rightarrow> False)
        in if \<not> running then
             let (reason, w) = diagnose_container host w docker container in (Failed reason, w)
           else
             let (output, w) = run host w docker [''exec'', container, ''nordvpn'', ''status''] in
             case output of
               Inl _ \<Rightarrow> (state, w)
             | Inr out \<Rightarrow>
                 if str_contains ''status: connected'' (to_lowercase (po_stdout out)) then
                   let (_, w) = run host w docker
                         [''exec'', container, ''nordvpn'', ''whitelist'', ''add'', ''subnet'', ''172.20.0.0/16''];
                       (_, w) = run host w docker
                         [''exec'', ''-d'', container, ''microsocks'', ''-p'', ''1080'', ''-b'', ''0.0.0.0'']
                   in (Connected, w)
                 else (state, w))"

fun poll_all :: "'w host_ops \<Rightarrow> string \<Rightarrow> nat \<Rightarrow> vpn_state list \<Rightarrow> 'w \<Rightarrow> vpn_state list \<times> 'w" where
  "poll_all host docker i [] w = ([], w)"
| "poll_all host docker i (state # rest) w =
     (let (state', w) = poll_vpn host docker i state w;
          (rest', w) = poll_all host docker (i + 1) rest w
      in (state' # rest', w))"

fun time_out :: "vpn_state \<Rightarrow> vpn_state" where
  "time_out Waiting = Failed ''timed out''"
| "time_out s = s"

definition no_vpns :: string where
  "no_vpns =
     ''No VPNs connected. Troubleshooting:'' @ nl
       @ ''  1. Check your NordVPN token in .env '' @ em_dash @ '' is it valid?'' @ nl
       @ ''  2. Run: docker logs houdinny-vpn-1'' @ nl
       @ ''  3. Try restarting Docker Desktop'' @ nl
       @ ''  4. Try a different country''"

text \<open>
  The loop of \<open>wait_for_healthy\<close>; \<open>start\<close> is the clock when it began. Besides its result it
  returns the final states, which the code holds in a local variable.
\<close>

partial_function (option) wait_loop ::
  "'w host_ops \<Rightarrow> string \<Rightarrow> nat \<Rightarrow> vpn_state list \<Rightarrow> 'w \<Rightarrow> ((string + unit) \<times> vpn_state list \<times> 'w) option" where
  "wait_loop host docker start states w =
     (let (states, w) = poll_all host docker 0 states w;
          connected_count = length (filter is_connected states);
          all_resolved = list_all is_resolved states in
      if all_resolved \<or> elapsed host w - start > 180000 then
        let states = map time_out states in
        if connected_count = 0 then Some (Inl no_vpns, states, w)
        else
          let (_, w) = run host w docker [''restart'', ''houdinny''];
              w = sleep host w 2000
          in Some (Inr (), states, w)
      else wait_loop host docker start states (sleep host w 5000))"

definition wait_for_healthy ::
  "'w host_ops \<Rightarrow> string \<Rightarrow> string list \<Rightarrow> 'w \<Rightarrow> ((string + unit) \<times> vpn_state list \<times> 'w) option" where
  "wait_for_healthy host docker countries w =
     wait_loop host docker (elapsed host w) (replicate (length countries) Waiting) w"

section \<open>Start and stop\<close>

definition no_vpn_entries :: string where
  "no_vpn_entries =
     ''no VPN entries configured. Add [[docker.vpn]] sections to houdinny.toml ''
       @ ''or pass --nord-token + --countries.''"

definition token_not_set :: string where
  "token_not_set =
     ''NordVPN token not set. Either:'' @ nl
       @ ''  1. Put NORD_TOKEN=... in .env and use ${NORD_TOKEN} in houdinny.toml'' @ nl
       @ ''  2. Pass --nord-token=... on the command line''"

definition show_code :: "int option \<Rightarrow> string" where
  "show_code code =
     (let c = (case code of Some c \<Rightarrow> c | None \<Rightarrow> -1) in
      if c < 0 then ''-'' @ show_nat (nat (- c)) else show_nat (nat c))"

definition first_token :: "docker_config \<Rightarrow> string option \<Rightarrow> string option" where
  "first_token docker_cfg token_override =
     (case token_override of
        Some t \<Rightarrow> Some t
      | None \<Rightarrow> (case List.map_filter vpn_token (dc_vpn docker_cfg) of [] \<Rightarrow> None | t # _ \<Rightarrow> Some t))"

definition write_ctx :: "'w host_ops \<Rightarrow> string \<Rightarrow> string \<Rightarrow> string \<Rightarrow> 'w \<Rightarrow> (string + unit) \<times> 'w" where
  "write_ctx host dir name content w =
     (let (res, w) = write_file host w (dir @ ''/'' @ name) content
      in (map_err (\<lambda>_. ''failed to write '' @ name) res, w))"

definition compose_run :: "'w host_ops \<Rightarrow> string \<Rightarrow> string list \<Rightarrow> string \<Rightarrow> 'w \<Rightarrow> (string + unit) \<times> 'w" where
  "compose_run host docker args verb w =
     (case run host w docker (''compose'' # args) of
        (Inl _, w) \<Rightarrow> (Inl (''failed to run `docker compose '' @ verb @ ''`''), w)
      | (Inr status, w) \<Rightarrow>
          if po_success status then (Inr (), w)
          else (Inl (''`docker compose '' @ verb @ ''` exited with status '' @ show_code (po_code status)), w))"

text \<open>Sequencing of two effects: an error of the first is returned at once.\<close>

definition then_do :: "(string + 'a) \<times> 'w \<Rightarrow> ('a \<Rightarrow> 'w \<Rightarrow> ((string + 'b) \<times> 'w) option) \<Rightarrow> ((string + 'b) \<times> 'w) option" where
  "then_do x f = (case x of (Inl e, w) \<Rightarrow> Some (Inl e, w) | (Inr a, w) \<Rightarrow> f a w)"

definition write_configs ::
  "'w host_ops \<Rightarrow> (compose_file \<Rightarrow> string) \<Rightarrow> string \<Rightarrow> string list \<Rightarrow> string \<Rightarrow> u16 \<Rightarrow> string \<Rightarrow> 'w \<Rightarrow>
     ((string + unit) \<times> 'w) option" where
  "write_configs host to_yaml project_dir countries nord_token port strategy_name w =
     then_do (write_ctx host project_dir ''docker-compose.yml'' (generate_docker_compose to_yaml countries port) w)
       (\<lambda>_ w. then_do (write_ctx host project_dir ''.env'' (generate_env nord_token) w)
         (\<lambda>_ w. Some (write_ctx host project_dir ''tunnels.docker.toml''
                        (generate_tunnels_config countries strategy_name port) w)))"

definition start ::
  "'w host_ops \<Rightarrow> (compose_file \<Rightarrow> string) \<Rightarrow> docker_config \<Rightarrow> string option \<Rightarrow> u16 \<Rightarrow> string \<Rightarrow> bool \<Rightarrow> 'w \<Rightarrow>
     ((string + unit) \<times> 'w) option" where
  "start host to_yaml docker_cfg token_override port strategy_name no_wait w =
     (if dc_vpn docker_cfg = [] then Some (Inl no_vpn_entries, w)
      else
        let nord_token = (case first_token docker_cfg token_override of Some t \<Rightarrow> t | None \<Rightarrow> []) in
        if nord_token = [] \<or> str_contains ''${'' nord_token then Some (Inl token_not_set, w)
        else
          let countries = map vpn_country (dc_vpn docker_cfg) in
          then_do (find_docker host w)
            (\<lambda>docker w. then_do (map_err (\<lambda>_. ''failed to determine current directory'') (current_dir host w), w)
              (\<lambda>project_dir w.
                 case write_configs host to_yaml project_dir countries nord_token port strategy_name w of
                   None \<Rightarrow> None
                 | Some written \<Rightarrow> then_do written
                     (\<lambda>_ w. then_do (compose_run host docker [''up'', ''-d'', ''--build''] ''up'' w)
                       (\<lambda>_ w. if no_wait then Some (Inr (), w)
                               else map_option (\<lambda>(res, _, w). (res, w))
                                      (wait_for_healthy host docker countries w))))))"

definition stop :: "'w host_ops \<Rightarrow> 'w \<Rightarrow> ((string + unit) \<times> 'w) option" where
  "stop host w =
     then_do (find_docker host w)
       (\<lambda>docker w. then_do (map_err (\<lambda>_. ''failed to determine current directory'') (current_dir host w), w)
         (\<lambda>project_dir w. Some (compose_run host docker [''down''] ''down'' w)))"

section \<open>An order on the states of a VPN\<close>

text \<open>A waiting container may still become anything; a resolved one stays what it is.\<close>

instantiation vpn_state :: order
begin

definition less_eq_vpn_state :: "vpn_state \<Rightarrow> vpn_state \<Rightarrow> bool" where
  "less_eq_vpn_state s t = (s = Waiting \<or> s = t)"

definition less_vpn_state :: "vpn_state \<Rightarrow> vpn_state \<Rightarrow> bool" where
  "less_vpn_state s t = (s = Waiting \<and> t \<noteq> Waiting)"

instance
  by standard (auto simp: less_eq_vpn_state_def less_vpn_state_def)

end

lemma poll_vpn_mono: "s \<le> fst (poll_vpn host docker i s w)"
  by (cases s) (auto simp: poll_vpn_def less_eq_vpn_state_def split: prod.splits sum.splits)

lemma poll_all_mono: "list_all2 (\<le>) ss (fst (poll_all host docker i ss w))"
proof (induction ss arbitrary: i w)
  case (Cons s ss)
  then show ?case using poll_vpn_mono [of s host docker i w] by (simp add: Let_def split: prod.splits) (metis fst_conv)
qed simp

lemma time_out_mono: "s \<le> time_out s"
  by (cases s) (simp_all add: less_eq_vpn_state_def)

lemma is_connected_mono: "s \<le> t \<Longrightarrow> is_connected s \<Longrightarrow> is_connected t"
  by (auto simp: less_eq_vpn_state_def)

section \<open>The polling loop\<close>

text \<open>What is relied on of the clock: a process takes no negative time, and a sleep lasts.\<close>

definition clock_ok :: "'w host_ops \<Rightarrow> bool" where
  "clock_ok host =
     ((\<forall>w prog args. elapsed host w \<le> elapsed host (snd (run host w prog args)))
      \<and> (\<forall>w t. elapsed host w + t \<le> elapsed host (sleep host w t)))"

lemma clock_run: "clock_ok host \<Longrightarrow> run host w p a = (x, w') \<Longrightarrow> elapsed host w \<le> elapsed host w'"
  unfolding clock_ok_def by (metis snd_conv)

lemma clock_sleep: "clock_ok host \<Longrightarrow> elapsed host w + t \<le> elapsed host (sleep host w t)"
  by (simp add: clock_ok_def)

lemma poll_vpn_clock:
  assumes ok: "clock_ok host"
  shows "elapsed host w \<le> elapsed host (snd (poll_vpn host docker i s w))"
  using clock_run [OF ok]
  by (auto simp: poll_vpn_def diagnose_container_def Let_def split: prod.splits sum.splits if_splits) (meson order_trans)+

lemma poll_all_clock:
  assumes ok: "clock_ok host"
  shows "elapsed host w \<le> elapsed host (snd (poll_all host docker i ss w))"
proof (induction ss arbitrary: i w)
  case (Cons s ss)
  show ?case
    using Cons.IH poll_vpn_clock [OF ok, of w docker i s]
    by (simp add: Let_def split: prod.splits) (metis order_trans snd_conv)
qed simp

lemma list_all2_trans_le: "list_all2 (\<le>) xs ys \<Longrightarrow> list_all2 (\<le>) ys zs \<Longrightarrow> list_all2 (\<le>) (xs :: vpn_state list) zs"
  by (rule list_all2_trans [of "(\<le>)" "(\<le>)"]) auto

lemma time_out_all: "list_all2 (\<le>) ss (map time_out ss)" "list_all is_resolved (map time_out ss)"
    "filter is_connected (map time_out ss) = filter is_connected ss"
proof -
  show "list_all2 (\<le>) ss (map time_out ss)" by (induction ss) (auto simp: time_out_mono)
  show "list_all is_resolved (map time_out ss)"
  proof (induction ss)
    case (Cons s ss)
    then show ?case by (cases s) auto
  qed simp
  show "filter is_connected (map time_out ss) = filter is_connected ss"
  proof (induction ss)
    case (Cons s ss)
    then show ?case by (cases s) auto
  qed simp
qed

lemma wait_loop_spec:
  assumes ok: "clock_ok host"
  shows "\<exists>states' w'. wait_loop host docker t0 states w =
      Some (if filter is_connected states' = [] then Inl no_vpns else Inr (), states', w')
    \<and> list_all2 (\<le>) states states' \<and> list_all is_resolved states'"
proof (induction "t0 + 180001 - elapsed host w" arbitrary: states w rule: less_induct)
  case less
  obtain states1 w1 where poll: "poll_all host docker 0 states w = (states1, w1)"
    by (cases "poll_all host docker 0 states w")
  have le: "list_all2 (\<le>) states states1" using poll_all_mono [of states host docker 0 w] poll by simp
  have clock: "elapsed host w \<le> elapsed host w1" using poll_all_clock [OF ok, of w docker 0 states] poll by simp
  show ?case
  proof (cases "list_all is_resolved states1 \<or> elapsed host w1 - t0 > 180000")
    case True
    obtain x w2 where restart: "run host w1 docker [''restart'', ''houdinny''] = (x, w2)"
      by (cases "run host w1 docker [''restart'', ''houdinny'']")
    have "\<exists>w'. wait_loop host docker t0 states w =
        Some (if filter is_connected (map time_out states1) = [] then Inl no_vpns else Inr (), map time_out states1, w')"
      unfolding time_out_all(3) using poll restart True by (simp add: wait_loop.simps [of _ _ _ states] Let_def)
    then show ?thesis using time_out_all list_all2_trans_le [OF le] by blast
  next
    case False
    let ?w = "sleep host w1 5000"
    have step: "wait_loop host docker t0 states w = wait_loop host docker t0 states1 ?w"
      using poll False by (simp add: wait_loop.simps [of _ _ _ states] Let_def)
    have "t0 + 180001 - elapsed host ?w < t0 + 180001 - elapsed host w"
      using clock clock_sleep [OF ok, of w1 5000] False by linarith
    from less [OF this, of states1] show ?thesis unfolding step using list_all2_trans_le [OF le] by blast
  qed
qed

section \<open>Addresses\<close>

lemma insert_vpns_other:
  "(\<And>j. j < length cs \<Longrightarrow> k \<noteq> ''vpn-'' @ show_nat (i + j + 1)) \<Longrightarrow> insert_vpns i cs m k = m k"
proof (induction cs arbitrary: i m)
  case (Cons c cs)
  have "k \<noteq> ''vpn-'' @ show_nat (i + 1)" using Cons.prems [of 0] by simp
  moreover have "insert_vpns (i + 1) cs m' k = m' k" for m'
    using Cons.prems [of "Suc _"] by (intro Cons.IH) simp
  ultimately show ?case by simp
qed simp

lemma insert_vpns_lookup:
  "j < length cs \<Longrightarrow>
   insert_vpns i cs m (''vpn-'' @ show_nat (i + j + 1)) = Some (vpn_service (i + j + 1) (cs ! j))"
proof (induction cs arbitrary: i j m)
  case (Cons c cs)
  show ?case
  proof (cases j)
    case 0
    then show ?thesis
      using insert_vpns_other [of cs "''vpn-'' @ show_nat (i + 1)" "i + 1"] by (simp add: show_nat_inj)
  next
    case (Suc j')
    then show ?thesis using Cons.IH [of j' "i + 1"] Cons.prems by simp
  qed
qed simp

lemma vpn_service_lookup:
  assumes "j < length countries"
  shows "cf_services (compose countries port) (''vpn-'' @ show_nat (j + 1)) = Some (vpn_service (j + 1) (countries ! j))"
  using insert_vpns_lookup [OF assms, of 0] by (simp add: compose_def)

lemma houdinny_lookup: "cf_services (compose countries port) ''houdinny'' = Some (houdinny_service port)"
  by (simp add: compose_def)

definition service_ip :: "compose_file \<Rightarrow> string \<Rightarrow> string option" where
  "service_ip c name =
     (case cf_services c name of
        None \<Rightarrow> None
      | Some sv \<Rightarrow> (case sv_networks sv of
                      None \<Rightarrow> None
                    | Some nets \<Rightarrow> map_option ipv4_address (nets ''houdinny-net'')))"

lemma tunnel_stanzas_contain:
  "j < length cs \<Longrightarrow> \<exists>a b. tunnel_stanzas i cs = a @ tunnel_stanza (i + j + 1) (cs ! j) @ b"
proof (induction cs arbitrary: i j)
  case (Cons c cs)
  show ?case
  proof (cases j)
    case 0
    then show ?thesis by (metis add_0_right append_Nil nth_Cons_0 tunnel_stanzas.simps(2))
  next
    case (Suc j')
    then obtain a b where "tunnel_stanzas (i + 1) cs = a @ tunnel_stanza (i + 1 + j' + 1) (cs ! j') @ b"
      using Cons.IH [of j' "i + 1"] Cons.prems by auto
    then have "tunnel_stanzas i (c # cs) = (tunnel_stanza (i + 1) c @ a) @ tunnel_stanza (i + j + 1) ((c # cs) ! j) @ b"
      using Suc by simp
    then show ?thesis by blast
  qed
qed simp

lemma vpn_ip_inj: "vpn_ip m = vpn_ip n \<longleftrightarrow> m = n"
  by (simp add: vpn_ip_def show_nat_inj)

lemma vpn_ip_10: "vpn_ip 10 = ''172.20.0.20''"
  by (simp add: vpn_ip_def show_nat.simps)

section \<open>Properties\<close>

text \<open>
  The two generated files agree: for every country the compose file gives its VPN
  container an address, different for different containers, and the tunnel configuration has
  a stanza that points at port 1080 of exactly that address.
\<close>

theorem generated_files_agree:
  assumes "i < length countries" "j < length countries"
  shows "service_ip (compose countries port) (''vpn-'' @ show_nat (i + 1)) = Some (vpn_ip (i + 1))
    \<and> str_contains (key_value ''address'' (vpn_ip (i + 1) @ '':1080''))
        (generate_tunnels_config countries strat port)
    \<and> (service_ip (compose countries port) (''vpn-'' @ show_nat (i + 1))
         = service_ip (compose countries port) (''vpn-'' @ show_nat (j + 1)) \<longrightarrow> i = j)"
proof (intro conjI impI)
  have ip: "service_ip (compose countries port) (''vpn-'' @ show_nat (k + 1)) = Some (vpn_ip (k + 1))"
    if "k < length countries" for k
    using vpn_service_lookup [OF that, of port] by (simp add: service_ip_def vpn_service_def)
  show "service_ip (compose countries port) (''vpn-'' @ show_nat (i + 1)) = Some (vpn_ip (i + 1))"
    by (rule ip [OF assms(1)])
  show "i = j" if "service_ip (compose countries port) (''vpn-'' @ show_nat (i + 1))
         = service_ip (compose countries port) (''vpn-'' @ show_nat (j + 1))"
    using that unfolding ip [OF assms(1)] ip [OF assms(2)] by (simp add: vpn_ip_inj)
  obtain a b where "tunnel_stanzas 0 countries = a @ tunnel_stanza (0 + i + 1) (countries ! i) @ b"
    using tunnel_stanzas_contain [OF assms(1), of 0] by blast
  then have "generate_tunnels_config countries strat port
      = (''# Auto-generated by `houdinny start` '' @ em_dash @ '' do not edit manually.'' @ nl @ nl
         @ ''[proxy]'' @ nl @ key_value ''listen'' (''0.0.0.0:'' @ show_word port)
         @ key_value ''mode'' ''transparent'' @ key_value ''strategy'' strat @ a
         @ nl @ ''[[tunnel]]'' @ nl @ key_value ''protocol'' ''socks5'')
        @ key_value ''address'' (vpn_ip (i + 1) @ '':1080'')
        @ (key_value ''label'' (''vpn-'' @ show_nat (i + 1) @ ''-'' @ resolve_country (countries ! i)) @ b)"
    by (simp add: generate_tunnels_config_def tunnel_stanza_def)
  then show "str_contains (key_value ''address'' (vpn_ip (i + 1) @ '':1080''))
      (generate_tunnels_config countries strat port)"
    unfolding str_contains_iff by blast
qed

theorem generated_files_agree_witness:
  "service_ip (compose [''us'', ''de''] 8080) ''vpn-2'' = Some ''172.20.0.12''"
proof -
  have "1 < length [''us'', ''de'']" by simp
  moreover have "''vpn-'' @ show_nat (1 + 1) = ''vpn-2''" "vpn_ip (1 + 1) = ''172.20.0.12''"
    by code_simp+
  ultimately show ?thesis
    using generated_files_agree [of 1 "[''us'', ''de'']" 1 8080] by metis
qed

text \<open>
  The proxy's own address is taken: with ten or more countries, and only then, one of
  the VPN containers is given the fixed address of the houdinny container.
\<close>

theorem tenth_vpn_address_clash:
  "list_ex (\<lambda>i. service_ip (compose countries port) (''vpn-'' @ show_nat (i + 1))
              = service_ip (compose countries port) ''houdinny'') [0..<length countries]
   \<longleftrightarrow> length countries \<ge> 10"
proof -
  have h: "service_ip (compose countries port) ''houdinny'' = Some (vpn_ip 10)"
    by (simp add: service_ip_def houdinny_lookup houdinny_service_def vpn_ip_10)
  have "service_ip (compose countries port) (''vpn-'' @ show_nat (i + 1)) = Some (vpn_ip (i + 1))"
    if "i < length countries" for i
    using vpn_service_lookup [OF that, of port] by (simp add: service_ip_def vpn_service_def)
  then have "list_ex (\<lambda>i. service_ip (compose countries port) (''vpn-'' @ show_nat (i + 1))
        = service_ip (compose countries port) ''houdinny'') [0..<length countries]
      \<longleftrightarrow> (\<exists>i < length countries. i + 1 = 10)"
    unfolding h by (auto simp: list_ex_iff vpn_ip_inj)
  then show ?thesis by (simp, presburger)
qed

text \<open>A host on which every container runs and connects; the world is the clock.\<close>

definition sample_host :: "string \<Rightarrow> nat host_ops" where
  "sample_host status =
     \<lparr>metadata_ok = (\<lambda>_ _. True),
      run = (\<lambda>w prog args. (Inr \<lparr>po_success = True, po_code = Some 0,
               po_stdout = (if hd args = ''inspect'' then ''true'' @ nl else status), po_stderr = []\<rparr>, w + 100)),
      current_dir = (\<lambda>_. Inr ''/srv''), write_file = (\<lambda>w _ _. (Inr (), w)),
      elapsed = (\<lambda>w. w), sleep = (\<lambda>w t. w + t)\<rparr>"

lemma sample_host_clock: "clock_ok (sample_host status)"
  by (simp add: clock_ok_def sample_host_def)

text \<open>
  C11. Waiting for the containers ends, and says the truth: with a clock that advances
  \<open>wait_for_healthy\<close> returns; every container is then resolved, and the result is success
  exactly when at least one is connected. A round of polling never takes back what an
  earlier one found: a connected or failed container stays so.
\<close>

theorem wait_for_healthy_returns:
  assumes "clock_ok host"
  shows "(\<exists>states w'. wait_for_healthy host docker countries w =
      Some (if filter is_connected states = [] then Inl no_vpns else Inr (), states, w')
    \<and> length states = length countries \<and> list_all is_resolved states)
    \<and> list_all2 (\<le>) earlier (fst (poll_all host docker i earlier v))"
  using wait_loop_spec [OF assms, of docker "elapsed host w" "replicate (length countries) Waiting" w]
    poll_all_mono [of earlier host docker i v]
  unfolding wait_for_healthy_def by (metis length_replicate list_all2_lengthD)

theorem wait_for_healthy_returns_witness:
  "\<exists>states w'. wait_for_healthy (sample_host ''Status: Disconnected'') ''docker'' [''us''] 0
     = Some (if filter is_connected states = [] then Inl no_vpns else Inr (), states, w')
   \<and> length states = 1 \<and> list_all is_resolved states"
  using wait_for_healthy_returns [OF sample_host_clock, of "''Status: Disconnected''" "''docker''" "[''us'']" 0 "[]" 0 0]
  by simp

definition usable_token :: "docker_config \<Rightarrow> string option \<Rightarrow> bool" where
  "usable_token cfg token_override =
     (case first_token cfg token_override of
        None \<Rightarrow> False
      | Some t \<Rightarrow> t \<noteq> [] \<and> \<not> str_contains ''${'' t)"

lemma then_do_returns: "(\<And>a v. \<exists>x. f a v = Some x) \<Longrightarrow> \<exists>x. then_do y f = Some x"
  by (auto simp: then_do_def split: prod.split sum.split)

lemma write_configs_returns: "\<exists>x. write_configs host to_yaml dir cs t port strat w = Some x"
  unfolding write_configs_def by (intro then_do_returns) simp

lemma start_refuses:
  "dc_vpn cfg = [] \<Longrightarrow> start host to_yaml cfg token_override port strat no_wait w = Some (Inl no_vpn_entries, w)"
  "dc_vpn cfg \<noteq> [] \<Longrightarrow> \<not> usable_token cfg token_override \<Longrightarrow>
     start host to_yaml cfg token_override port strat no_wait w = Some (Inl token_not_set, w)"
  by (auto simp: start_def usable_token_def Let_def split: option.splits)

lemma usable_tokenE:
  assumes "usable_token cfg token_override"
  obtains t where "first_token cfg token_override = Some t" "t \<noteq> []" "\<not> str_contains ''${'' t"
  using assms by (auto simp: usable_token_def split: option.splits)

lemma start_total:
  assumes "clock_ok host"
  shows "\<exists>x. start host to_yaml cfg token_override port strat no_wait w = Some x"
proof (cases "dc_vpn cfg \<noteq> [] \<and> usable_token cfg token_override")
  case True
  obtain t where t: "first_token cfg token_override = Some t" "t \<noteq> []" "\<not> str_contains ''${'' t"
    using True by (auto elim: usable_tokenE)
  have wait: "\<exists>x. wait_for_healthy host docker cs v = Some x" for docker cs v
    using wait_loop_spec [OF assms, of docker "elapsed host v" "replicate (length cs) Waiting" v]
    unfolding wait_for_healthy_def by auto
  have configs: "\<exists>x. (case write_configs host to_yaml dir cs t port strat v of None \<Rightarrow> None
        | Some written \<Rightarrow> then_do written f) = Some x"
    if "\<And>a v. \<exists>x. f a v = Some x" for dir cs v and f :: "unit \<Rightarrow> _ \<Rightarrow> ((string + unit) \<times> _) option"
    using write_configs_returns [of host to_yaml dir cs t port strat v] then_do_returns [of f, OF that] by auto
  show ?thesis
    using True t
    by (simp add: start_def Let_def del: split_paired_Ex)
      (intro then_do_returns configs, simp add: wait del: split_paired_Ex)
next
  case False
  then show ?thesis by (cases "dc_vpn cfg = []") (simp_all add: start_refuses)
qed

text \<open>
  \<open>start\<close> always returns, given a clock that advances; and it touches nothing unless it has
  what it needs: when no VPN is configured, or the token (the command line's, else the first
  one configured) is missing, empty or still a variable reference, it fails before any file
  is written or any process run.
\<close>

theorem start_returns:
  assumes "clock_ok host"
  shows "\<exists>res w'. start host to_yaml cfg token_override port strat no_wait w = Some (res, w')
    \<and> (dc_vpn cfg = [] \<longrightarrow> res = Inl no_vpn_entries \<and> w' = w)
    \<and> (dc_vpn cfg \<noteq> [] \<and> \<not> usable_token cfg token_override \<longrightarrow> res = Inl token_not_set \<and> w' = w)"
  using start_total [OF assms, of to_yaml cfg token_override port strat no_wait w]
  by (cases "dc_vpn cfg = []"; cases "usable_token cfg token_override") (auto simp: start_refuses)

theorem start_returns_witness:
  "start (sample_host []) (\<lambda>_. []) \<lparr>dc_enabled = True,
       dc_vpn = [\<lparr>vpn_provider = ''nord'', vpn_token = Some ''${NORD_TOKEN}'', vpn_country = ''us''\<rparr>]\<rparr>
     None 8080 ''random'' False 7 = Some (Inl token_not_set, 7)"
proof -
  let ?cfg = "\<lparr>dc_enabled = True,
       dc_vpn = [\<lparr>vpn_provider = ''nord'', vpn_token = Some ''${NORD_TOKEN}'', vpn_country = ''us''\<rparr>]\<rparr>"
  have "\<not> usable_token ?cfg None" by (simp add: usable_token_def first_token_def List.map_filter_simps)
  then show ?thesis
    using start_returns [OF sample_host_clock, of "[]" "\<lambda>_. []" ?cfg None 8080 "''random''" False 7] by auto
qed

end
