(* ===== verification/Import_Cfg.thy ===== *)
theory Import_Cfg
  imports Prelude
begin

text \<open>
  The import commands (\<open>src/src/import/nord.rs\<close> and \<open>src/src/import/ssh.rs\<close>): fetching
  NordVPN servers, printing tunnel stanzas, and creating or extending the configuration file.
  The HTTP client, the JSON decoder, the file system and \<open>ssh\<close> are the fields of
  \<open>import_ops\<close>, over an abstract world; errors are the texts of the outermost \<open>anyhow\<close>
  context. The file operations are used through the locale \<open>file_store\<close>.
\<close>

section \<open>Responses of the NordVPN service\<close>

record tech_metadata =
  tm_name :: string
  tm_value :: string

record technology =
  te_identifier :: string
  te_metadata :: "tech_metadata list"
  te_pivot_status :: "string option"

record country =
  co_code :: string
  co_name :: string

record location =
  lo_country :: country

record server_entry =
  se_id :: u64
  se_name :: string
  se_hostname :: string
  se_station :: string
  se_technologies :: "technology list"
  se_locations :: "location list"

record credentials_response =
  nordlynx_private_key :: string

text \<open>A body that cannot be read is an error.\<close>

record http_response =
  hr_status :: nat
  hr_body :: "string + string"

record 'w import_ops =
  http_get :: "'w \<Rightarrow> string \<Rightarrow> (string \<times> string) option \<Rightarrow> (string + http_response) \<times> 'w"
  show_status :: "nat \<Rightarrow> string"
  json_credentials :: "string \<Rightarrow> string + credentials_response"
  json_servers :: "string \<Rightarrow> string + server_entry list"
  file_exists :: "'w \<Rightarrow> string \<Rightarrow> bool"
  open_append :: "'w \<Rightarrow> string \<Rightarrow> string + unit"
  append_text :: "'w \<Rightarrow> string \<Rightarrow> string \<Rightarrow> (string + unit) \<times> 'w"
  write_text :: "'w \<Rightarrow> string \<Rightarrow> string \<Rightarrow> (string + unit) \<times> 'w"
  ssh_status :: "'w \<Rightarrow> string list \<Rightarrow> (string + (bool \<times> string)) \<times> 'w"

section \<open>Country codes\<close>

definition country_ids :: "(string \<times> nat) list" where
  "country_ids =
    [(''US'', 228), (''GB'', 227), (''UK'', 227), (''DE'', 81), (''JP'', 114), (''NL'', 153), (''CA'', 38),
     (''AU'', 13), (''FR'', 74), (''CH'', 209), (''SE'', 208), (''SG'', 195), (''HK'', 97), (''IT'', 106),
     (''ES'', 202), (''BR'', 30), (''IN'', 100), (''KR'', 114)]"

definition country_code_to_id :: "string \<Rightarrow> nat option" where
  "country_code_to_id code = map_of country_ids (to_uppercase code)"

section \<open>Fetching\<close>

definition is_success :: "nat \<Rightarrow> bool" where
  "is_success status = (200 \<le> status \<and> status < 300)"

definition body_or_default :: "http_response \<Rightarrow> string" where
  "body_or_default resp = (case hr_body resp of Inr b \<Rightarrow> b | Inl _ \<Rightarrow> [])"

definition fetch_credentials :: "'w import_ops \<Rightarrow> 'w \<Rightarrow> string \<Rightarrow> (string + credentials_response) \<times> 'w" where
  "fetch_credentials io w token =
     (case http_get io w ''https://api.nordvpn.com/v1/users/services/credentials'' (Some (''token'', token)) of
        (Inl _, w) \<Rightarrow> (Inl ''failed to reach NordVPN credentials API'', w)
      | (Inr resp, w) \<Rightarrow>
          if hr_status resp = 401
          then (Inl (''NordVPN API returned 401 '' @ em_dash @ '' check your access token''), w)
          else if \<not> is_success (hr_status resp)
          then (Inl (''NordVPN credentials API returned HTTP '' @ show_status io (hr_status resp) @ '': ''
                       @ body_or_default resp), w)
          else
            (map_err (\<lambda>_. ''failed to parse NordVPN credentials response'')
               (and_then (hr_body resp) (json_credentials io)), w))"

definition fetch_server_list :: "'w import_ops \<Rightarrow> 'w \<Rightarrow> string \<Rightarrow> (string + server_entry list) \<times> 'w" where
  "fetch_server_list io w url =
     (case http_get io w url None of
        (Inl _, w) \<Rightarrow> (Inl ''failed to reach NordVPN server recommendations API'', w)
      | (Inr resp, w) \<Rightarrow>
          if \<not> is_success (hr_status resp)
          then (Inl (''NordVPN server recommendations API returned HTTP '' @ show_status io (hr_status resp)
                       @ '': '' @ body_or_default resp), w)
          else
            (map_err (\<lambda>_. ''failed to parse NordVPN server recommendations response'')
               (and_then (hr_body resp) (json_servers io)), w))"

definition nord_base :: string where
  "nord_base = ''https://api.nordvpn.com/v1/servers/recommendations''"

definition country_url :: "nat \<Rightarrow> nat \<Rightarrow> string" where
  "country_url country_id per_country =
     nord_base @ ''?filters[servers_technologies][identifier]=wireguard_udp&filters[country_id]=''
       @ show_nat country_id @ ''&limit='' @ show_nat per_country"

definition any_url :: "nat \<Rightarrow> string" where
  "any_url count =
     nord_base @ ''?filters[servers_technologies][identifier]=wireguard_udp&limit='' @ show_nat count"

fun fetch_countries ::
  "'w import_ops \<Rightarrow> 'w \<Rightarrow> nat \<Rightarrow> string list \<Rightarrow> server_entry list \<Rightarrow> (string + server_entry list) \<times> 'w" where
  "fetch_countries io w per_country [] all_servers = (Inr all_servers, w)"
| "fetch_countries io w per_country (code # codes) all_servers =
     (case country_code_to_id code of
        None \<Rightarrow> fetch_countries io w per_country codes all_servers
      | Some country_id \<Rightarrow>
          (case fetch_server_list io w (country_url country_id per_country) of
             (Inl e, w) \<Rightarrow> (Inl e, w)
           | (Inr servers, w) \<Rightarrow> fetch_countries io w per_country codes (all_servers @ servers)))"

definition truncate_servers :: "nat \<Rightarrow> (string + server_entry list) \<times> 'w \<Rightarrow> (string + server_entry list) \<times> 'w" where
  "truncate_servers count r = (and_then (fst r) (\<lambda>servers. Inr (take count servers)), snd r)"

definition fetch_servers ::
  "'w import_ops \<Rightarrow> 'w \<Rightarrow> nat \<Rightarrow> string list option \<Rightarrow> (string + server_entry list) \<times> 'w" where
  "fetch_servers io w count countries =
     truncate_servers count
       (case countries of
          Some (c # cs) \<Rightarrow> fetch_countries io w (max 1 (count div length (c # cs))) (c # cs) []
        | _ \<Rightarrow> fetch_server_list io w (any_url count))"

section \<open>Printing tunnel stanzas\<close>

abbreviation nl :: string where
  "nl \<equiv> [CHR 0x0A]"

definition setting :: "string \<Rightarrow> string \<Rightarrow> string" where
  "setting key v = key @ '' = '' @ [CHR 0x22] @ v @ [CHR 0x22] @ nl"

definition extract_wireguard_public_key :: "server_entry \<Rightarrow> string + string" where
  "extract_wireguard_public_key server =
     (case concat (map (\<lambda>tech. if te_identifier tech = ''wireguard_udp''
                               then map tm_value (filter (\<lambda>m. tm_name m = ''public_key'') (te_metadata tech))
                               else [])
                   (se_technologies server)) of
        key # _ \<Rightarrow> Inr key
      | [] \<Rightarrow> Inl (''server '' @ se_name server @ '' ('' @ se_hostname server
                      @ '') has no wireguard_udp public key in metadata''))"

definition nord_label :: "server_entry \<Rightarrow> string" where
  "nord_label server =
     ''nord-'' @ (case se_locations server of [] \<Rightarrow> ''xx'' | l # _ \<Rightarrow> to_lowercase (co_code (lo_country l)))
       @ ''-'' @ se_name server"

definition nord_stanza :: "string \<Rightarrow> string \<Rightarrow> server_entry \<Rightarrow> string" where
  "nord_stanza private_key public_key server =
     nl @ ''[[tunnel]]'' @ nl @ setting ''protocol'' ''wireguard''
       @ setting ''endpoint'' (se_station server @ '':51820'')
       @ setting ''private_key'' private_key @ setting ''public_key'' public_key
       @ setting ''address'' ''10.5.0.2/32'' @ setting ''dns'' ''103.86.96.100''
       @ setting ''label'' (nord_label server)"

fun nord_stanzas :: "string \<Rightarrow> server_entry list \<Rightarrow> string \<Rightarrow> string + string" where
  "nord_stanzas private_key [] buf = Inr buf"
| "nord_stanzas private_key (server # servers) buf =
     and_then (extract_wireguard_public_key server)
       (\<lambda>public_key. nord_stanzas private_key servers (buf @ nord_stanza private_key public_key server))"

definition nord_generate_toml :: "string \<Rightarrow> server_entry list \<Rightarrow> string + string" where
  "nord_generate_toml private_key servers =
     nord_stanzas private_key servers (''# Generated by: houdinny import nord'' @ nl)"

definition ssh_stanza :: "string \<Rightarrow> u16 \<Rightarrow> string" where
  "ssh_stanza host port =
     nl @ ''[[tunnel]]'' @ nl @ setting ''protocol'' ''socks5''
       @ setting ''address'' (''127.0.0.1:'' @ show_word port)
       @ setting ''label'' (''ssh-'' @ host @ ''-'' @ show_word port)"

definition ssh_generate_toml :: "string \<Rightarrow> u16 list \<Rightarrow> string" where
  "ssh_generate_toml host ports =
     ''# Generated by: houdinny import ssh'' @ nl @ concat (map (ssh_stanza host) ports)"

section \<open>The configuration file\<close>

definition fresh_config :: "string \<Rightarrow> string \<Rightarrow> string" where
  "fresh_config tool toml_block =
     ''# houdinny tunnel configuration'' @ nl @ ''# Generated by: houdinny import '' @ tool @ nl @ nl
       @ ''[proxy]'' @ nl @ setting ''listen'' ''127.0.0.1:8080'' @ setting ''mode'' ''transparent''
       @ setting ''strategy'' ''random'' @ nl @ toml_block"

text \<open>The two commands have the same function but for the name in the first lines.\<close>

definition write_config :: "'w import_ops \<Rightarrow> 'w \<Rightarrow> string \<Rightarrow> string \<Rightarrow> string \<Rightarrow> (string + unit) \<times> 'w" where
  "write_config io w tool output toml_block =
     (if file_exists io w output then
        (case open_append io w output of
           Inl _ \<Rightarrow> (Inl (''failed to open '' @ output @ '' for appending''), w)
         | Inr _ \<Rightarrow>
             (case append_text io w output nl of
                (Inl e, w) \<Rightarrow> (Inl e, w)
              | (Inr _, w) \<Rightarrow> append_text io w output toml_block))
      else
        (case write_text io w output (fresh_config tool toml_block) of
           (Inl _, w) \<Rightarrow> (Inl (''failed to write '' @ output), w)
         | (Inr _, w) \<Rightarrow> (Inr (), w)))"

definition nord_write_config :: "'w import_ops \<Rightarrow> 'w \<Rightarrow> string \<Rightarrow> string \<Rightarrow> (string + unit) \<times> 'w" where
  [simp]: "nord_write_config io w output toml_block = write_config io w ''nord'' output toml_block"

definition ssh_write_config :: "'w import_ops \<Rightarrow> 'w \<Rightarrow> string \<Rightarrow> string \<Rightarrow> (string + unit) \<times> 'w" where
  [simp]: "ssh_write_config io w output toml_block = write_config io w ''ssh'' output toml_block"

definition import_nord ::
  "'w import_ops \<Rightarrow> 'w \<Rightarrow> string \<Rightarrow> nat \<Rightarrow> string list option \<Rightarrow> string \<Rightarrow> (string + unit) \<times> 'w" where
  "import_nord io w token count countries output =
     (case fetch_credentials io w token of
        (Inl e, w) \<Rightarrow> (Inl e, w)
      | (Inr creds, w) \<Rightarrow>
          (case fetch_servers io w count countries of
             (Inl e, w) \<Rightarrow> (Inl e, w)
           | (Inr servers, w) \<Rightarrow>
               if servers = []
               then (Inl ''NordVPN returned no servers matching the requested criteria'', w)
               else
                 (case nord_generate_toml (nordlynx_private_key creds) servers of
                    Inl e \<Rightarrow> (Inl e, w)
                  | Inr toml_block \<Rightarrow> nord_write_config io w output toml_block)))"

definition start_ssh_tunnel :: "'w import_ops \<Rightarrow> 'w \<Rightarrow> string \<Rightarrow> string \<Rightarrow> u16 \<Rightarrow> (string + unit) \<times> 'w" where
  "start_ssh_tunnel io w user host port =
     (let cmd = ''ssh -D '' @ show_word port @ '' -N -f '' @ user @ ''@'' @ host in
      case ssh_status io w [''-D'', show_word port, ''-N'', ''-f'', user @ ''@'' @ host] of
        (Inl _, w) \<Rightarrow> (Inl (''failed to execute '' @ cmd), w)
      | (Inr (success, status), w) \<Rightarrow>
          if success then (Inr (), w) else (Inl (cmd @ '' exited with status '' @ status), w))"

fun start_ssh_tunnels :: "'w import_ops \<Rightarrow> 'w \<Rightarrow> string \<Rightarrow> string \<Rightarrow> u16 list \<Rightarrow> (string + unit) \<times> 'w" where
  "start_ssh_tunnels io w user host [] = (Inr (), w)"
| "start_ssh_tunnels io w user host (port # ports) =
     (case start_ssh_tunnel io w user host port of
        (Inl e, w) \<Rightarrow> (Inl e, w)
      | (Inr _, w) \<Rightarrow> start_ssh_tunnels io w user host ports)"

definition import_ssh ::
  "'w import_ops \<Rightarrow> 'w \<Rightarrow> string \<Rightarrow> string \<Rightarrow> u16 list \<Rightarrow> string \<Rightarrow> bool \<Rightarrow> (string + unit) \<times> 'w" where
  "import_ssh io w host user ports output start =
     (if ports = [] then (Inl (''no ports specified '' @ em_dash @ '' need at least one SOCKS5 port''), w)
      else
        (case (if start then start_ssh_tunnels io w user host ports else (Inr (), w)) of
           (Inl e, w) \<Rightarrow> (Inl e, w)
         | (Inr _, w) \<Rightarrow> ssh_write_config io w output (ssh_generate_toml host ports)))"

section \<open>The interface to the files\<close>

text \<open>
  Appending may fail after a part of the text went out; it and writing leave other files
  alone. Talking to the network or to \<open>ssh\<close> changes no file.
\<close>

locale file_store =
  fixes io :: "'w import_ops" and content :: "'w \<Rightarrow> string \<Rightarrow> string option"
  assumes exists_iff: "file_exists io w p \<longleftrightarrow> content w p \<noteq> None"
    and append_adds: "content w p = Some old \<Longrightarrow> append_text io w p text = (res, w') \<Longrightarrow>
        \<exists>k. content w' = (content w)(p \<mapsto> old @ take k text) \<and> (res = Inr () \<longrightarrow> length text \<le> k)"
    and write_sets: "write_text io w p text = (res, w') \<Longrightarrow>
        (\<forall>q. q \<noteq> p \<longrightarrow> content w' q = content w q) \<and> (res = Inr () \<longrightarrow> content w' p = Some text)"
    and get_keeps: "content (snd (http_get io w url auth)) = content w"
    and ssh_keeps: "content (snd (ssh_status io w args)) = content w"
begin

lemma append_line_adds:
  assumes "content w p = Some old" "append_text io w p a = (Inr (), w1)" "append_text io w1 p b = (res, w2)"
  shows "\<exists>k. content w2 = (content w)(p \<mapsto> old @ a @ take k b) \<and> (res = Inr () \<longrightarrow> length b \<le> k)"
proof -
  have w1: "content w1 = (content w)(p \<mapsto> old @ a)" using append_adds [OF assms(1,2)] by auto
  then have "content w1 p = Some (old @ a)" by simp
  from append_adds [OF this assms(3)] show ?thesis by (simp add: w1)
qed

lemma write_config_existing:
  assumes "content w p = Some old" "write_config io w tool p block = (res, w')"
  shows "\<exists>added. content w' = (content w)(p \<mapsto> old @ added) \<and> (res = Inr () \<longrightarrow> added = nl @ block)"
proof -
  have ex: "file_exists io w p" using assms(1) by (simp add: exists_iff)
  show ?thesis
  proof (cases "open_append io w p")
    case (Inl e)
    then show ?thesis using assms ex by (intro exI [of _ "[]"]) (auto simp: write_config_def)
  next
    case (Inr u)
    obtain r1 w1 where first: "append_text io w p nl = (r1, w1)" by (cases "append_text io w p nl")
    show ?thesis
    proof (cases r1)
      case (Inl e)
      then show ?thesis
        using assms ex Inr first append_adds [OF assms(1) first] by (auto simp: write_config_def)
    next
      case ok: (Inr v)
      then have app: "append_text io w1 p block = (res, w')"
        using assms(2) ex Inr first by (simp add: write_config_def)
      have first': "append_text io w p nl = (Inr (), w1)" using first ok by simp
      from append_line_adds [OF assms(1) first' app] show ?thesis by auto
    qed
  qed
qed

lemma write_config_fresh:
  assumes "content w p = None" "write_config io w tool p block = (res, w')"
  shows "(\<forall>q. q \<noteq> p \<longrightarrow> content w' q = content w q)
    \<and> (res = Inr () \<longrightarrow> content w' p = Some (fresh_config tool block))"
proof -
  have ex: "\<not> file_exists io w p" using assms(1) by (simp add: exists_iff)
  obtain r1 w1 where "write_text io w p (fresh_config tool block) = (r1, w1)"
    by (cases "write_text io w p (fresh_config tool block)")
  then show ?thesis using assms(2) ex write_sets by (auto simp: write_config_def split: sum.splits)
qed

lemma write_config_result:
  assumes "write_config io w tool p block = (Inr (), w')"
  shows "content w' p = Some (case content w p of Some old \<Rightarrow> old @ nl @ block | None \<Rightarrow> fresh_config tool block)"
  using write_config_existing [OF _ assms] write_config_fresh [OF _ assms]
  by (cases "content w p") auto

lemma fetch_server_list_keeps: "fetch_server_list io w url = (r, w') \<Longrightarrow> content w' = content w"
  using get_keeps [of w url None] by (auto simp: fetch_server_list_def split: prod.splits sum.splits if_splits)

lemma fetch_countries_keeps: "fetch_countries io w k codes acc = (r, w') \<Longrightarrow> content w' = content w"
  by (induction codes arbitrary: w acc)
    (auto split: option.splits prod.splits sum.splits dest: fetch_server_list_keeps)

lemma fetch_servers_keeps: "fetch_servers io w count countries = (r, w') \<Longrightarrow> content w' = content w"
proof -
  assume run: "fetch_servers io w count countries = (r, w')"
  show ?thesis
  proof (cases "\<exists>c cs. countries = Some (c # cs)")
    case True
    then obtain c cs where "countries = Some (c # cs)" by blast
    then have "snd (fetch_countries io w (max 1 (count div length (c # cs))) (c # cs) []) = w'"
      using run by (simp add: fetch_servers_def truncate_servers_def del: fetch_countries.simps)
    then show ?thesis using fetch_countries_keeps by (metis prod.collapse)
  next
    case False
    then have "snd (fetch_server_list io w (any_url count)) = w'"
      using run by (auto simp: fetch_servers_def truncate_servers_def split: option.splits list.splits)
    then show ?thesis using fetch_server_list_keeps by (metis prod.collapse)
  qed
qed

lemma fetch_credentials_keeps: "fetch_credentials io w token = (r, w') \<Longrightarrow> content w' = content w"
  using get_keeps [of w "''https://api.nordvpn.com/v1/users/services/credentials''" "Some (''token'', token)"]
  by (auto simp: fetch_credentials_def split: prod.splits sum.splits if_splits)

lemma start_ssh_tunnels_keeps: "start_ssh_tunnels io w user host ports = (r, w') \<Longrightarrow> content w' = content w"
proof (induction ports arbitrary: w)
  case (Cons port ports)
  obtain r1 w1 where step: "start_ssh_tunnel io w user host port = (r1, w1)"
    by (cases "start_ssh_tunnel io w user host port")
  then have "content w1 = content w"
    using ssh_keeps [of w "[''-D'', show_word port, ''-N'', ''-f'', user @ ''@'' @ host]"]
    by (auto simp: start_ssh_tunnel_def Let_def split: prod.splits sum.splits if_splits)
  then show ?case using Cons step by (auto split: sum.splits)
qed simp

end

lemma fetch_servers_count: "fetch_servers io w count countries = (Inr servers, w') \<Longrightarrow> length servers \<le> count"
  by (auto simp: fetch_servers_def truncate_servers_def res_simps)

lemma nord_stanzas_iff:
  "nord_stanzas key servers buf = Inr text \<longleftrightarrow>
     (\<exists>keys. map extract_wireguard_public_key servers = map Inr keys
       \<and> text = buf @ concat (map2 (nord_stanza key) keys servers))"
proof (induction servers arbitrary: buf)
  case (Cons server servers)
  show ?case
  proof (cases "extract_wireguard_public_key server")
    case (Inl e)
    then show ?thesis by (auto simp: map_eq_Cons_conv)
  next
    case (Inr k)
    let ?P = "\<lambda>keys. map extract_wireguard_public_key servers = map Inr keys
        \<and> text = (buf @ nord_stanza key k server) @ concat (map2 (nord_stanza key) keys servers)"
    have "(map extract_wireguard_public_key (server # servers) = map Inr keys
        \<and> text = buf @ concat (map2 (nord_stanza key) keys (server # servers)))
      \<longleftrightarrow> (\<exists>ks. keys = k # ks \<and> ?P ks)" for keys
      using Inr by (cases keys) auto
    then show ?thesis using Cons.IH [of "buf @ nord_stanza key k server"] Inr by simp
  qed
qed auto

section \<open>A store of files\<close>

text \<open>
  Files as a map from paths to texts, on a service that answers every request with status
  200 and decodes to given credentials and servers.
\<close>

definition map_io :: "credentials_response \<Rightarrow> server_entry list \<Rightarrow> (string \<rightharpoonup> string) import_ops" where
  "map_io creds servers =
     \<lparr>http_get = (\<lambda>w _ _. (Inr \<lparr>hr_status = 200, hr_body = Inr []\<rparr>, w)), show_status = (\<lambda>_. []),
      json_credentials = (\<lambda>_. Inr creds), json_servers = (\<lambda>_. Inr servers),
      file_exists = (\<lambda>w p. w p \<noteq> None), open_append = (\<lambda>_ _. Inr ()),
      append_text = (\<lambda>w p t. case w p of None \<Rightarrow> (Inl ''gone'', w) | Some old \<Rightarrow> (Inr (), w(p \<mapsto> old @ t))),
      write_text = (\<lambda>w p t. (Inr (), w(p \<mapsto> t))), ssh_status = (\<lambda>w _. (Inr (True, []), w))\<rparr>"

interpretation map_files: file_store "map_io creds servers" "\<lambda>w. w"
proof
  fix w :: "string \<rightharpoonup> string" and p old t res w'
  assume "w p = Some old" "append_text (map_io creds servers) w p t = (res, w')"
  then show "\<exists>k. w' = w(p \<mapsto> old @ take k t) \<and> (res = Inr () \<longrightarrow> length t \<le> k)"
    by (intro exI [of _ "length t"]) (auto simp: map_io_def)
qed (auto simp: map_io_def)

section \<open>Properties\<close>

lemma nord_block:
  assumes "nord_generate_toml key servers = Inr block"
  shows "\<exists>keys. map extract_wireguard_public_key servers = map Inr keys
     \<and> block = ''# Generated by: houdinny import nord'' @ nl @ concat (map2 (nord_stanza key) keys servers)"
  using assms unfolding nord_generate_toml_def nord_stanzas_iff append_assoc by blast

text \<open>An import stops before it writes, or writes the block of the servers it fetched.\<close>

lemma import_nord_cases:
  assumes "file_store io content" "import_nord io w token count countries output = (res, w')"
  obtains (stopped) "content w' = content w" "res \<noteq> Inr ()"
  | (writes) key servers block w2 where "content w2 = content w" "servers \<noteq> []" "length servers \<le> count"
      "nord_generate_toml key servers = Inr block" "write_config io w2 ''nord'' output block = (res, w')"
proof -
  note fs = assms(1)
  obtain r1 w1 where creds: "fetch_credentials io w token = (r1, w1)" by (cases "fetch_credentials io w token")
  obtain r2 w2 where srv: "fetch_servers io w1 count countries = (r2, w2)" by (cases "fetch_servers io w1 count countries")
  have keep: "content w1 = content w" "content w2 = content w"
    using file_store.fetch_credentials_keeps [OF fs creds] file_store.fetch_servers_keeps [OF fs srv] by simp_all
  show thesis
  proof (cases "\<exists>c ss block. r1 = Inr c \<and> r2 = Inr ss \<and> ss \<noteq> [] \<and> nord_generate_toml (nordlynx_private_key c) ss = Inr block")
    case False
    then show thesis
      using assms(2) creds srv keep by (intro stopped) (auto simp: import_nord_def split: sum.splits if_splits)
  next
    case True
    then obtain c ss block where ok: "r1 = Inr c" "r2 = Inr ss" "ss \<noteq> []"
      "nord_generate_toml (nordlynx_private_key c) ss = Inr block" by blast
    then have "write_config io w2 ''nord'' output block = (res, w')" using assms(2) creds srv by (simp add: import_nord_def)
    moreover have "length ss \<le> count" using fetch_servers_count [of io w1 count countries ss w2] srv ok(2) by simp
    ultimately show thesis using writes ok keep(2) by blast
  qed
qed


definition sample_server :: server_entry where
  "sample_server =
     \<lparr>se_id = 1, se_name = ''us1'', se_hostname = ''us1.nordvpn.com'', se_station = ''1.2.3.4'',
      se_technologies = [\<lparr>te_identifier = ''wireguard_udp'',
        te_metadata = [\<lparr>tm_name = ''public_key'', tm_value = ''pk''\<rparr>], te_pivot_status = None\<rparr>],
      se_locations = []\<rparr>"


text \<open>What the two commands leave in the output file when they succeed.\<close>

lemma import_ssh_writes:
  assumes "file_store io content" "import_ssh io w host user ports output start = (Inr (), w')"
  shows "ports \<noteq> [] \<and> content w' output = Some (case content w output of
       Some old \<Rightarrow> old @ nl @ ssh_generate_toml host ports
     | None \<Rightarrow> fresh_config ''ssh'' (ssh_generate_toml host ports))"
proof -
  note fs = assms(1)
  obtain r1 w1 where started: "(if start then start_ssh_tunnels io w user host ports else (Inr (), w)) = (r1, w1)"
    by (cases "if start then start_ssh_tunnels io w user host ports else (Inr (), w)")
  then have "content w1 = content w"
    using file_store.start_ssh_tunnels_keeps [OF fs, of w user host ports] by (auto split: if_splits)
  moreover have "ports \<noteq> []" "write_config io w1 ''ssh'' output (ssh_generate_toml host ports) = (Inr (), w')"
    using assms(2) started by (auto simp: import_ssh_def split: sum.splits if_splits)
  ultimately show ?thesis using file_store.write_config_result [OF fs] by metis
qed

lemma import_nord_writes:
  assumes "file_store io content" "fetch_credentials io w token = (Inr creds, w1)"
    and "fetch_servers io w1 count countries = (Inr servers, w2)"
    and "import_nord io w token count countries output = (Inr (), w')"
  shows "\<exists>keys block. map extract_wireguard_public_key servers = map Inr keys
     \<and> block = ''# Generated by: houdinny import nord'' @ nl
         @ concat (map2 (nord_stanza (nordlynx_private_key creds)) keys servers)
     \<and> content w' output = Some (case content w output of Some old \<Rightarrow> old @ nl @ block | None \<Rightarrow> fresh_config ''nord'' block)"
proof -
  note fs = assms(1)
  have w2: "content w2 = content w"
    using file_store.fetch_credentials_keeps [OF fs assms(2)] file_store.fetch_servers_keeps [OF fs assms(3)] by simp
  obtain block where block: "nord_generate_toml (nordlynx_private_key creds) servers = Inr block"
    "write_config io w2 ''nord'' output block = (Inr (), w')"
    using assms(2-4) by (auto simp: import_nord_def split: sum.splits if_splits)
  show ?thesis
    using nord_block [OF block(1)] file_store.write_config_result [OF fs block(2)] unfolding w2 by blast
qed

text \<open>
  Importing SSH tunnels: with at least one port and, if asked to, every tunnel started,
  the file that results is the old one extended by, or a fresh one made of, one SOCKS5 stanza
  per port on the loopback address, in order; a failure to start a tunnel leaves every file
  as it was.
\<close>

theorem import_ssh_files:
  assumes "file_store io content" "import_ssh io w host user ports output start = (res, w')"
  shows "(res = Inr () \<longrightarrow> ports \<noteq> [] \<and> content w' output =
       (case content w output of
          Some old \<Rightarrow> Some (old @ nl @ ssh_generate_toml host ports)
        | None \<Rightarrow> Some (fresh_config ''ssh'' (ssh_generate_toml host ports))))
    \<and> (start \<and> fst (start_ssh_tunnels io w user host ports) \<noteq> Inr () \<longrightarrow> content w' = content w)"
proof -
  note fs = assms(1)
  let ?block = "ssh_generate_toml host ports"
  obtain r1 w1 where started: "(if start then start_ssh_tunnels io w user host ports else (Inr (), w)) = (r1, w1)"
    by (cases "if start then start_ssh_tunnels io w user host ports else (Inr (), w)")
  have w1: "content w1 = content w"
    using started file_store.start_ssh_tunnels_keeps [OF fs, of w user host ports] by (auto split: if_splits)
  show ?thesis
  proof (cases "ports = [] \<or> r1 \<noteq> Inr ()")
    case True
    then show ?thesis using assms(2) started w1 by (auto simp: import_ssh_def split: sum.splits if_splits)
  next
    case False
    then have wr: "write_config io w1 ''ssh'' output ?block = (res, w')"
      using assms(2) started by (simp add: import_ssh_def)
    have "start \<longrightarrow> fst (start_ssh_tunnels io w user host ports) = Inr ()" using started False by auto
    moreover have "content w' output = (case content w output of Some old \<Rightarrow> Some (old @ nl @ ?block)
        | None \<Rightarrow> Some (fresh_config ''ssh'' ?block))" if "res = Inr ()"
      using import_ssh_writes [OF fs, of w host user ports "output" start w'] assms(2) that
      by (cases "content w output") simp_all
    ultimately show ?thesis using False by blast
  qed
qed

theorem import_ssh_files_witness:
  "snd (import_ssh (map_io \<lparr>nordlynx_private_key = []\<rparr> []) [''t.toml'' \<mapsto> ''x''] ''h'' ''u'' [1080] ''t.toml'' True) ''t.toml''
     = Some (''x'' @ nl @ ssh_generate_toml ''h'' [1080])"
proof -
  let ?io = "map_io \<lparr>nordlynx_private_key = []\<rparr> []"
  let ?run = "import_ssh ?io [''t.toml'' \<mapsto> ''x''] ''h'' ''u'' [1080] ''t.toml'' True"
  have ok: "fst ?run = Inr ()"
    by (simp add: import_ssh_def start_ssh_tunnel_def map_io_def write_config_def Let_def)
  then have run: "?run = (Inr (), snd ?run)" by (metis prod.collapse)
  have "\<exists>w'. ?run = (Inr (), w') \<and> w' ''t.toml'' = Some (''x'' @ nl @ ssh_generate_toml ''h'' [1080])"
    using import_ssh_files [OF map_files.file_store_axioms run] run by (intro exI [of _ "snd ?run"]) simp
  then show ?thesis by auto
qed

end
