(* ===== verification/Pool.thy ===== *)
theory Pool
  imports Transport
begin

text \<open>
  The tunnel pool (\<open>src/src/pool/mod.rs\<close>). The pool holds \<open>Arc<dyn Transport>\<close> handles,
  and a transport's health flag changes behind every handle to it at once, so a handle is a
  reference \<open>aref\<close> into a heap of transports and the pool is a list of references.
  Every method takes the pool's lock for its whole body, so a run of several tasks is a
  sequence of atomic steps, the relation \<open>pool_step\<close>. Logging is left out.
\<close>

type_synonym aref = nat
type_synonym theap = "aref \<Rightarrow> transport"

section \<open>State and operations\<close>

record pool =
  transports :: "aref list"

definition pool_new :: "aref list \<Rightarrow> pool" where
  "pool_new ts = \<lparr>transports = ts\<rparr>"

definition pool_add :: "pool \<Rightarrow> aref \<Rightarrow> pool" where
  "pool_add p r = p\<lparr>transports := transports p @ [r]\<rparr>"

definition pool_remove :: "theap \<Rightarrow> pool \<Rightarrow> string \<Rightarrow> bool \<times> pool" where
  "pool_remove h p i =
     (let before = length (transports p);
          kept = filter (\<lambda>r. transport_id (h r) \<noteq> i) (transports p)
      in (length kept < before, p\<lparr>transports := kept\<rparr>))"

primrec filter_healthy :: "theap \<Rightarrow> aref list \<Rightarrow> aref list" where
  "filter_healthy h [] = []"
| "filter_healthy h (r # rs) =
     (if healthy (h r) then r # filter_healthy h rs else filter_healthy h rs)"

definition healthy_transports :: "theap \<Rightarrow> pool \<Rightarrow> aref list" where
  "healthy_transports h p = filter_healthy h (transports p)"

text \<open>\<open>try_read\<close> fails while a writer holds the lock: \<open>contended\<close>.\<close>

definition healthy_transports_sync :: "theap \<Rightarrow> pool \<Rightarrow> bool \<Rightarrow> aref list" where
  "healthy_transports_sync h p contended =
     (if contended then [] else filter_healthy h (transports p))"

definition pool_get :: "theap \<Rightarrow> pool \<Rightarrow> string \<Rightarrow> aref option" where
  "pool_get h p i = find (\<lambda>r. transport_id (h r) = i) (transports p)"

definition pool_len :: "pool \<Rightarrow> nat" where
  "pool_len p = length (transports p)"

definition pool_is_empty :: "pool \<Rightarrow> bool" where
  "pool_is_empty p = (transports p = [])"

definition pool_all :: "pool \<Rightarrow> aref list" where
  "pool_all p = transports p"

record pool_status =
  ps_total :: nat
  ps_healthy :: nat
  ps_labels :: "string list"

fun summary_loop :: "theap \<Rightarrow> aref list \<Rightarrow> nat \<Rightarrow> string list \<Rightarrow> nat \<times> string list" where
  "summary_loop h [] healthy_count labels = (healthy_count, labels)"
| "summary_loop h (r # rs) healthy_count labels =
     summary_loop h rs
       (if healthy (h r) then healthy_count + 1 else healthy_count)
       (labels @ [transport_label (h r)])"

definition status_summary :: "theap \<Rightarrow> pool \<Rightarrow> pool_status" where
  "status_summary h p =
     (case summary_loop h (transports p) 0 [] of
        (healthy_count, labels) \<Rightarrow>
          \<lparr>ps_total = length (transports p), ps_healthy = healthy_count, ps_labels = labels\<rparr>)"

definition pool_status_display :: "pool_status \<Rightarrow> string" where
  "pool_status_display s =
     ''Pool('' @ show_nat (ps_total s) @ '' total, '' @ show_nat (ps_healthy s)
       @ '' healthy, labels=['' @ str_join '', '' (ps_labels s) @ ''])''"

section \<open>Interleavings\<close>

text \<open>
  One atomic step of any task that holds a handle: an insertion, a removal, or the closing
  of a transport through a handle (which takes no lock).
\<close>

inductive pool_step :: "theap \<times> pool \<Rightarrow> theap \<times> pool \<Rightarrow> bool" where
  step_add: "pool_step (h, p) (h, pool_add p r)"
| step_remove: "pool_step (h, p) (h, snd (pool_remove h p i))"
| step_close: "close (h r) = Inr t \<Longrightarrow> pool_step (h, p) (h(r := t), p)"

inductive_cases pool_stepE: "pool_step (h, p) (h', p')"

abbreviation pool_steps :: "theap \<times> pool \<Rightarrow> theap \<times> pool \<Rightarrow> bool" where
  "pool_steps \<equiv> pool_step\<^sup>*\<^sup>*"

section \<open>Lists of references\<close>

lemma filter_healthy_eq [simp]: "filter_healthy h rs = filter (\<lambda>r. healthy (h r)) rs"
  by (induction rs) auto

lemma summary_loop_eq:
  "summary_loop h rs n ls =
     (n + length (filter (\<lambda>r. healthy (h r)) rs), ls @ map (\<lambda>r. transport_label (h r)) rs)"
  by (induction rs arbitrary: n ls) auto

lemma length_filter_less_iff: "length (filter P xs) < length xs \<longleftrightarrow> (\<exists>x \<in> set xs. \<not> P x)"
  by (metis filter_id_conv length_filter_less less_irrefl)

lemmas pool_defs =
  pool_new_def pool_add_def pool_remove_def healthy_transports_def healthy_transports_sync_def
  pool_get_def pool_len_def pool_is_empty_def pool_all_def

section \<open>The pool's contract\<close>

text \<open>
  The laws the control planes and the picker rely on, over the list \<open>p_all\<close> of the pool's
  handles.
\<close>

locale pool_iface =
  fixes p_all :: "'p \<Rightarrow> aref list"
    and p_add :: "'p \<Rightarrow> aref \<Rightarrow> 'p"
    and p_remove :: "theap \<Rightarrow> 'p \<Rightarrow> string \<Rightarrow> bool \<times> 'p"
    and p_get :: "theap \<Rightarrow> 'p \<Rightarrow> string \<Rightarrow> aref option"
    and p_len :: "'p \<Rightarrow> nat"
    and p_healthy :: "theap \<Rightarrow> 'p \<Rightarrow> aref list"
  assumes all_add: "p_all (p_add p r) = p_all p @ [r]"
    and all_remove: "p_all (snd (p_remove h p i)) = filter (\<lambda>r. transport_id (h r) \<noteq> i) (p_all p)"
    and remove_found: "fst (p_remove h p i) \<longleftrightarrow> (\<exists>r \<in> set (p_all p). transport_id (h r) = i)"
    and get_find: "p_get h p i = find (\<lambda>r. transport_id (h r) = i) (p_all p)"
    and len_all: "p_len p = length (p_all p)"
    and healthy_all: "p_healthy h p = filter (\<lambda>r. healthy (h r)) (p_all p)"
begin

lemma get_after_remove: "p_get h (snd (p_remove h p i)) i = None"
  by (auto simp: get_find all_remove find_None_iff)

lemma get_other_after_remove:
  assumes "i \<noteq> j"
  shows "p_get h (snd (p_remove h p i)) j = p_get h p j"
proof -
  have "find (\<lambda>r. transport_id (h r) = j) (filter (\<lambda>r. transport_id (h r) \<noteq> i) rs)
      = find (\<lambda>r. transport_id (h r) = j) rs" for rs
    using assms by (induction rs) auto
  then show ?thesis by (simp add: get_find all_remove)
qed

lemma get_after_add:
  "p_get h (p_add p r) i =
     (case p_get h p i of
        Some q \<Rightarrow> Some q
      | None \<Rightarrow> if transport_id (h r) = i then Some r else None)"
proof -
  have "find P (xs @ [r]) = (case find P xs of Some q \<Rightarrow> Some q | None \<Rightarrow> if P r then Some r else None)"
    for P and xs :: "aref list"
    by (induction xs) auto
  then show ?thesis by (simp add: get_find all_add)
qed

lemma remove_found_get: "fst (p_remove h p i) \<longleftrightarrow> p_get h p i \<noteq> None"
  by (cases "p_get h p i") (auto simp: remove_found get_find find_None_iff find_Some_iff)

lemma len_remove_le: "p_len (snd (p_remove h p i)) \<le> p_len p"
  by (simp add: len_all all_remove)

end

interpretation vec: pool_iface pool_all pool_add pool_remove pool_get pool_len healthy_transports
  by unfold_locales (auto simp: pool_defs length_filter_less_iff Let_def)

section \<open>Properties\<close>

text \<open>
  Looking up, adding and removing agree: after a removal the identifier is not found,
  every other lookup is unchanged, and the removal reports whether the identifier was in the
  pool; after an addition a lookup finds what it found before, and otherwise the new
  transport if it has that identifier.
\<close>

theorem pool_lookup_laws:
  "pool_get h (snd (pool_remove h p i)) i = None
   \<and> (i \<noteq> j \<longrightarrow> pool_get h (snd (pool_remove h p i)) j = pool_get h p j)
   \<and> fst (pool_remove h p i) = (pool_get h p i \<noteq> None)
   \<and> pool_get h (pool_add p r) j =
       (case pool_get h p j of
          Some q \<Rightarrow> Some q
        | None \<Rightarrow> if transport_id (h r) = j then Some r else None)"
  using vec.get_after_remove vec.get_other_after_remove vec.remove_found_get vec.get_after_add
  by simp

text \<open>A heap of SOCKS5 transports that all have the same label, for evaluating.\<close>

definition sample_heap :: theap where
  "sample_heap r = Socks5 (socks5_new ''127.0.0.1:1080'' (''t'' @ show_nat r))"

theorem pool_lookup_laws_witness:
  "pool_get sample_heap (snd (pool_remove sample_heap (pool_new [0, 1]) ''socks5-t0'')) ''socks5-t1'' = Some 1"
proof -
  have "pool_get sample_heap (snd (pool_remove sample_heap (pool_new [0, 1]) ''socks5-t0'')) ''socks5-t1''
      = pool_get sample_heap (pool_new [0, 1]) ''socks5-t1''"
    using pool_lookup_laws [of sample_heap "pool_new [0, 1]" "''socks5-t0''" "''socks5-t1''"] by simp
  then show ?thesis
    by (simp add: pool_get_def pool_new_def sample_heap_def socks5_new_def show_nat.simps)
qed

lemma pool_step_heap:
  assumes "pool_step s s'"
  shows "transport_id (fst s' r) = transport_id (fst s r)"
    and "healthy (fst s' r) \<Longrightarrow> healthy (fst s r)"
  using assms by (cases, auto split: if_splits dest: dyn.close_unhealthy dyn.close_id)+

lemma pool_steps_heap:
  assumes "pool_steps s s'"
  shows "transport_id (fst s' r) = transport_id (fst s r)
    \<and> (healthy (fst s' r) \<longrightarrow> healthy (fst s r))"
  using assms
proof induction
  case (step y z)
  then show ?case using pool_step_heap [OF step.hyps(2), of r] by auto
qed simp

lemma pool_steps_identity:
  assumes "pool_steps s s'"
  shows "same_identity (fst s r) (fst s' r) \<and> (wf_transport (fst s r) \<longrightarrow> wf_transport (fst s' r))"
  using assms
proof induction
  case (step y z)
  have "same_identity (fst y r) (fst z r) \<and> (wf_transport (fst y r) \<longrightarrow> wf_transport (fst z r))"
    using step.hyps(2) by cases (use close_keeps in \<open>auto simp: same_identity_def\<close>)
  then show ?case using step.IH by (auto simp: same_identity_def)
qed (simp add: same_identity_def)

text \<open>
  C9. Closing a transport through any of its handles takes it out of rotation for good:
  under every interleaving of additions, removals and further closings by any number of
  tasks, the pool never again lists it as healthy (added again or not).
\<close>

theorem closed_never_healthy_again:
  assumes "close (h r) = Inr t"
    and "pool_steps (h(r := t), p) (h', p')"
  shows "r \<notin> set (healthy_transports h' p')"
proof -
  have "\<not> healthy t" by (rule dyn.close_unhealthy [OF assms(1)])
  then have "\<not> healthy (h' r)" using pool_steps_heap [OF assms(2), of r] by auto
  then show ?thesis by (simp add: healthy_transports_def)
qed

definition sample_heap_closed :: theap where
  "sample_heap_closed = sample_heap(0 := Socks5 ((socks5_new ''127.0.0.1:1080'' ''t0'')\<lparr>s5_healthy := False\<rparr>))"

theorem closed_never_healthy_again_witness:
  "0 \<notin> set (healthy_transports sample_heap_closed (pool_add (pool_new [1]) 0))"
proof (rule closed_never_healthy_again)
  show "close (sample_heap 0) = Inr (Socks5 ((socks5_new ''127.0.0.1:1080'' ''t0'')\<lparr>s5_healthy := False\<rparr>))"
    by (simp add: sample_heap_def show_nat.simps)
  show "pool_steps
     (sample_heap(0 := Socks5 ((socks5_new ''127.0.0.1:1080'' ''t0'')\<lparr>s5_healthy := False\<rparr>)), pool_new [1])
     (sample_heap_closed, pool_add (pool_new [1]) 0)"
    unfolding sample_heap_closed_def by (rule r_into_rtranclp) (rule step_add)
qed

text \<open>
  The status summary counts every transport, the healthy ones as the pool filters
  them, and lists all labels in order; the list handed to the picker is either empty (the
  lock is contended) or exactly the healthy transports in pool order.
\<close>

theorem status_summary_spec:
  "status_summary h p =
     \<lparr>ps_total = pool_len p, ps_healthy = length (healthy_transports h p),
      ps_labels = map (\<lambda>r. transport_label (h r)) (pool_all p)\<rparr>
   \<and> healthy_transports_sync h p contended = (if contended then [] else healthy_transports h p)"
  by (simp add: status_summary_def summary_loop_eq pool_defs)

end
