(* ===== verification/Router.thy ===== *)
theory Router
  imports Pool Config_Model "HOL-Library.Multiset"
begin

text \<open>
  The routers (\<open>src/src/router/mod.rs\<close>) and the picker closure that \<open>main\<close> builds from the
  pool and a router. A router object is the datatype \<open>router\<close>; the round-robin counter is an
  atomic 64-bit word whose \<open>fetch_add\<close> wraps. \<open>rand\<close>'s \<open>choose\<close> is a parameter.
\<close>

section \<open>Operations\<close>

datatype router = RandomRouter | RoundRobinRouter usize

definition round_robin_new :: router where
  "round_robin_new = RoundRobinRouter 0"

definition round_robin_default :: router where
  "round_robin_default = round_robin_new"

fun build_router :: "strategy \<Rightarrow> router" where
  "build_router Random = RandomRouter"
| "build_router RoundRobin = round_robin_new"

definition router_healthy :: "theap \<Rightarrow> aref list \<Rightarrow> aref list" where
  "router_healthy h ts = filter (\<lambda>r. healthy (h r)) ts"

definition random_pick :: "(aref list \<Rightarrow> aref option) \<Rightarrow> theap \<Rightarrow> aref list \<Rightarrow> error + aref" where
  "random_pick chooser h ts = ok_or (chooser (router_healthy h ts)) NoHealthyTunnels"

definition round_robin_pick :: "usize \<Rightarrow> theap \<Rightarrow> aref list \<Rightarrow> (error + aref) \<times> usize" where
  "round_robin_pick counter h ts =
     (let live = router_healthy h ts in
      if live = [] then (Inl NoHealthyTunnels, counter)
      else (let idx = unat counter mod length live in (Inr (live ! idx), counter + 1)))"

fun pick :: "(aref list \<Rightarrow> aref option) \<Rightarrow> router \<Rightarrow> theap \<Rightarrow> aref list \<Rightarrow> (error + aref) \<times> router" where
  "pick chooser RandomRouter h ts = (random_pick chooser h ts, RandomRouter)"
| "pick chooser (RoundRobinRouter c) h ts =
     (case round_robin_pick c h ts of (res, c') \<Rightarrow> (res, RoundRobinRouter c'))"

text \<open>The picker closure of \<open>main\<close>: the healthy transports of the pool, then the router.\<close>

definition picker ::
  "(aref list \<Rightarrow> aref option) \<Rightarrow> bool \<Rightarrow> theap \<Rightarrow> pool \<Rightarrow> router \<Rightarrow> (error + aref) \<times> router" where
  "picker chooser contended h p router =
     pick chooser router h (healthy_transports_sync h p contended)"

text \<open>A sequence of picks on a pool that does not change in between.\<close>

fun pick_many :: "nat \<Rightarrow> usize \<Rightarrow> theap \<Rightarrow> aref list \<Rightarrow> (error + aref) list \<times> usize" where
  "pick_many 0 c h ts = ([], c)"
| "pick_many (Suc n) c h ts =
     (case round_robin_pick c h ts of
        (res, c') \<Rightarrow> (case pick_many n c' h ts of (rs, c'') \<Rightarrow> (res # rs, c'')))"

section \<open>The router's contract\<close>

text \<open>
  What the proxy relies on, for any router: a pick is a healthy transport of the list,
  and it fails, with \<open>NoHealthyTunnels\<close>, exactly when there is none.
\<close>

locale router_iface =
  fixes r_pick :: "'r \<Rightarrow> theap \<Rightarrow> aref list \<Rightarrow> (error + aref) \<times> 'r"
  assumes pick_healthy: "fst (r_pick rt h ts) = Inr x \<Longrightarrow> x \<in> set ts \<and> healthy (h x)"
    and pick_fails: "fst (r_pick rt h ts) = Inl e \<Longrightarrow> e = NoHealthyTunnels"
    and pick_fails_iff: "(\<exists>e. fst (r_pick rt h ts) = Inl e) \<longleftrightarrow> filter (\<lambda>r. healthy (h r)) ts = []"
begin

lemma pick_total:
  assumes "x \<in> set ts" "healthy (h x)"
  shows "\<exists>y. fst (r_pick rt h ts) = Inr y"
  using assms pick_fails_iff [of rt h ts] by (cases "fst (r_pick rt h ts)") (auto simp: filter_empty_conv)

lemma pick_none: "\<not> (\<exists>x \<in> set ts. healthy (h x)) \<Longrightarrow> fst (r_pick rt h ts) = Inl NoHealthyTunnels"
  using pick_fails pick_fails_iff [of rt h ts] by (auto simp: filter_empty_conv)

lemma pick_ignores_unhealthy:
  "fst (r_pick rt h (filter (\<lambda>r. healthy (h r)) ts)) = Inr x \<Longrightarrow> x \<in> set ts \<and> healthy (h x)"
  using pick_healthy by fastforce

end

lemma nth_mod_mem: "xs \<noteq> [] \<Longrightarrow> xs ! (k mod length xs) \<in> set xs"
  by (intro nth_mem) simp

lemma round_robin_pick_res:
  "fst (round_robin_pick c h ts) =
     (if router_healthy h ts = [] then Inl NoHealthyTunnels
      else Inr (router_healthy h ts ! (unat c mod length (router_healthy h ts))))"
  by (simp add: round_robin_pick_def Let_def)

interpretation rr: router_iface round_robin_pick
proof
  fix rt h ts x
  assume "fst (round_robin_pick rt h ts) = Inr x"
  then have "x \<in> set (router_healthy h ts)"
    by (auto simp: round_robin_pick_res nth_mod_mem split: if_splits)
  then show "x \<in> set ts \<and> healthy (h x)" by (simp add: router_healthy_def)
qed (auto simp: round_robin_pick_res router_healthy_def split: if_splits)

text \<open>\<open>choose\<close> of the crate rand: an element of the list, and none only for the empty list.\<close>

definition choose_ok :: "(aref list \<Rightarrow> aref option) \<Rightarrow> bool" where
  "choose_ok chooser = (\<forall>xs. case chooser xs of None \<Rightarrow> xs = [] | Some x \<Rightarrow> x \<in> set xs)"

lemma choose_ok_Some: "choose_ok chooser \<Longrightarrow> chooser xs = Some x \<Longrightarrow> x \<in> set xs"
  unfolding choose_ok_def by (drule spec [of _ xs]) simp

lemma choose_ok_None: "choose_ok chooser \<Longrightarrow> chooser xs = None \<longleftrightarrow> xs = []"
  unfolding choose_ok_def by (drule spec [of _ xs]) (auto split: option.splits)

lemma pick_RoundRobin_res [simp]:
  "fst (pick chooser (RoundRobinRouter c) h ts) = fst (round_robin_pick c h ts)"
  by (simp split: prod.splits)

lemma pick_router_iface:
  assumes "choose_ok chooser"
  shows "router_iface (pick chooser)"
proof
  fix rt h ts x e
  have live: "x \<in> set (router_healthy h ts) \<longleftrightarrow> x \<in> set ts \<and> healthy (h x)"
    by (auto simp: router_healthy_def)
  show "x \<in> set ts \<and> healthy (h x)" if "fst (pick chooser rt h ts) = Inr x"
  proof (cases rt)
    case RandomRouter
    then show ?thesis
      using that choose_ok_Some [OF assms] live by (simp add: random_pick_def res_simps)
  next
    case (RoundRobinRouter c)
    then show ?thesis using that rr.pick_healthy by (simp del: pick.simps)
  qed
  show "e = NoHealthyTunnels" if "fst (pick chooser rt h ts) = Inl e"
    using that rr.pick_fails
    by (cases rt) (auto simp: random_pick_def res_simps simp del: pick.simps(2))
  show "(\<exists>e. fst (pick chooser rt h ts) = Inl e) \<longleftrightarrow> filter (\<lambda>r. healthy (h r)) ts = []"
    using rr.pick_fails_iff [of _ h ts] choose_ok_None [OF assms]
    by (cases rt) (auto simp: random_pick_def res_simps router_healthy_def simp del: pick.simps(2))
qed

section \<open>Round robin\<close>

lemma unat_Suc_word: "unat c + 1 < 2 ^ LENGTH('a) \<Longrightarrow> unat ((c :: 'a::len word) + 1) = unat c + 1"
  by (simp add: unat_word_ariths)

lemma pick_many_eq:
  assumes "router_healthy h ts \<noteq> []"
  shows "unat c + n \<le> 2 ^ 64 \<Longrightarrow>
    fst (pick_many n c h ts) =
      map (\<lambda>i. Inr (router_healthy h ts ! ((unat c + i) mod length (router_healthy h ts)))) [0..<n]"
proof (induction n arbitrary: c)
  case 0
  show ?case by simp
next
  case (Suc n)
  let ?live = "router_healthy h ts"
  have step: "round_robin_pick c h ts = (Inr (?live ! (unat c mod length ?live)), c + 1)"
    using assms by (simp add: round_robin_pick_def Let_def)
  show ?case
  proof (cases n)
    case 0
    then show ?thesis by (simp add: step)
  next
    case (Suc m)
    then have c1: "unat (c + 1) = unat c + 1"
      using Suc.prems by (intro unat_Suc_word) simp
    have "fst (pick_many n (c + 1) h ts) =
        map (\<lambda>i. Inr (?live ! ((unat c + Suc i) mod length ?live))) [0..<n]"
      using Suc.IH [of "c + 1"] Suc.prems by (simp add: c1)
    then show ?thesis
      by (simp add: step map_upt_Suc prod.case_eq_if del: upt_Suc)
  qed
qed

lemma mset_rotate_n: "mset (rotate k xs) = mset xs"
proof -
  have "mset (rotate1 ys) = mset ys" for ys :: "'a list" by (cases ys) auto
  then show ?thesis by (induction k) (simp_all add: rotate_def)
qed

lemma image_repeat_mset: "image_mset f (repeat_mset n M) = repeat_mset n (image_mset f M)"
  by (induction n) simp_all

lemma rotation_map:
  "xs \<noteq> [] \<Longrightarrow> map (\<lambda>i. xs ! ((k + i) mod length xs)) [0..<length xs] = rotate k xs"
  by (rule nth_equalityI) (auto simp: nth_rotate add.commute)

lemma mset_rotation:
  "xs \<noteq> [] \<Longrightarrow>
     mset (map (\<lambda>i. xs ! ((k + i) mod length xs)) [0..<m * length xs]) = repeat_mset m (mset xs)"
proof (induction m arbitrary: k)
  case 0
  show ?case by simp
next
  case (Suc m)
  let ?n = "length xs" and ?f = "\<lambda>k i. xs ! ((k + i) mod length xs)"
  have split: "[0..<Suc m * ?n] = [0..<?n] @ map (\<lambda>i. i + ?n) [0..<m * ?n]"
    by (metis add.commute add_0 map_add_upt mult_Suc upt_add_eq_append zero_le)
  have shift: "map (?f k) (map (\<lambda>i. i + ?n) [0..<m * ?n]) = map (?f (k + ?n)) [0..<m * ?n]"
    by (simp add: ac_simps)
  have "mset (map (?f k) [0..<Suc m * ?n])
      = mset (map (?f k) [0..<?n]) + mset (map (?f (k + ?n)) [0..<m * ?n])"
    by (simp only: split map_append mset_append shift)
  also have "\<dots> = mset xs + repeat_mset m (mset xs)"
    using Suc by (simp add: rotation_map mset_rotate_n)
  finally show ?case by simp
qed

lemma mset_map_upt_mono: "a \<le> b \<Longrightarrow> mset (map f [0..<a]) \<subseteq># mset (map f [0..<b])"
  using upt_add_eq_append [of 0 a "b - a"] by simp

lemma rotation_fair:
  assumes "xs \<noteq> []"
  defines "k \<equiv> length xs"
  shows "repeat_mset (n div k) (mset xs) \<subseteq># mset (map (\<lambda>i. xs ! ((c + i) mod k)) [0..<n])
    \<and> mset (map (\<lambda>i. xs ! ((c + i) mod k)) [0..<n]) \<subseteq># repeat_mset (n div k + 1) (mset xs)"
proof -
  note turns = mset_rotation [OF assms(1), of c, folded k_def, symmetric]
  have "n \<le> (n div k + 1) * k" using assms(1) dividend_less_div_times [of k n] by (simp add: k_def)
  then show ?thesis unfolding turns by (intro conjI mset_map_upt_mono) simp_all
qed

section \<open>Properties\<close>

text \<open>
  C7. Round robin is fair: over any number of picks on a healthy set that does not change, before
  the 64-bit counter wraps, every pick succeeds, and every healthy transport is picked as often
  as every other one, up to one pick: with \<open>n\<close> picks and \<open>k\<close> healthy transports each is picked
  \<open>n div k\<close> times or once more, from whatever position the counter is at.
\<close>

theorem round_robin_fair:
  assumes "router_healthy h ts \<noteq> []" "unat c + n \<le> 2 ^ 64"
  defines "k \<equiv> length (router_healthy h ts)"
  shows "repeat_mset (n div k) (mset (map Inr (router_healthy h ts))) \<subseteq># mset (fst (pick_many n c h ts))
    \<and> mset (fst (pick_many n c h ts)) \<subseteq># repeat_mset (n div k + 1) (mset (map Inr (router_healthy h ts)))"
proof -
  let ?xs = "map Inr (router_healthy h ts) :: (error + aref) list"
  have "fst (pick_many n c h ts) = map (\<lambda>i. ?xs ! ((unat c + i) mod length ?xs)) [0..<n]"
    using assms(1) by (simp add: pick_many_eq [OF assms(1,2)])
  then show ?thesis using rotation_fair [of ?xs n "unat c"] assms(1) by (simp add: k_def)
qed

theorem round_robin_fair_witness:
  "repeat_mset (5 div 2) {#Inr 3, Inr 7#} \<subseteq># mset (fst (pick_many 5 9 sample_heap [3, 7]))
   \<and> mset (fst (pick_many 5 9 sample_heap [3, 7])) \<subseteq># repeat_mset (5 div 2 + 1) {#Inr 3, Inr 7#}"
proof -
  have live: "router_healthy sample_heap [3, 7] = [3, 7]"
    by (simp add: router_healthy_def sample_heap_def socks5_new_def)
  have "router_healthy sample_heap [3, 7] \<noteq> []" "unat (9 :: usize) + 5 \<le> 2 ^ 64" by (simp_all add: live)
  from round_robin_fair [OF this] show ?thesis by (simp add: live numeral_2_eq_2 add_mset_commute)
qed

text \<open>
  C4. The picker of the proxy only ever hands out a transport that is in the pool and
  healthy at that moment, under either strategy; it fails only with
  \<open>NoHealthyTunnels\<close>, and exactly when the pool's lock is contended or no transport of
  the pool is healthy.
\<close>

theorem picker_contract:
  assumes "choose_ok chooser"
  shows "(fst (picker chooser contended h p router) = Inr r \<longrightarrow> r \<in> set (pool_all p) \<and> healthy (h r))
    \<and> (fst (picker chooser contended h p router) = Inl e \<longrightarrow> e = NoHealthyTunnels)
    \<and> ((\<exists>e. fst (picker chooser contended h p router) = Inl e) \<longleftrightarrow>
         contended \<or> healthy_transports h p = [])"
proof -
  note iface = pick_router_iface [OF assms]
  let ?ts = "healthy_transports_sync h p contended"
  have sub: "x \<in> set (pool_all p)" if "x \<in> set ?ts" for x
    using that by (auto simp: pool_defs split: if_splits)
  have none: "filter (\<lambda>r. healthy (h r)) ?ts = [] \<longleftrightarrow> contended \<or> healthy_transports h p = []"
    by (simp add: pool_defs)
  show ?thesis
    using router_iface.pick_healthy [OF iface, of router h ?ts r] sub
      router_iface.pick_fails [OF iface, of router h ?ts e]
      router_iface.pick_fails_iff [OF iface, of router h ?ts]
    unfolding picker_def none by blast
qed

theorem picker_contract_witness:
  "fst (picker (\<lambda>xs. case xs of [] \<Rightarrow> None | x # _ \<Rightarrow> Some x) False sample_heap (pool_new [4]) RandomRouter)
     = Inr 4 \<and> 4 \<in> set (pool_all (pool_new [4])) \<and> healthy (sample_heap 4)"
proof -
  have ok: "choose_ok (\<lambda>xs. case xs of [] \<Rightarrow> None | x # _ \<Rightarrow> Some x)"
    by (auto simp: choose_ok_def split: list.split)
  have "fst (picker (\<lambda>xs. case xs of [] \<Rightarrow> None | x # _ \<Rightarrow> Some x) False sample_heap (pool_new [4]) RandomRouter)
      = Inr 4"
    by (simp add: picker_def pool_defs random_pick_def router_healthy_def sample_heap_def socks5_new_def)
  then show ?thesis using picker_contract [OF ok] by blast
qed

end
