(* ===== verification/Line_IO.thy ===== *)
theory Line_IO
  imports Prelude
begin

text \<open>
  Reading lines from a connection: the interface of a buffered line reader that the proxy
  relies on (locale \<open>line_reader\<close>), and a concrete reader that satisfies it, a
  \<open>BufReader\<close> with an 8 KiB buffer over a socket that delivers the peer's bytes in
  arbitrary segments. The proxy itself takes the reader's operations as parameters, since
  tokio is not part of the repository; the concrete reader shows that the laws can hold and
  makes statements about buffering precise.
\<close>

section \<open>Lines of a text\<close>

abbreviation newline :: char where
  "newline \<equiv> CHR 0x0A"

definition next_line :: "string \<Rightarrow> string" where
  "next_line s = (case str_find newline s of Some i \<Rightarrow> take (Suc i) s | None \<Rightarrow> s)"

definition after_line :: "string \<Rightarrow> string" where
  "after_line s = drop (length (next_line s)) s"

lemma next_after_line: "next_line s @ after_line s = s"
proof -
  have "next_line s = take (length (next_line s)) s"
    by (auto simp: next_line_def min_def split: option.splits)
  then show ?thesis unfolding after_line_def by (metis append_take_drop_id)
qed

lemma next_line_Nil [simp]: "next_line [] = []"
  by (simp add: next_line_def)

lemma next_line_not_Nil: "s \<noteq> [] \<Longrightarrow> next_line s \<noteq> []"
  by (auto simp: next_line_def split: option.splits)

lemma after_line_shorter: "s \<noteq> [] \<Longrightarrow> length (after_line s) < length s"
  using next_line_not_Nil [of s] by (cases s) (auto simp: after_line_def)

lemma next_line_closed:
  "newline \<notin> set l \<Longrightarrow> next_line (l @ newline # s) = l @ [newline]"
  by (simp add: next_line_def)

lemma after_line_closed:
  "newline \<notin> set l \<Longrightarrow> after_line (l @ newline # s) = s"
  by (simp add: after_line_def next_line_closed)

lemma str_find_skip:
  "c \<notin> set p \<Longrightarrow> str_find c (p @ s) = map_option (\<lambda>i. length p + i) (str_find c s)"
  by (induction p; cases "str_find c s") auto

section \<open>The interface\<close>

text \<open>
  \<open>pending r\<close> is what the reader has yet to deliver, buffered or not, and \<open>broken r\<close> the
  error that ends the stream, if it does not end cleanly. \<open>read_line\<close> delivers the text up to
  and including the next line feed, or all there is at a clean end.
\<close>

locale line_reader =
  fixes rd_line :: "'r \<Rightarrow> (string + string) \<times> 'r"
    and pending :: "'r \<Rightarrow> string"
    and broken :: "'r \<Rightarrow> string option"
  assumes line_ok:
      "newline \<in> set (pending r) \<or> broken r = None \<Longrightarrow>
       \<exists>r'. rd_line r = (Inr (next_line (pending r)), r') \<and> pending r' = after_line (pending r)
            \<and> broken r' = broken r"
    and line_fails:
      "newline \<notin> set (pending r) \<Longrightarrow> broken r = Some e \<Longrightarrow> fst (rd_line r) = Inl e"
begin

lemma line_cases:
  obtains (line) r' where "rd_line r = (Inr (next_line (pending r)), r')"
      "pending r' = after_line (pending r)" "broken r' = broken r"
  | (fails) e r' where "broken r = Some e" "rd_line r = (Inl e, r')" "newline \<notin> set (pending r)"
proof (cases "newline \<in> set (pending r) \<or> broken r = None")
  case True
  then show ?thesis using line_ok line by blast
next
  case False
  then obtain e where "broken r = Some e" "newline \<notin> set (pending r)" by auto
  then show ?thesis using line_fails fails by (metis prod.collapse)
qed

lemma next_line_ok:
  assumes "broken r = None"
  obtains r' where "rd_line r = (Inr (next_line (pending r)), r')"
    "pending r' = after_line (pending r)" "broken r' = None"
  using assms line_ok [of r] by auto

end

section \<open>A socket and a buffered reader\<close>

record conn =
  cn_chunks :: "string list"
  cn_broken :: "string option"
  cn_sent :: string

record bufreader =
  br_buf :: string
  br_inner :: conn

text \<open>One \<open>read\<close> delivers at most the next segment; no segment is left: end of the stream.\<close>

definition conn_read :: "nat \<Rightarrow> conn \<Rightarrow> (string + string) \<times> conn" where
  "conn_read n c =
     (case dropWhile (\<lambda>ch. ch = []) (cn_chunks c) of
        [] \<Rightarrow> (case cn_broken c of
                 None \<Rightarrow> (Inr [], c\<lparr>cn_chunks := []\<rparr>)
               | Some e \<Rightarrow> (Inl e, c\<lparr>cn_chunks := []\<rparr>))
      | ch # rest \<Rightarrow>
          if length ch \<le> n then (Inr ch, c\<lparr>cn_chunks := rest\<rparr>)
          else (Inr (take n ch), c\<lparr>cn_chunks := drop n ch # rest\<rparr>))"

definition conn_write :: "conn \<Rightarrow> string \<Rightarrow> conn" where
  "conn_write c bs = c\<lparr>cn_sent := cn_sent c @ bs\<rparr>"

definition br_new :: "conn \<Rightarrow> bufreader" where
  "br_new c = \<lparr>br_buf = [], br_inner = c\<rparr>"

definition br_fill :: "bufreader \<Rightarrow> (string + unit) \<times> bufreader" where
  "br_fill r =
     (if br_buf r \<noteq> [] then (Inr (), r)
      else case conn_read 8192 (br_inner r) of
             (Inl e, c) \<Rightarrow> (Inl e, r\<lparr>br_inner := c\<rparr>)
           | (Inr bs, c) \<Rightarrow> (Inr (), \<lparr>br_buf = bs, br_inner = c\<rparr>))"

definition br_pending :: "bufreader \<Rightarrow> string" where
  "br_pending r = br_buf r @ concat (cn_chunks (br_inner r))"

definition br_broken :: "bufreader \<Rightarrow> string option" where
  "br_broken r = cn_broken (br_inner r)"

lemma concat_dropWhile_Nil: "concat (dropWhile (\<lambda>ch. ch = []) xs) = concat xs"
  by (induction xs) auto

lemma conn_read_cases:
  obtains (data) ch rest where "conn_read n c = (Inr ch, c\<lparr>cn_chunks := rest\<rparr>)"
      "concat (cn_chunks c) = ch @ concat rest" "0 < n \<longrightarrow> ch \<noteq> []"
  | (eof) "conn_read n c = (Inr [], c\<lparr>cn_chunks := []\<rparr>)" "concat (cn_chunks c) = []" "cn_broken c = None"
  | (err) e where "conn_read n c = (Inl e, c\<lparr>cn_chunks := []\<rparr>)" "concat (cn_chunks c) = []" "cn_broken c = Some e"
proof (cases "dropWhile (\<lambda>ch. ch = []) (cn_chunks c)")
  case Nil
  have "concat (cn_chunks c) = []" using concat_dropWhile_Nil [of "cn_chunks c"] Nil by simp
  then show ?thesis using eof err Nil by (cases "cn_broken c") (auto simp: conn_read_def)
next
  case (Cons ch rest)
  have ne: "ch \<noteq> []" using hd_dropWhile [of "\<lambda>ch. ch = []" "cn_chunks c"] Cons by simp
  have cc: "concat (cn_chunks c) = ch @ concat rest"
    using concat_dropWhile_Nil [of "cn_chunks c"] Cons by simp
  show ?thesis
  proof (cases "length ch \<le> n")
    case True
    then show ?thesis using data [of ch rest] Cons ne cc by (simp add: conn_read_def)
  next
    case False
    have "conn_read n c = (Inr (take n ch), c\<lparr>cn_chunks := drop n ch # rest\<rparr>)"
      using False Cons by (simp add: conn_read_def)
    moreover have "concat (cn_chunks c) = take n ch @ concat (drop n ch # rest)"
      unfolding cc by (simp add: append_assoc [symmetric] del: append_assoc)
    moreover have "0 < n \<longrightarrow> take n ch \<noteq> []" using ne by simp
    ultimately show ?thesis by (rule data)
  qed
qed

text \<open>After a fill the buffer is empty only at a clean end, and nothing is lost.\<close>

lemma br_fill_cases:
  obtains (ok) r' where "br_fill r = (Inr (), r')" "br_pending r' = br_pending r"
      "br_broken r' = br_broken r" "br_buf r' = [] \<longrightarrow> br_pending r = [] \<and> br_broken r = None"
  | (err) e r' where "br_fill r = (Inl e, r')" "br_pending r = []" "br_broken r = Some e"
proof (cases "br_buf r")
  case (Cons b bs)
  then show ?thesis using ok [of r] by (simp add: br_fill_def)
next
  case Nil
  show ?thesis
  proof (cases rule: conn_read_cases [of 8192 "br_inner r"])
    case (data ch rest)
    show ?thesis
      by (rule ok [of "\<lparr>br_buf = ch, br_inner = (br_inner r)\<lparr>cn_chunks := rest\<rparr>\<rparr>"])
        (use data Nil in \<open>simp_all add: br_fill_def br_pending_def br_broken_def\<close>)
  next
    case eof
    show ?thesis
      by (rule ok [of "\<lparr>br_buf = [], br_inner = (br_inner r)\<lparr>cn_chunks := []\<rparr>\<rparr>"])
        (use eof Nil in \<open>simp_all add: br_fill_def br_pending_def br_broken_def\<close>)
  next
    case (err e)
    show ?thesis
      by (rule that(2) [of e "r\<lparr>br_inner := (br_inner r)\<lparr>cn_chunks := []\<rparr>\<rparr>"])
        (use err Nil in \<open>simp_all add: br_fill_def br_pending_def br_broken_def\<close>)
  qed
qed

lemma br_fill_length: "br_fill r = (Inr u, r') \<Longrightarrow> length (br_pending r') = length (br_pending r)"
  by (cases rule: br_fill_cases [of r]) auto

lemma br_fill_shorter:
  "(Inr u, r') = br_fill r \<Longrightarrow> br_buf r' \<noteq> [] \<Longrightarrow>
   length (br_pending (r'\<lparr>br_buf := []\<rparr>)) < length (br_pending r)"
  using br_fill_length [of r u r'] by (cases "br_buf r'") (auto simp: br_pending_def)

function br_line_loop :: "bufreader \<Rightarrow> string \<Rightarrow> (string + string) \<times> bufreader" where
  "br_line_loop r acc =
     (case br_fill r of
        (Inl e, r') \<Rightarrow> (Inl e, r')
      | (Inr _, r') \<Rightarrow>
          (case str_find newline (br_buf r') of
             Some i \<Rightarrow> (Inr (acc @ take (Suc i) (br_buf r')), r'\<lparr>br_buf := drop (Suc i) (br_buf r')\<rparr>)
           | None \<Rightarrow> if br_buf r' = [] then (Inr acc, r')
                     else br_line_loop (r'\<lparr>br_buf := []\<rparr>) (acc @ br_buf r')))"
  by pat_completeness auto
termination
  by (relation "measure (\<lambda>(r, acc). length (br_pending r))") (auto dest: br_fill_shorter)

declare br_line_loop.simps [simp del]

definition br_read_line :: "bufreader \<Rightarrow> (string + string) \<times> bufreader" where
  "br_read_line r = br_line_loop r []"

definition br_into_inner :: "bufreader \<Rightarrow> conn" where
  "br_into_inner r = br_inner r"

lemma line_in_buffer:
  assumes "str_find newline buf = Some i"
  shows "next_line (buf @ tail) = take (Suc i) buf" "after_line (buf @ tail) = drop (Suc i) buf @ tail"
    "newline \<in> set buf"
proof -
  have i: "i < length buf" "buf ! i = newline" "newline \<notin> set (take i buf)"
    using str_find_SomeD [OF assms] by blast+
  then have "str_find newline (buf @ tail) = Some i"
    using str_find_Some_split [OF assms] str_find_append [of newline "take i buf" "drop (Suc i) buf @ tail"]
    by (metis append.assoc append_Cons length_take min.absorb2 less_imp_le)
  then show fl: "next_line (buf @ tail) = take (Suc i) buf" using i(1) by (simp add: next_line_def)
  show "after_line (buf @ tail) = drop (Suc i) buf @ tail" unfolding after_line_def fl using i(1) by simp
  show "newline \<in> set buf" using nth_mem [OF i(1)] by (simp add: i(2))
qed

lemma line_past_buffer:
  assumes "newline \<notin> set buf"
  shows "next_line (buf @ tail) = buf @ next_line tail" "after_line (buf @ tail) = after_line tail"
proof -
  show fl: "next_line (buf @ tail) = buf @ next_line tail"
    using str_find_skip [OF assms, of tail] by (auto simp: next_line_def split: option.splits)
  show "after_line (buf @ tail) = after_line tail" by (simp add: after_line_def fl)
qed

lemma br_line_loop_spec:
  "(if newline \<in> set (br_pending r) \<or> br_broken r = None
    then \<exists>r'. br_line_loop r acc = (Inr (acc @ next_line (br_pending r)), r')
         \<and> br_pending r' = after_line (br_pending r) \<and> br_broken r' = br_broken r
    else fst (br_line_loop r acc) = Inl (the (br_broken r)))"
proof (induction "length (br_pending r)" arbitrary: r acc rule: less_induct)
  case less
  show ?case
  proof (cases rule: br_fill_cases [of r])
    case (err e r')
    then show ?thesis by (simp add: br_line_loop.simps [of r])
  next
    case (ok r')
    let ?buf = "br_buf r'" and ?tail = "concat (cn_chunks (br_inner r'))"
    have pend: "br_pending r = ?buf @ ?tail" using ok(2) by (simp add: br_pending_def)
    show ?thesis
    proof (cases "str_find newline ?buf")
      case (Some i)
      have "br_line_loop r acc = (Inr (acc @ take (Suc i) ?buf), r'\<lparr>br_buf := drop (Suc i) ?buf\<rparr>)"
        using ok(1) Some by (simp add: br_line_loop.simps [of r])
      then show ?thesis
        using ok(3) line_in_buffer(1,2) [OF Some, of ?tail] line_in_buffer(3) [OF Some]
        by (simp add: pend) (simp add: br_pending_def br_broken_def)
    next
      case None
      show ?thesis
      proof (cases "?buf = []")
        case True
        then have "br_line_loop r acc = (Inr acc, r')" "br_pending r = []" "br_broken r = None"
          using ok None by (simp_all add: br_line_loop.simps [of r])
        then show ?thesis using ok(2,3) by (simp add: after_line_def)
      next
        case False
        let ?r = "r'\<lparr>br_buf := []\<rparr>"
        have nb: "newline \<notin> set ?buf" using None by (simp add: str_find_None_iff)
        have tail: "br_pending ?r = ?tail" "br_broken ?r = br_broken r"
          using ok(3) by (simp_all add: br_pending_def br_broken_def)
        have "br_line_loop r acc = br_line_loop ?r (acc @ ?buf)"
          using ok(1) None False by (simp add: br_line_loop.simps [of r])
        moreover have shorter: "length (br_pending ?r) < length (br_pending r)" using False by (simp add: tail pend)
        moreover have "newline \<in> set (br_pending r) \<longleftrightarrow> newline \<in> set ?tail" using nb by (simp add: pend)
        ultimately show ?thesis
          using less.hyps [OF shorter, of "acc @ ?buf"]
          unfolding tail pend line_past_buffer [OF nb] append_assoc by presburger
      qed
    qed
  qed
qed

interpretation br: line_reader br_read_line br_pending br_broken
proof
  fix r e
  show "\<exists>r'. br_read_line r = (Inr (next_line (br_pending r)), r') \<and> br_pending r' = after_line (br_pending r)
      \<and> br_broken r' = br_broken r"
    if "newline \<in> set (br_pending r) \<or> br_broken r = None"
    using br_line_loop_spec [of r "[]"] that by (simp add: br_read_line_def)
  show "fst (br_read_line r) = Inl e" if "newline \<notin> set (br_pending r)" "br_broken r = Some e"
    using br_line_loop_spec [of r "[]"] that by (simp add: br_read_line_def)
qed

section \<open>Reading an exact number of bytes\<close>

locale exact_reader = line_reader +
  fixes rd_exact :: "nat \<Rightarrow> 'a \<Rightarrow> (string + string) \<times> 'a"
  assumes exact_ok:
      "n \<le> length (pending r) \<Longrightarrow>
       \<exists>r'. rd_exact n r = (Inr (take n (pending r)), r') \<and> pending r' = drop n (pending r)
            \<and> broken r' = broken r"
    and exact_short: "length (pending r) < n \<Longrightarrow> \<exists>e. fst (rd_exact n r) = Inl e"
begin

lemma exact_total_iff: "(\<exists>bs. fst (rd_exact n r) = Inr bs) \<longleftrightarrow> n \<le> length (pending r)"
  using exact_ok [of n r] exact_short [of r n] by (cases "n \<le> length (pending r)") auto

end

function br_exact_loop :: "nat \<Rightarrow> bufreader \<Rightarrow> string \<Rightarrow> (string + string) \<times> bufreader" where
  "br_exact_loop n r acc =
     (if n = 0 then (Inr acc, r)
      else
        (case br_fill r of
           (Inl e, r') \<Rightarrow> (Inl e, r')
         | (Inr _, r') \<Rightarrow>
             if br_buf r' = [] then (Inl ''early eof'', r')
             else br_exact_loop (n - length (br_buf r')) (r'\<lparr>br_buf := drop n (br_buf r')\<rparr>)
                    (acc @ take n (br_buf r'))))"
  by pat_completeness auto
termination
  by (relation "measure (\<lambda>(n, r, acc). n)") auto

declare br_exact_loop.simps [simp del]

definition br_read_exact :: "nat \<Rightarrow> bufreader \<Rightarrow> (string + string) \<times> bufreader" where
  "br_read_exact n r = br_exact_loop n r []"

lemma br_exact_loop_spec:
  "(if n \<le> length (br_pending r)
    then \<exists>r'. br_exact_loop n r acc = (Inr (acc @ take n (br_pending r)), r')
         \<and> br_pending r' = drop n (br_pending r) \<and> br_broken r' = br_broken r
    else \<exists>e. fst (br_exact_loop n r acc) = Inl e)"
proof (induction n arbitrary: r acc rule: less_induct)
  case (less n)
  show ?case
  proof (cases "n = 0")
    case True
    then show ?thesis by (simp add: br_exact_loop.simps)
  next
    case n: False
    show ?thesis
    proof (cases rule: br_fill_cases [of r])
      case (err e r')
      then show ?thesis using n by (simp add: br_exact_loop.simps [of n r])
    next
      case (ok r')
      let ?buf = "br_buf r'" and ?r = "r'\<lparr>br_buf := drop n (br_buf r')\<rparr>"
      show ?thesis
      proof (cases "?buf = []")
        case True
        then show ?thesis using ok n by (simp add: br_exact_loop.simps [of n r])
      next
        case False
        have pend: "br_pending r = ?buf @ concat (cn_chunks (br_inner r'))"
          using ok(2) by (simp add: br_pending_def)
        have pend': "br_pending ?r = drop n ?buf @ concat (cn_chunks (br_inner r'))"
          by (simp add: br_pending_def)
        have br: "br_broken ?r = br_broken r" using ok(3) by (simp add: br_broken_def)
        have step: "br_exact_loop n r acc = br_exact_loop (n - length ?buf) ?r (acc @ take n ?buf)"
          using ok(1) n False by (simp add: br_exact_loop.simps [of n r])
        have "n - length ?buf < n" using n False by simp
        note IH = less.IH [OF this, of ?r "acc @ take n ?buf"]
        show ?thesis
        proof (cases "length ?buf \<le> n")
          case True
          then show ?thesis using IH unfolding step br pend' pend by (auto split: if_splits)
        next
          case shorter: False
          then show ?thesis using br by (simp add: step pend br_exact_loop.simps [of 0] pend')
        qed
      qed
    qed
  qed
qed

interpretation brx: exact_reader br_read_line br_pending br_broken br_read_exact
proof
  fix n r
  show "\<exists>r'. br_read_exact n r = (Inr (take n (br_pending r)), r') \<and> br_pending r' = drop n (br_pending r)
      \<and> br_broken r' = br_broken r" if "n \<le> length (br_pending r)"
    using br_exact_loop_spec [of n r "[]"] that by (simp add: br_read_exact_def)
  show "\<exists>e. fst (br_read_exact n r) = Inl e" if "length (br_pending r) < n"
    using br_exact_loop_spec [of n r "[]"] that by (simp add: br_read_exact_def)
qed

end
