(* ===== verification/Proxy_Server.thy ===== *)
theory Proxy_Server
  imports Line_IO Transport
begin

text \<open>
  The proxy front door (\<open>src/src/proxy/mod.rs\<close>): the parsers of the request line, and the
  handlers of CONNECT and of plain HTTP requests from the first byte read to the end of the
  relay. The buffered reader and the copy loops of tokio are the fields of \<open>proxy_io\<close>; the
  reader's laws are the locale \<open>line_reader\<close>.
\<close>

section \<open>The request line\<close>

definition parse_ipv6_authority :: "string \<Rightarrow> u16 \<Rightarrow> error + (string \<times> u16)" where
  "parse_ipv6_authority authority default_port =
     and_then (ok_or (str_find (CHR '']'') authority)
                 (Proxy (''malformed IPv6 authority: '' @ authority)))
       (\<lambda>closing_bracket.
          let host = drop 1 (take closing_bracket authority);
              remainder = drop (closing_bracket + 1) authority in
          and_then
            (case strip_prefix '':'' remainder of
               Some port_str \<Rightarrow>
                 ok_or (parse_u16 port_str)
                   (Proxy (''invalid port in IPv6 authority: '' @ port_str))
             | None \<Rightarrow> Inr default_port)
            (\<lambda>port.
               if host = [] then Inl (Proxy (''empty host in IPv6 authority: '' @ authority))
               else Inr (host, port)))"

definition parse_host_port :: "string \<Rightarrow> error + (string \<times> u16)" where
  "parse_host_port authority =
     (if starts_with authority ''['' then
        and_then (parse_ipv6_authority authority 0)
          (\<lambda>(host, port).
             if port = 0 then Inl (Proxy (''missing port in CONNECT authority: '' @ authority))
             else Inr (host, port))
      else
        case rsplit_once (CHR '':'') authority of
          Some (host, port_str) \<Rightarrow>
            and_then (ok_or (parse_u16 port_str) (Proxy (''invalid port: '' @ port_str)))
              (\<lambda>port.
                 if host = [] then Inl (Proxy (''empty host in authority: '' @ authority))
                 else Inr (host, port))
        | None \<Rightarrow> Inl (Proxy (''missing port in CONNECT authority: '' @ authority)))"

definition parse_connect :: "string \<Rightarrow> error + (string \<times> u16)" where
  "parse_connect line =
     (let parts = split_whitespace line in
      if length parts < 2 then Inl (Proxy (''malformed CONNECT line: '' @ line))
      else if \<not> eq_ignore_ascii_case (parts ! 0) ''CONNECT''
      then Inl (Proxy (''expected CONNECT method, got: '' @ parts ! 0))
      else parse_host_port (parts ! 1))"

definition parse_http_request :: "string \<Rightarrow> error + (string \<times> string \<times> u16 \<times> string)" where
  "parse_http_request line =
     (let parts = split_whitespace line in
      if length parts < 2 then Inl (Proxy (''malformed HTTP request line: '' @ line))
      else
        let method = parts ! 0; url = parts ! 1 in
        and_then
          (case strip_prefix ''https://'' url of
             Some rest \<Rightarrow> Inr (rest, 443)
           | None \<Rightarrow>
               (case strip_prefix ''http://'' url of
                  Some rest \<Rightarrow> Inr (rest, 80)
                | None \<Rightarrow>
                    Inl (Proxy (''expected absolute URL (http:// or https://), got: '' @ url))))
          (\<lambda>(without_scheme, default_port).
             let (authority, path) =
                   (case str_find (CHR ''/'') without_scheme of
                      Some idx \<Rightarrow> (take idx without_scheme, drop idx without_scheme)
                    | None \<Rightarrow> (without_scheme, ''/'')) in
             and_then
               (if starts_with authority ''['' then parse_ipv6_authority authority default_port
                else
                  case rsplit_once (CHR '':'') authority of
                    Some (h, p) \<Rightarrow>
                      and_then (ok_or (parse_u16 p) (Proxy (''invalid port in URL: '' @ p)))
                        (\<lambda>port. Inr (h, port))
                  | None \<Rightarrow> Inr (authority, default_port))
               (\<lambda>(host, port).
                  if host = [] then Inl (Proxy (''empty host in URL: '' @ url))
                  else Inr (method, host, port, path))))"

section \<open>The handlers\<close>

text \<open>
  \<open>'a\<close> is the agent's stream, \<open>'r\<close> the buffered reader around it and \<open>'s\<close> the tunnel's
  stream. \<open>alloc_ok\<close> tells whether the allocator provides a zeroed buffer of a size.
\<close>

record ('a, 'r, 's) proxy_io =
  rd_new :: "'a \<Rightarrow> 'r"
  rd_read_line :: "'r \<Rightarrow> (string + string) \<times> 'r"
  rd_read_exact :: "nat \<Rightarrow> 'r \<Rightarrow> (string + string) \<times> 'r"
  rd_write_all :: "'r \<Rightarrow> string \<Rightarrow> (string + unit) \<times> 'r"
  rd_into_inner :: "'r \<Rightarrow> 'a"
  stream_flush :: "'s \<Rightarrow> string + 's"
  copy_bidirectional :: "'a \<Rightarrow> 's \<Rightarrow> (string + (u64 \<times> u64)) \<times> 'a \<times> 's"
  copy_stream :: "'s \<Rightarrow> 'a \<Rightarrow> (string + u64) \<times> 's \<times> 'a"
  alloc_ok :: "nat \<Rightarrow> bool"

text \<open>
  A handler returns \<open>Ok\<close> with both streams dropped in their last state, or an error, or the
  process aborts (a panic aborts under the release profile, as does a failed allocation).
\<close>

datatype ('a, 'r, 's) outcome = Finished 'a 's | Failed error 'r | Aborted

partial_function (option) discard_headers ::
  "('r \<Rightarrow> (string + string) \<times> 'r) \<Rightarrow> 'r \<Rightarrow> ((string + unit) \<times> 'r) option" where
  "discard_headers rd_line reader =
     (case rd_line reader of
        (Inl e, reader') \<Rightarrow> Some (Inl e, reader')
      | (Inr header_line, reader') \<Rightarrow>
          if trim header_line = [] then Some (Inr (), reader')
          else discard_headers rd_line reader')"

definition note_content_length :: "string \<Rightarrow> usize \<Rightarrow> usize" where
  "note_content_length line content_length =
     (case (case strip_prefix ''Content-Length:'' line of
              Some val \<Rightarrow> Some val
            | None \<Rightarrow> strip_prefix ''content-length:'' line) of
        Some val \<Rightarrow> (case parse_usize (trim val) of Some len \<Rightarrow> len | None \<Rightarrow> content_length)
      | None \<Rightarrow> content_length)"

partial_function (option) read_headers ::
  "('r \<Rightarrow> (string + string) \<times> 'r) \<Rightarrow> 'r \<Rightarrow> string list \<Rightarrow> usize \<Rightarrow>
     ((string + (string list \<times> usize)) \<times> 'r) option" where
  "read_headers rd_line reader headers content_length =
     (case rd_line reader of
        (Inl e, reader') \<Rightarrow> Some (Inl e, reader')
      | (Inr line, reader') \<Rightarrow>
          if trim line = [] then Some (Inr (headers, content_length), reader')
          else read_headers rd_line reader' (headers @ [line])
                 (note_content_length line content_length))"

definition established :: string where
  "established = ''HTTP/1.1 200 Connection Established'' @ crlf @ crlf"

definition handle_connect ::
  "('a, 'r, 's) proxy_io \<Rightarrow> 's net_ops \<Rightarrow> ('p \<Rightarrow> string \<Rightarrow> u16 \<Rightarrow> (error + transport) \<times> 'p) \<Rightarrow> 'p \<Rightarrow>
     'r \<Rightarrow> string \<Rightarrow> (('a, 'r, 's) outcome \<times> 'p) option" where
  "handle_connect io net picker st reader first_line =
     (case parse_connect first_line of
        Inl e \<Rightarrow> Some (Failed e reader, st)
      | Inr (host, port) \<Rightarrow>
          (case discard_headers (rd_read_line io) reader of
             None \<Rightarrow> None
           | Some (Inl e, reader) \<Rightarrow> Some (Failed (Io e) reader, st)
           | Some (Inr _, reader) \<Rightarrow> Some
               (case picker st host port of
                  (Inl e, st) \<Rightarrow> (Failed e reader, st)
                | (Inr transport, st) \<Rightarrow>
                    (case connect net transport host port of
                       Inl e \<Rightarrow> (Failed e reader, st)
                     | Inr tunnel_stream \<Rightarrow>
                         (case rd_write_all io reader established of
                            (Inl e, reader) \<Rightarrow> (Failed (Io e) reader, st)
                          | (Inr _, reader) \<Rightarrow>
                              let agent_stream = rd_into_inner io reader;
                                  (_, agent_stream, tunnel_stream) =
                                     copy_bidirectional io agent_stream tunnel_stream
                              in (Finished agent_stream tunnel_stream, st))))))"

fun write_list :: "'s net_ops \<Rightarrow> 's \<Rightarrow> string list \<Rightarrow> string + 's" where
  "write_list net s [] = Inr s"
| "write_list net s (x # xs) = and_then (stream_write_all net s x) (\<lambda>s. write_list net s xs)"

definition isize_max :: nat where
  "isize_max = 2 ^ 63 - 1"

text \<open>The body, if there is one: a buffer of \<open>Content-Length\<close> bytes is filled and forwarded.\<close>

definition forward_body ::
  "('a, 'r, 's) proxy_io \<Rightarrow> 's net_ops \<Rightarrow> usize \<Rightarrow> 'r \<Rightarrow> 's \<Rightarrow> ((string + 's) \<times> 'r) option" where
  "forward_body io net content_length reader tunnel_stream =
     (if content_length > 0 then
        if unat content_length > isize_max \<or> \<not> alloc_ok io (unat content_length) then None
        else
          (case rd_read_exact io (unat content_length) reader of
             (Inl e, reader) \<Rightarrow> Some (Inl e, reader)
           | (Inr body_buf, reader) \<Rightarrow> Some (stream_write_all net tunnel_stream body_buf, reader))
      else Some (Inr tunnel_stream, reader))"

definition handle_plain_http ::
  "('a, 'r, 's) proxy_io \<Rightarrow> 's net_ops \<Rightarrow> ('p \<Rightarrow> string \<Rightarrow> u16 \<Rightarrow> (error + transport) \<times> 'p) \<Rightarrow> 'p \<Rightarrow>
     'r \<Rightarrow> string \<Rightarrow> (('a, 'r, 's) outcome \<times> 'p) option" where
  "handle_plain_http io net picker st reader first_line =
     (case parse_http_request first_line of
        Inl e \<Rightarrow> Some (Failed e reader, st)
      | Inr (method, host, port, path) \<Rightarrow>
          (case read_headers (rd_read_line io) reader [] 0 of
             None \<Rightarrow> None
           | Some (Inl e, reader) \<Rightarrow> Some (Failed (Io e) reader, st)
           | Some (Inr (headers, content_length), reader) \<Rightarrow> Some
               (case picker st host port of
                  (Inl e, st) \<Rightarrow> (Failed e reader, st)
                | (Inr transport, st) \<Rightarrow>
                    (case connect net transport host port of
                       Inl e \<Rightarrow> (Failed e reader, st)
                     | Inr tunnel_stream \<Rightarrow>
                         (case write_list net tunnel_stream
                                 ((method @ '' '' @ path @ '' HTTP/1.1'' @ crlf) # headers @ [crlf]) of
                            Inl e \<Rightarrow> (Failed (Io e) reader, st)
                          | Inr tunnel_stream \<Rightarrow>
                              (case forward_body io net content_length reader tunnel_stream of
                                 None \<Rightarrow> (Aborted, st)
                               | Some (Inl e, reader) \<Rightarrow> (Failed (Io e) reader, st)
                               | Some (Inr tunnel_stream, reader) \<Rightarrow>
                                   (case stream_flush io tunnel_stream of
                                      Inl e \<Rightarrow> (Failed (Io e) reader, st)
                                    | Inr tunnel_stream \<Rightarrow>
                                        let agent_stream = rd_into_inner io reader;
                                            (_, tunnel_stream, agent_stream) =
                                               copy_stream io tunnel_stream agent_stream
                                        in (Finished agent_stream tunnel_stream, st))))))))"

definition handle_connection ::
  "('a, 'r, 's) proxy_io \<Rightarrow> 's net_ops \<Rightarrow> ('p \<Rightarrow> string \<Rightarrow> u16 \<Rightarrow> (error + transport) \<times> 'p) \<Rightarrow> 'p \<Rightarrow>
     'a \<Rightarrow> (('a, 'r, 's) outcome \<times> 'p) option" where
  "handle_connection io net picker st stream =
     (case rd_read_line io (rd_new io stream) of
        (Inl e, reader) \<Rightarrow> Some (Failed (Io e) reader, st)
      | (Inr line, reader) \<Rightarrow>
          let first_line = trim_end line in
          if first_line = [] then Some (Failed (Proxy ''empty request line'') reader, st)
          else if starts_with (to_uppercase first_line) ''CONNECT ''
          then handle_connect io net picker st reader first_line
          else handle_plain_http io net picker st reader first_line)"

section \<open>Lemmas on the parsers\<close>

lemma parse_ipv6_authority_iff:
  "parse_ipv6_authority (CHR ''['' # a) d = Inr (h, p) \<longleftrightarrow>
     (\<exists>rest. a = h @ '']'' @ rest \<and> CHR '']'' \<notin> set h \<and> h \<noteq> [] \<and>
        (case strip_prefix '':'' rest of Some q \<Rightarrow> parse_u16 q = Some p | None \<Rightarrow> p = d))"
  (is "?l \<longleftrightarrow> ?r")
proof (cases "str_find (CHR '']'') a")
  case None
  then have "CHR '']'' \<notin> set a" by (simp add: str_find_None_iff)
  then show ?thesis by (auto simp: parse_ipv6_authority_def None)
next
  case (Some i)
  have a: "a = take i a @ CHR '']'' # drop (Suc i) a" and ni: "CHR '']'' \<notin> set (take i a)"
    using str_find_Some_split [OF Some] by blast+
  have uniq: "a = h @ '']'' @ rest \<and> CHR '']'' \<notin> set h \<longleftrightarrow> h = take i a \<and> rest = drop (Suc i) a" for rest
  proof
    assume "a = h @ '']'' @ rest \<and> CHR '']'' \<notin> set h"
    then have "str_find (CHR '']'') a = Some (length h)" "a = h @ CHR '']'' # rest" by simp_all
    then show "h = take i a \<and> rest = drop (Suc i) a" using Some by simp
  qed (use a ni in auto)
  have "?l \<longleftrightarrow> take i a = h \<and> h \<noteq> [] \<and>
      (case strip_prefix '':'' (drop (Suc i) a) of Some q \<Rightarrow> parse_u16 q = Some p | None \<Rightarrow> p = d)"
    by (auto simp: parse_ipv6_authority_def Some res_simps Let_def simp del: strip_prefix.simps split: option.splits)
  also have "\<dots> \<longleftrightarrow> (\<exists>rest. (h = take i a \<and> rest = drop (Suc i) a) \<and> h \<noteq> [] \<and>
      (case strip_prefix '':'' rest of Some q \<Rightarrow> parse_u16 q = Some p | None \<Rightarrow> p = d))"
    by blast
  finally show ?thesis unfolding uniq [symmetric] by (simp only: conj_assoc)
qed

lemma starts_with_bracket: "starts_with a ''['' \<longleftrightarrow> (\<exists>b. a = CHR ''['' # b)"
  by (auto simp: prefix_def)

lemma parse_errors:
  "errs_in (\<lambda>e. \<exists>m. e = Proxy m) (parse_ipv6_authority a d)"
  "errs_in (\<lambda>e. \<exists>m. e = Proxy m) (parse_host_port a)"
  "errs_in (\<lambda>e. \<exists>m. e = Proxy m) (parse_connect l)"
  "errs_in (\<lambda>e. \<exists>m. e = Proxy m) (parse_http_request l)"
proof -
  show v6: "errs_in (\<lambda>e. \<exists>m. e = Proxy m) (parse_ipv6_authority a d)" for a d
    unfolding parse_ipv6_authority_def by (intro err_intros) auto
  show hp: "errs_in (\<lambda>e. \<exists>m. e = Proxy m) (parse_host_port a)" for a
    unfolding parse_host_port_def by (intro err_intros v6) auto
  show "errs_in (\<lambda>e. \<exists>m. e = Proxy m) (parse_connect l)"
    unfolding parse_connect_def by (intro err_intros hp) auto
  show "errs_in (\<lambda>e. \<exists>m. e = Proxy m) (parse_http_request l)"
    unfolding parse_http_request_def by (intro err_intros v6) auto
qed

lemma parse_host_port_ipv6:
  "parse_host_port (CHR ''['' # a) = Inr (h, p) \<longleftrightarrow>
     (\<exists>q. a = h @ '']:'' @ q \<and> CHR '']'' \<notin> set h \<and> h \<noteq> [] \<and> parse_u16 q = Some p \<and> p \<noteq> 0)"
  (is "?l \<longleftrightarrow> ?r")
proof -
  have "?l \<longleftrightarrow> parse_ipv6_authority (CHR ''['' # a) 0 = Inr (h, p) \<and> p \<noteq> 0"
    by (auto simp: parse_host_port_def res_simps split: if_splits)
  also have "\<dots> \<longleftrightarrow> ?r"
    unfolding parse_ipv6_authority_iff
    by (auto simp: strip_prefix_iff split: option.splits)
  finally show ?thesis .
qed

lemma parse_host_port_name:
  "\<not> starts_with a ''['' \<Longrightarrow> parse_host_port a = Inr (h, p) \<longleftrightarrow>
     (\<exists>q. a = h @ '':'' @ q \<and> CHR '':'' \<notin> set q \<and> h \<noteq> [] \<and> parse_u16 q = Some p)"
proof -
  assume nb: "\<not> starts_with a ''[''"
  have "parse_host_port a = Inr (h, p) \<longleftrightarrow>
      (\<exists>q. rsplit_once (CHR '':'') a = Some (h, q) \<and> h \<noteq> [] \<and> parse_u16 q = Some p)"
    using nb by (cases "rsplit_once (CHR '':'') a") (auto simp: parse_host_port_def res_simps split: if_splits)
  then show ?thesis by (simp add: rsplit_once_Some_iff conj_ac cong: conj_cong)
qed

lemma split_whitespace_two:
  assumes "m \<noteq> []" "list_all (\<lambda>c. \<not> is_ws c) m" "u \<noteq> []" "list_all (\<lambda>c. \<not> is_ws c) u"
  shows "\<exists>ws. split_whitespace (m @ '' '' @ u @ '' HTTP/1.1'') = m # u # ws"
proof -
  have sp: "is_ws (CHR '' '')" by (simp add: is_ws_def)
  show ?thesis
    using split_whitespace_word [OF assms(1,2) sp] split_whitespace_word [OF assms(3,4) sp]
      split_whitespace_skip [OF sp] by simp
qed

section \<open>The header block\<close>

text \<open>The lines before the first blank one, and what follows it; the reference for both loops.\<close>

function split_headers :: "string \<Rightarrow> string list \<times> string" where
  "split_headers s =
     (if trim (next_line s) = [] then ([], after_line s)
      else let (hs, rest) = split_headers (after_line s) in (next_line s # hs, rest))"
  by pat_completeness auto
termination
  by (relation "measure length") (auto simp: trim_def trim_end_def trim_start_def intro!: after_line_shorter)

declare split_headers.simps [simp del]

definition declared_length :: "string list \<Rightarrow> usize" where
  "declared_length hs = fold note_content_length hs 0"

context line_reader
begin

lemma header_loops:
  obtains (blank) r' where
      "read_headers rd_line r hs n =
         Some (Inr (hs @ fst (split_headers (pending r)),
                    fold note_content_length (fst (split_headers (pending r))) n), r')"
      "discard_headers rd_line r = Some (Inr (), r')"
      "pending r' = snd (split_headers (pending r))" "broken r' = broken r"
  | (cut) e r' where "broken r = Some e" "read_headers rd_line r hs n = Some (Inl e, r')"
      "discard_headers rd_line r = Some (Inl e, r')"
proof (induction "length (pending r)" arbitrary: r hs n thesis rule: less_induct)
  case less
  let ?l = "next_line (pending r)"
  show ?case
  proof (cases rule: line_cases [of r])
    case (line r1)
    show ?thesis
    proof (cases "trim ?l = []")
      case True
      show ?thesis
        by (rule less.prems(1) [of r1])
          (use True line in \<open>simp_all add: read_headers.simps [of _ r] discard_headers.simps [of _ r]
              split_headers.simps [of "pending r"]\<close>)
    next
      case False
      then have "pending r \<noteq> []" by (auto simp: trim_def trim_end_def trim_start_def)
      then have shorter: "length (pending r1) < length (pending r)"
        using line after_line_shorter by simp
      have step: "read_headers rd_line r hs n = read_headers rd_line r1 (hs @ [?l]) (note_content_length ?l n)"
        "discard_headers rd_line r = discard_headers rd_line r1"
        using line False by (simp_all add: read_headers.simps [of _ r] discard_headers.simps [of _ r])
      have sh: "split_headers (pending r) =
          (?l # fst (split_headers (pending r1)), snd (split_headers (pending r1)))"
        using False line by (simp add: split_headers.simps [of "pending r"] case_prod_beta)
      show ?thesis
      proof (rule less.hyps [OF shorter, of "hs @ [?l]" "note_content_length ?l n"], goal_cases)
        case (1 r')
        then show ?case using less.prems(1) [of r'] line(3) by (simp add: step sh)
      next
        case (2 e r')
        then show ?case using less.prems(2) [of e r'] line(3) by (simp add: step)
      qed
    qed
  next
    case (fails e r')
    then show ?thesis
      using less.prems(2) [of e r']
      by (simp add: read_headers.simps [of _ r] discard_headers.simps [of _ r])
  qed
qed

lemma discard_headers_returns: "\<exists>x. discard_headers rd_line r = Some x"
  by (rule header_loops [of r "[]" 0]) auto

lemma read_headers_returns: "\<exists>x. read_headers rd_line r hs n = Some x"
  by (rule header_loops [of r hs n]) auto

lemma read_headers_ok:
  assumes "broken r = None"
  obtains r' where
    "read_headers rd_line r [] 0 =
       Some (Inr (fst (split_headers (pending r)), declared_length (fst (split_headers (pending r)))), r')"
    "discard_headers rd_line r = Some (Inr (), r')"
    "pending r' = snd (split_headers (pending r))" "broken r' = None"
  using assms by (auto intro: header_loops [of r "[]" 0] simp: declared_length_def)

end

section \<open>Handlers over a lawful reader\<close>

context line_reader
begin

lemma handle_connect_ok:
  assumes "rd_read_line io = rd_line" "broken r = None" "parse_connect l = Inr (host, port)"
    and "picker st host port = (Inr t, st')" "connect net t host port = Inr tunnel"
  obtains r1 where "pending r1 = snd (split_headers (pending r))" "broken r1 = None"
    "handle_connect io net picker st r l =
       Some (case rd_write_all io r1 established of
               (Inl e, r2) \<Rightarrow> (Failed (Io e) r2, st')
             | (Inr _, r2) \<Rightarrow>
                 (case copy_bidirectional io (rd_into_inner io r2) tunnel of
                    (_, agent, tunnel') \<Rightarrow> (Finished agent tunnel', st')))"
proof -
  obtain r1 where "discard_headers rd_line r = Some (Inr (), r1)"
    "pending r1 = snd (split_headers (pending r))" "broken r1 = None"
    by (rule read_headers_ok [OF assms(2)])
  then show thesis
    using assms by (intro that [of r1]) (simp_all add: handle_connect_def Let_def split: sum.split prod.split)
qed

lemma handle_connection_returns: "rd_read_line io = rd_line \<Longrightarrow> \<exists>x. handle_connection io net picker st a = Some x"
  using discard_headers_returns read_headers_returns
  by (auto simp: handle_connection_def handle_connect_def handle_plain_http_def Let_def
      split: sum.splits prod.splits option.splits) (metis option.distinct(1))+

end

lemma write_list_sent:
  assumes "\<And>s bs. \<exists>s'. stream_write_all net s bs = Inr s' \<and> sent s' = sent s @ bs"
  shows "\<exists>s'. write_list net s xs = Inr s' \<and> sent s' = sent s @ concat xs"
proof (induction xs arbitrary: s)
  case (Cons x xs)
  obtain s1 where "stream_write_all net s x = Inr s1" "sent s1 = sent s @ x" using assms by blast
  then show ?case using Cons [of s1] by simp
qed simp

text \<open>Every write to a tunnel succeeds and appends; a flush changes nothing that was sent.\<close>

definition tunnel_accepts :: "('a, 'r, 's) proxy_io \<Rightarrow> 's net_ops \<Rightarrow> ('s \<Rightarrow> string) \<Rightarrow> bool" where
  "tunnel_accepts io net sent =
     ((\<forall>s bs. \<exists>s'. stream_write_all net s bs = Inr s' \<and> sent s' = sent s @ bs)
      \<and> (\<forall>s. \<exists>s'. stream_flush io s = Inr s' \<and> sent s' = sent s))"

lemma tunnel_accepts_flush:
  "tunnel_accepts io net sent \<Longrightarrow> \<exists>s'. stream_flush io s = Inr s' \<and> sent s' = sent s"
  by (simp add: tunnel_accepts_def)

lemma tunnel_accepts_write:
  "tunnel_accepts io net sent \<Longrightarrow> \<exists>s'. stream_write_all net s bs = Inr s' \<and> sent s' = sent s @ bs"
  by (simp add: tunnel_accepts_def)

lemma forward_body_ok:
  assumes "exact_reader rd_line pending broken (rd_read_exact io)" "tunnel_accepts io net sent"
    and "unat n \<le> length (pending r)" "unat n \<le> isize_max" "n > 0 \<Longrightarrow> alloc_ok io (unat n)"
  obtains s' r' where "forward_body io net n r s = Some (Inr s', r')"
    "sent s' = sent s @ take (unat n) (pending r)" "pending r' = drop (unat n) (pending r)"
proof (cases "n > 0")
  case False
  then have "n = 0" by (simp add: word_gt_0)
  then show thesis using that [of s r] by (simp add: forward_body_def)
next
  case True
  obtain r' where r': "rd_read_exact io (unat n) r = (Inr (take (unat n) (pending r)), r')"
      "pending r' = drop (unat n) (pending r)"
    using exact_reader.exact_ok [OF assms(1,3)] by blast
  obtain s' where "stream_write_all net s (take (unat n) (pending r)) = Inr s'"
      "sent s' = sent s @ take (unat n) (pending r)"
    using tunnel_accepts_write [OF assms(2)] by blast
  then show thesis using that [of s' r'] True r' assms(4,5) by (simp add: forward_body_def)
qed

section \<open>Properties\<close>

text \<open>
  C30. What \<open>parse_connect\<close> accepts, exactly: a second word \<open>host:port\<close>, split at the last
  colon, with a host that is not empty and a port that fits 16 bits, or \<open>[host]:port\<close> with a
  port other than zero; the first word is CONNECT in any case. Everything else is an error.
\<close>

theorem parse_connect_accepts:
  "parse_connect line = Inr (host, port) \<longleftrightarrow>
     (\<exists>m a ws q. split_whitespace line = m # a # ws \<and> eq_ignore_ascii_case m ''CONNECT''
        \<and> host \<noteq> [] \<and> parse_u16 q = Some port
        \<and> (a = host @ '':'' @ q \<and> \<not> starts_with a ''['' \<and> CHR '':'' \<notin> set q
            \<or> a = ''['' @ host @ '']:'' @ q \<and> CHR '']'' \<notin> set host \<and> port \<noteq> 0))"
proof -
  have hp: "parse_host_port a = Inr (host, port) \<longleftrightarrow>
      (\<exists>q. host \<noteq> [] \<and> parse_u16 q = Some port
        \<and> (a = host @ '':'' @ q \<and> \<not> starts_with a ''['' \<and> CHR '':'' \<notin> set q
            \<or> a = ''['' @ host @ '']:'' @ q \<and> CHR '']'' \<notin> set host \<and> port \<noteq> 0))" for a
  proof (cases "starts_with a ''[''")
    case True
    then obtain b where "a = CHR ''['' # b" by (auto simp: starts_with_bracket)
    then show ?thesis using True by (auto simp: parse_host_port_ipv6)
  next
    case False
    then show ?thesis using parse_host_port_name [OF False] by (auto simp: starts_with_bracket)
  qed
  have "parse_connect line = Inr (host, port) \<longleftrightarrow>
      (\<exists>m a ws. split_whitespace line = m # a # ws \<and> eq_ignore_ascii_case m ''CONNECT''
         \<and> parse_host_port a = Inr (host, port))"
  proof (cases "split_whitespace line")
    case (Cons m rest)
    then show ?thesis by (cases rest) (auto simp: parse_connect_def Let_def)
  qed (simp add: parse_connect_def Let_def)
  then show ?thesis unfolding hp by blast
qed

definition print_url :: "bool \<Rightarrow> string \<Rightarrow> u16 option \<Rightarrow> string \<Rightarrow> string" where
  "print_url tls authority port path =
     (if tls then ''https://'' else ''http://'') @ authority
       @ (case port of None \<Rightarrow> [] | Some p \<Rightarrow> '':'' @ show_word p) @ path"

definition url_host :: "string \<Rightarrow> bool" where
  "url_host h = (h \<noteq> [] \<and> list_all (\<lambda>c. \<not> is_ws c \<and> c \<noteq> CHR ''/'' \<and> c \<noteq> CHR '']'') h)"

definition port_or_default :: "bool \<Rightarrow> u16 option \<Rightarrow> u16" where
  "port_or_default tls port = (case port of Some p \<Rightarrow> p | None \<Rightarrow> if tls then 443 else 80)"

lemma show_nat_no_ws: "list_all (\<lambda>c. \<not> is_ws c) (show_nat n)"
  using show_nat_digits [of _ n] by (force simp: list_all_iff is_ws_def digit_char_def)

lemma print_url_no_ws:
  assumes "list_all (\<lambda>c. \<not> is_ws c) a" "list_all (\<lambda>c. \<not> is_ws c) path"
  shows "list_all (\<lambda>c. \<not> is_ws c) (print_url tls a port path)"
  using assms show_nat_no_ws by (auto simp: print_url_def is_ws_def split: option.split)

lemma port_suffix_no_slash:
  "CHR ''/'' \<notin> set (case port of None \<Rightarrow> [] | Some p \<Rightarrow> '':'' @ show_word (p :: u16))"
proof -
  have "digit_val (CHR ''/'') = None" by (simp add: digit_val_def)
  then show ?thesis using show_nat_no_char by (auto split: option.split)
qed

lemma authority_of_url:
  assumes "CHR ''/'' \<notin> set a" "path = CHR ''/'' # rest"
  shows "(case str_find (CHR ''/'') (a @ path) of
            Some idx \<Rightarrow> (take idx (a @ path), drop idx (a @ path))
          | None \<Rightarrow> (a @ path, ''/'')) = (a, path)"
  using assms by simp

lemma parse_http_request_url:
  fixes tls :: bool and port :: "u16 option"
  assumes "m \<noteq> []" "list_all (\<lambda>c. \<not> is_ws c) m" "list_all (\<lambda>c. \<not> is_ws c) path"
    and "CHR ''/'' \<notin> set a" "list_all (\<lambda>c. \<not> is_ws c) a" "path = CHR ''/'' # rest"
  defines "auth \<equiv> a @ (case port of None \<Rightarrow> [] | Some p \<Rightarrow> '':'' @ show_word p)"
    and "d \<equiv> (if tls then 443 else 80)"
  shows "parse_http_request (m @ '' '' @ print_url tls a port path @ '' HTTP/1.1'') =
     and_then
       (if starts_with auth ''['' then parse_ipv6_authority auth d
        else case rsplit_once (CHR '':'') auth of
               Some (h, p) \<Rightarrow>
                 and_then (ok_or (parse_u16 p) (Proxy (''invalid port in URL: '' @ p)))
                   (\<lambda>port. Inr (h, port))
             | None \<Rightarrow> Inr (auth, d))
       (\<lambda>(host, port'). if host = [] then Inl (Proxy (''empty host in URL: '' @ print_url tls a port path))
          else Inr (m, host, port', path))"
proof -
  let ?url = "print_url tls a port path"
  have ne: "?url \<noteq> []" by (auto simp: print_url_def)
  obtain ws where words: "split_whitespace (m @ '' '' @ ?url @ '' HTTP/1.1'') = m # ?url # ws"
    using split_whitespace_two [OF assms(1,2) ne print_url_no_ws [OF assms(5,3)]] by blast
  have slash: "CHR ''/'' \<notin> set auth"
    using assms(4) port_suffix_no_slash unfolding auth_def by simp
  have url: "?url = (if tls then ''https://'' else ''http://'') @ auth @ path"
    by (simp add: print_url_def auth_def)
  have scheme: "(case strip_prefix ''https://'' ?url of
        Some rest \<Rightarrow> Inr (rest, 443)
      | None \<Rightarrow> (case strip_prefix ''http://'' ?url of
            Some rest \<Rightarrow> Inr (rest, 80)
          | None \<Rightarrow> Inl (Proxy (''expected absolute URL (http:// or https://), got: '' @ ?url))))
      = Inr (auth @ path, d)"
    unfolding url d_def by (cases tls) simp_all
  have "(m # ?url # ws) ! 0 = m" "(m # ?url # ws) ! 1 = ?url" "\<not> length (m # ?url # ws) < 2"
    by simp_all
  then show ?thesis
    unfolding parse_http_request_def words Let_def
    by (simp only: if_False scheme and_then.simps prod.case authority_of_url [OF slash assms(6)])
qed

text \<open>
  C31. An absolute-form request line is taken apart as it was put together: for a method and
  a host without white space, slash, colon or leading bracket, and a path that starts with a
  slash, printing \<open>METHOD http://host:port/path HTTP/1.1\<close> and parsing gives the four parts
  back; without a port the scheme's default is used, and an IPv6 host loses its brackets.
\<close>

theorem parse_http_request_roundtrip:
  assumes "m \<noteq> []" "list_all (\<lambda>c. \<not> is_ws c) m"
    and "url_host host" "list_all (\<lambda>c. \<not> is_ws c) path" "starts_with path ''/''"
  shows "(CHR '':'' \<notin> set host \<and> \<not> starts_with host ''['' \<longrightarrow>
            parse_http_request (m @ '' '' @ print_url tls host port path @ '' HTTP/1.1'')
              = Inr (m, host, port_or_default tls port, path))
       \<and> parse_http_request (m @ '' '' @ print_url tls (''['' @ host @ '']'') port path @ '' HTTP/1.1'')
              = Inr (m, host, port_or_default tls port, path)"
proof -
  obtain rest where path: "path = CHR ''/'' # rest" using assms(5) by (auto simp: prefix_def)
  have host: "host \<noteq> []" "CHR ''/'' \<notin> set host" "CHR '']'' \<notin> set host" "list_all (\<lambda>c. \<not> is_ws c) host"
    using assms(3) by (auto simp: url_host_def list_all_iff)
  let ?suffix = "case port of None \<Rightarrow> [] | Some p \<Rightarrow> '':'' @ show_word p"
  have colon: "CHR '':'' \<notin> set (show_word p)" for p :: u16
    by (rule show_nat_no_char) (simp add: digit_val_def)
  have name: "rsplit_once (CHR '':'') (host @ ?suffix) =
      (case port of None \<Rightarrow> None | Some p \<Rightarrow> Some (host, show_word p))"
    if "CHR '':'' \<notin> set host"
    using that colon by (cases port) (simp_all add: rsplit_once_None_iff)
  have v6: "parse_ipv6_authority (''['' @ host @ '']'' @ ?suffix) (if tls then 443 else 80) =
      Inr (host, port_or_default tls port)"
    unfolding append_Cons append_Nil parse_ipv6_authority_iff
    using host by (cases port) (auto simp: port_or_default_def)
  have nb: "\<not> starts_with (host @ ?suffix) ''[''" if "\<not> starts_with host ''[''"
    using that host(1) by (cases host) (auto simp: prefix_def)
  have first: "parse_http_request (m @ '' '' @ print_url tls host port path @ '' HTTP/1.1'')
      = Inr (m, host, port_or_default tls port, path)"
    if "CHR '':'' \<notin> set host" "\<not> starts_with host ''[''"
    unfolding parse_http_request_url [OF assms(1,2,4) host(2,4) path]
    using name [OF that(1)] nb [OF that(2)] host(1) by (cases port) (simp_all add: port_or_default_def)
  have ws: "list_all (\<lambda>c. \<not> is_ws c) (''['' @ host @ '']'')" using host(4) by (simp add: is_ws_def)
  have slash: "CHR ''/'' \<notin> set (''['' @ host @ '']'')" using host(2) by simp
  have "parse_http_request (m @ '' '' @ print_url tls (''['' @ host @ '']'') port path @ '' HTTP/1.1'')
      = Inr (m, host, port_or_default tls port, path)"
    unfolding parse_http_request_url [OF assms(1,2,4) slash ws path]
    using v6 host(1) by simp
  then show ?thesis using first by blast
qed

theorem parse_http_request_roundtrip_witness:
  "parse_http_request (''GET'' @ '' '' @ print_url False ''a.b'' None ''/x'' @ '' HTTP/1.1'')
     = Inr (''GET'', ''a.b'', 80, ''/x'')
   \<and> parse_http_request (''GET'' @ '' '' @ print_url False (''['' @ ''a.b'' @ '']'') None ''/x'' @ '' HTTP/1.1'')
     = Inr (''GET'', ''a.b'', 80, ''/x'')"
  using parse_http_request_roundtrip [of "''GET''" "''a.b''" "''/x''" False None]
  by (simp add: url_host_def is_ws_def port_or_default_def)

text \<open>
  A buffered reader over a socket, and a tunnel that is the list of the bytes it was sent:
  the operations the handlers are evaluated on.
\<close>

definition br_io :: "(conn, bufreader, string) proxy_io" where
  "br_io =
     \<lparr>rd_new = br_new, rd_read_line = br_read_line, rd_read_exact = br_read_exact,
      rd_write_all = (\<lambda>r bs. (Inr (), r\<lparr>br_inner := conn_write (br_inner r) bs\<rparr>)),
      rd_into_inner = br_into_inner, stream_flush = Inr,
      copy_bidirectional = (\<lambda>a s. (Inr (0, 0), a\<lparr>cn_chunks := []\<rparr>, s @ concat (cn_chunks a))),
      copy_stream = (\<lambda>s a. (Inr 0, s, a)), alloc_ok = (\<lambda>_. True)\<rparr>"

definition sink_net :: "string net_ops" where
  "sink_net = (list_net [])\<lparr>stream_write_all := (\<lambda>s bs. Inr (s @ bs))\<rparr>"

definition sample_pick :: "unit \<Rightarrow> string \<Rightarrow> u16 \<Rightarrow> (error + transport) \<times> unit" where
  "sample_pick st host port = (Inr (Socks5 (socks5_new ''p:1'' ''l'')), st)"

definition sample_conn :: "string list \<Rightarrow> conn" where
  "sample_conn chunks = \<lparr>cn_chunks = chunks, cn_broken = None, cn_sent = []\<rparr>"

lemma br_io_reader: "line_reader (rd_read_line br_io) br_pending br_broken"
  by (simp add: br_io_def br.line_reader_axioms)

lemma br_io_exact: "exact_reader (rd_read_line br_io) br_pending br_broken (rd_read_exact br_io)"
  by (simp add: br_io_def brx.exact_reader_axioms)

lemma sink_accepts: "tunnel_accepts br_io sink_net (\<lambda>s. s)"
  by (simp add: tunnel_accepts_def br_io_def sink_net_def)

text \<open>
  A connection is always brought to an end by the proxy's own loops: over any reader
  that delivers the peer's text line by line and ends, \<open>handle_connection\<close> returns, however
  many headers are sent and however the stream is cut.
\<close>

theorem handle_connection_terminates:
  assumes "line_reader (rd_read_line io) pend brok"
  shows "\<exists>result. handle_connection io net picker st stream = Some result"
  using line_reader.handle_connection_returns [OF assms refl] .

theorem handle_connection_terminates_witness:
  "\<exists>result. handle_connection br_io sink_net sample_pick () (sample_conn [''GET '', ''http://a/ x'', [newline], ''h'']) = Some result"
  by (rule handle_connection_terminates [OF br_io_reader])

lemma connect_tunnelled:
  assumes "line_reader (rd_read_line io) pend brok" "brok (rd_new io stream) = None"
    and "pend (rd_new io stream) = text"
    and "starts_with (to_uppercase (trim_end (next_line text))) ''CONNECT ''"
    and "parse_connect (trim_end (next_line text)) = Inr (host, port)"
    and "picker st host port = (Inr t, st')" "connect net t host port = Inr tunnel"
  shows "\<exists>reader. pend reader = snd (split_headers (after_line text)) \<and>
    handle_connection io net picker st stream =
      Some (case rd_write_all io reader established of
              (Inl e, reader') \<Rightarrow> (Failed (Io e) reader', st')
            | (Inr _, reader') \<Rightarrow>
                (case copy_bidirectional io (rd_into_inner io reader') tunnel of
                   (_, agent, tunnel') \<Rightarrow> (Finished agent tunnel', st')))"
proof -
  obtain r where r: "rd_read_line io (rd_new io stream) = (Inr (next_line text), r)"
      "pend r = after_line text" "brok r = None"
    using line_reader.next_line_ok [OF assms(1,2)] assms(3) by metis
  have ne: "trim_end (next_line text) \<noteq> []" using assms(4) by auto
  show ?thesis
    by (rule line_reader.handle_connect_ok [OF assms(1), of io r _ host port picker st t st' net tunnel])
      (use assms(4-7) r ne in \<open>auto simp: handle_connection_def Let_def\<close>)
qed

text \<open>
  C5. A CONNECT request is tunnelled: when the request line names \<open>host:port\<close>, the picker
  hands out a transport and the transport connects, the agent is answered
  \<open>200 Connection Established\<close> after the whole header block was read and discarded, and the
  two streams are joined by the copy loop. The transport is asked for exactly the host and
  port of the request line.
\<close>

theorem connect_request_tunnelled:
  assumes "line_reader (rd_read_line io) pend brok" "brok (rd_new io stream) = None"
    and "pend (rd_new io stream) = text"
    and "starts_with (to_uppercase (trim_end (next_line text))) ''CONNECT ''"
    and "parse_connect (trim_end (next_line text)) = Inr (host, port)"
    and "picker st host port = (Inr t, st')" "connect net t host port = Inr tunnel"
  shows "\<exists>reader. pend reader = snd (split_headers (after_line text)) \<and>
    handle_connection io net picker st stream =
      Some (case rd_write_all io reader established of
              (Inl e, reader') \<Rightarrow> (Failed (Io e) reader', st')
            | (Inr _, reader') \<Rightarrow>
                (case copy_bidirectional io (rd_into_inner io reader') tunnel of
                   (_, agent, tunnel') \<Rightarrow> (Finished agent tunnel', st')))"
  by (rule connect_tunnelled) (fact assms)+

definition sample_connect_text :: string where
  "sample_connect_text = ''CONNECT h:443 HTTP/1.1'' @ crlf @ ''A: b'' @ crlf @ crlf"

lemmas text_eval = next_line_def after_line_def split_headers.simps crlf_def trim_def trim_end_def
  trim_start_def is_ws_def split_whitespace.simps digit_val_def parse_u16_def Let_def

lemma sample_connect_line: "trim_end (next_line sample_connect_text) = ''CONNECT h:443 HTTP/1.1''"
  by (simp add: sample_connect_text_def text_eval)

lemma sample_connect_parse: "parse_connect ''CONNECT h:443 HTTP/1.1'' = Inr (''h'', 443)"
  by (simp add: parse_connect_def parse_host_port_def eq_ignore_ascii_case_def text_eval)

lemma sample_connect_upper: "starts_with (to_uppercase ''CONNECT h:443 HTTP/1.1'') ''CONNECT ''"
  by (simp add: ascii_upper_def)

lemma sink_socks5: "socks5_connect_to sink_net (socks5_new a l) h p = Inr []"
  by (simp add: sink_net_def list_net_def socks5_connect_to_def socks5_new_def)

lemma sink_connect: "connect sink_net (Socks5 (socks5_new a l)) h p = Inr []"
  by (simp add: sink_socks5)

theorem connect_request_tunnelled_witness:
  "\<exists>reader. br_pending reader = [] \<and>
    handle_connection br_io sink_net sample_pick () (sample_conn [sample_connect_text]) =
      Some (case rd_write_all br_io reader established of
              (Inl e, reader') \<Rightarrow> (Failed (Io e) reader', ())
            | (Inr _, reader') \<Rightarrow>
                (case copy_bidirectional br_io (rd_into_inner br_io reader') [] of
                   (_, agent, tunnel') \<Rightarrow> (Finished agent tunnel', ())))"
proof -
  have new: "br_broken (rd_new br_io (sample_conn [sample_connect_text])) = None"
    "br_pending (rd_new br_io (sample_conn [sample_connect_text])) = sample_connect_text"
    by (simp_all add: br_io_def br_new_def br_broken_def br_pending_def sample_conn_def)
  have rest: "snd (split_headers (after_line sample_connect_text)) = []"
    by (simp add: sample_connect_text_def text_eval)
  show ?thesis
    using connect_request_tunnelled [OF br_io_reader new, of "''h''" 443 sample_pick "()"
        "Socks5 (socks5_new ''p:1'' ''l'')" "()" sink_net "[]"]
    by (simp only: sample_connect_line sample_connect_upper sample_connect_parse sample_pick_def
        sink_connect rest simp_thms)
qed

text \<open>Reading from the agent does not send it anything.\<close>

definition reads_only :: "('a, 'r, 's) proxy_io \<Rightarrow> ('r \<Rightarrow> string) \<Rightarrow> bool" where
  "reads_only io written =
     ((\<forall>r. written (snd (rd_read_line io r)) = written r)
      \<and> (\<forall>n r. written (snd (rd_read_exact io n r)) = written r))"

lemma discard_headers_invariant:
  assumes "\<And>r. Q r \<Longrightarrow> Q (snd (rd r))" "Q r" "discard_headers rd r = Some (x, r')"
  shows "Q r'"
proof -
  have "(\<forall>r. Q r \<longrightarrow> Q (snd (rd r))) \<longrightarrow> Q r \<longrightarrow> Q (snd (x, r'))"
  proof (rule discard_headers.raw_induct [where P = "\<lambda>rd r y. (\<forall>r. Q r \<longrightarrow> Q (snd (rd r))) \<longrightarrow> Q r \<longrightarrow> Q (snd y)",
        OF _ assms(3)], goal_cases)
    case (1 loop rd r y)
    show ?case
    proof (intro impI)
      assume law: "\<forall>r. Q r \<longrightarrow> Q (snd (rd r))" and "Q r"
      obtain z r1 where step: "rd r = (z, r1)" by (cases "rd r")
      then have "Q r1" using law \<open>Q r\<close> by (metis snd_conv)
      then show "Q (snd y)" using 1 step law by (auto split: sum.splits if_splits)
    qed
  qed
  then show ?thesis using assms(1,2) by simp
qed

lemma discard_headers_keeps:
  assumes "\<And>r. f (snd (rd r)) = f r" "discard_headers rd r = Some (x, r')"
  shows "f r' = f r"
  using discard_headers_invariant [of "\<lambda>q. f q = f r" rd r] assms by simp

lemma read_headers_invariant:
  assumes "\<And>r. Q r \<Longrightarrow> Q (snd (rd r))" "Q r" "read_headers rd r hs n = Some (x, r')"
  shows "Q r'"
proof -
  have "(\<forall>r. Q r \<longrightarrow> Q (snd (rd r))) \<longrightarrow> Q r \<longrightarrow> Q (snd (x, r'))"
  proof (rule read_headers.raw_induct [where P = "\<lambda>rd r _ _ y. (\<forall>r. Q r \<longrightarrow> Q (snd (rd r))) \<longrightarrow> Q r \<longrightarrow> Q (snd y)",
        OF _ assms(3)], goal_cases)
    case (1 loop rd r hs n y)
    show ?case
    proof (intro impI)
      assume law: "\<forall>r. Q r \<longrightarrow> Q (snd (rd r))" and "Q r"
      obtain z r1 where step: "rd r = (z, r1)" by (cases "rd r")
      then have "Q r1" using law \<open>Q r\<close> by (metis snd_conv)
      then show "Q (snd y)" using 1 step law by (auto split: sum.splits if_splits)
    qed
  qed
  then show ?thesis using assms(1,2) by simp
qed

lemma read_headers_keeps:
  assumes "\<And>r. f (snd (rd r)) = f r" "read_headers rd r hs n = Some (x, r')"
  shows "f r' = f r"
  using read_headers_invariant [of "\<lambda>q. f q = f r" rd r hs n] assms by simp

lemma forward_body_keeps:
  assumes "reads_only io written" "forward_body io net n r s = Some (x, r')"
  shows "written r' = written r"
  using assms by (auto simp: forward_body_def reads_only_def split: if_splits prod.splits sum.splits)
    (metis snd_conv)+

lemma plain_http_keeps:
  assumes "reads_only io written" "handle_plain_http io net picker st r l = Some (Failed e r', st')"
  shows "written r' = written r"
proof -
  have rd: "\<And>r. written (snd (rd_read_line io r)) = written r" using assms(1) by (simp add: reads_only_def)
  show ?thesis
    using assms(2) read_headers_keeps [of written "rd_read_line io", OF rd] forward_body_keeps [OF assms(1)]
    by (auto simp: handle_plain_http_def Let_def split: sum.splits prod.splits option.splits)
qed

text \<open>The destination a request line asks for.\<close>

definition requested :: "string \<Rightarrow> error + string \<times> u16" where
  "requested first_line =
     (if starts_with (to_uppercase first_line) ''CONNECT '' then parse_connect first_line
      else and_then (parse_http_request first_line) (\<lambda>(method, host, port, path). Inr (host, port)))"

lemma finished_via_transport:
  assumes "handle_connection io net picker st stream = Some (Finished agent tunnel', st')"
  shows "\<exists>line host port t tunnel. fst (rd_read_line io (rd_new io stream)) = Inr line
      \<and> requested (trim_end line) = Inr (host, port)
      \<and> fst (picker st host port) = Inr t \<and> connect net t host port = Inr tunnel"
proof -
  have conn: "\<exists>host port t tunnel. parse_connect l = Inr (host, port)
      \<and> fst (picker st host port) = Inr t \<and> connect net t host port = Inr tunnel"
    if "handle_connect io net picker st r l = Some (Finished agent tunnel', st')" for r l
    using that
    by (auto simp: handle_connect_def Let_def split: sum.splits prod.splits option.splits)
  have plain: "\<exists>method host port path t tunnel. parse_http_request l = Inr (method, host, port, path)
      \<and> fst (picker st host port) = Inr t \<and> connect net t host port = Inr tunnel"
    if "handle_plain_http io net picker st r l = Some (Finished agent tunnel', st')" for r l
    using that
    by (auto simp: handle_plain_http_def Let_def split: sum.splits prod.splits option.splits)
  obtain line reader where line: "rd_read_line io (rd_new io stream) = (Inr line, reader)"
    using assms by (auto simp: handle_connection_def split: sum.splits prod.splits)
  show ?thesis
  proof (cases "starts_with (to_uppercase (trim_end line)) ''CONNECT ''")
    case True
    then show ?thesis
      using assms line conn [of reader "trim_end line"]
      by (auto simp: handle_connection_def requested_def Let_def split: if_splits)
  next
    case False
    then have "handle_plain_http io net picker st reader (trim_end line) = Some (Finished agent tunnel', st')"
      using assms line by (simp add: handle_connection_def Let_def split: if_splits)
    from plain [OF this] show ?thesis using False line by (force simp: requested_def res_simps)
  qed
qed

lemma aborted_via_transport:
  assumes "handle_connection io net picker st stream = Some (Aborted, st')"
  shows "\<exists>host port t. fst (picker st host port) = Inr t"
proof -
  have conn: False if "handle_connect io net picker st r l = Some (Aborted, st')" for r l
    using that by (auto simp: handle_connect_def Let_def split: sum.splits prod.splits option.splits)
  have plain: ?thesis if "handle_plain_http io net picker st r l = Some (Aborted, st')" for r l
    using that
    by (auto simp: handle_plain_http_def Let_def split: sum.splits prod.splits option.splits) (metis fst_conv)+
  show ?thesis
    using assms conn plain
    by (simp add: handle_connection_def Let_def split: sum.splits prod.splits if_splits) metis
qed

lemma failed_reply_via_transport:
  assumes "reads_only io written"
    and "handle_connection io net picker st stream = Some (Failed e reader, st')"
    and "written reader \<noteq> written (rd_new io stream)"
  shows "\<exists>line host port t tunnel. fst (rd_read_line io (rd_new io stream)) = Inr line
      \<and> parse_connect (trim_end line) = Inr (host, port)
      \<and> fst (picker st host port) = Inr t \<and> connect net t host port = Inr tunnel"
proof -
  have rd: "\<And>r. written (snd (rd_read_line io r)) = written r" using assms(1) by (simp add: reads_only_def)
  obtain x r where line: "rd_read_line io (rd_new io stream) = (x, r)" by (cases "rd_read_line io (rd_new io stream)")
  then have same: "written r = written (rd_new io stream)" using rd [of "rd_new io stream"] by simp
  then have "\<not> (\<exists>l. handle_plain_http io net picker st r l = Some (Failed e reader, st'))"
    using assms(3) plain_http_keeps [OF assms(1)] by metis
  then obtain l where l: "x = Inr l" and "handle_connect io net picker st r (trim_end l) = Some (Failed e reader, st')"
    using assms(2,3) line same
    by (auto simp: handle_connection_def Let_def split: sum.splits if_splits)
  then have "\<exists>host port t tunnel. parse_connect (trim_end l) = Inr (host, port)
      \<and> fst (picker st host port) = Inr t \<and> connect net t host port = Inr tunnel"
    using assms(3) same discard_headers_keeps [of written "rd_read_line io", OF rd]
    by (auto simp: handle_connect_def Let_def split: sum.splits prod.splits option.splits)
  then show ?thesis using line l by simp
qed

text \<open>
  No reply without a tunnel: if a failed connection has had anything written to the
  agent, then its request line was a CONNECT for some host and port, the picker did hand out
  a transport for them, and that transport was connected. In particular no failure to parse,
  to find a tunnel or to connect is ever answered by \<open>200 Connection Established\<close>.
\<close>

theorem no_reply_without_tunnel:
  assumes "reads_only io written"
    and "handle_connection io net picker st stream = Some (Failed e reader, st')"
    and "written reader \<noteq> written (rd_new io stream)"
  shows "\<exists>line host port t tunnel. fst (rd_read_line io (rd_new io stream)) = Inr line
      \<and> parse_connect (trim_end line) = Inr (host, port)
      \<and> fst (picker st host port) = Inr t \<and> connect net t host port = Inr tunnel"
  using failed_reply_via_transport [OF assms] .

lemma br_reads_only: "reads_only br_io (\<lambda>r. cn_sent (br_inner r))"
proof -
  have rd: "cn_sent (snd (conn_read n c)) = cn_sent c" for n c
    by (simp add: conn_read_def split: list.split option.split)
  have fill: "cn_sent (br_inner r') = cn_sent (br_inner r)" if "br_fill r = (x, r')" for r x r'
    using that rd [of 8192 "br_inner r"] by (auto simp: br_fill_def split: if_splits prod.splits sum.splits)
  have line: "cn_sent (br_inner (snd (br_line_loop r acc))) = cn_sent (br_inner r)" for r acc
  proof (induction r acc rule: br_line_loop.induct)
    case (1 r acc)
    obtain x r' where "br_fill r = (x, r')" by (cases "br_fill r")
    then show ?case
      using 1 fill [of r x r'] by (auto simp: br_line_loop.simps [of r] split: sum.split option.split)
  qed
  have ex: "cn_sent (br_inner (snd (br_exact_loop n r acc))) = cn_sent (br_inner r)" for n r acc
  proof (induction n r acc rule: br_exact_loop.induct)
    case (1 n r acc)
    obtain x r' where "br_fill r = (x, r')" by (cases "br_fill r")
    then show ?case
      using 1 fill [of r x r'] by (auto simp: br_exact_loop.simps [of n r] split: sum.split)
  qed
  show ?thesis by (simp add: reads_only_def br_io_def br_read_line_def br_read_exact_def line ex)
qed

text \<open>An agent that takes the first bytes of the reply and then resets the connection.\<close>

definition reset_io :: "(conn, bufreader, string) proxy_io" where
  "reset_io = br_io\<lparr>rd_write_all := (\<lambda>r bs. (Inl ''reset'', r\<lparr>br_inner := conn_write (br_inner r) (take 4 bs)\<rparr>))\<rparr>"

abbreviation short_conn :: conn where
  "short_conn \<equiv> sample_conn [''CONNECT h:443'']"

lemma sample_eof: "br_line_loop \<lparr>br_buf = [], br_inner = short_conn\<lparr>cn_chunks := []\<rparr>\<rparr> acc
    = (Inr acc, \<lparr>br_buf = [], br_inner = short_conn\<lparr>cn_chunks := []\<rparr>\<rparr>)"
  by (simp add: br_line_loop.simps [of _ acc] br_fill_def conn_read_def sample_conn_def)

lemma sample_first: "br_line_loop (br_new short_conn) []
    = (Inr ''CONNECT h:443'', \<lparr>br_buf = [], br_inner = short_conn\<lparr>cn_chunks := []\<rparr>\<rparr>)"
  using sample_eof [of "''CONNECT h:443''"]
  by (simp add: br_line_loop.simps [of _ "[]"] br_new_def br_fill_def conn_read_def sample_conn_def)

lemma sample_short_run:
  assumes "fst (picker st ''h'' 443) = Inr (Socks5 (socks5_new a l))"
  shows "\<exists>agent tunnel. handle_connection br_io sink_net picker st short_conn
     = Some (Finished agent tunnel, snd (picker st ''h'' 443))"
proof -
  obtain st' where "picker st ''h'' 443 = (Inr (Socks5 (socks5_new a l)), st')"
    using assms by (metis prod.collapse)
  then show ?thesis
    using sample_eof sample_first
    by (simp add: handle_connection_def handle_connect_def br_io_def br_read_line_def
        discard_headers.simps parse_connect_def parse_host_port_def eq_ignore_ascii_case_def text_eval
        ascii_upper_def sink_socks5 conn_write_def)
qed

theorem no_reply_without_tunnel_witness:
  "handle_connection reset_io sink_net sample_pick () (sample_conn [''CONNECT h:443''])
     = Some (Failed (Io ''reset'') \<lparr>br_buf = [], br_inner = (sample_conn [])\<lparr>cn_sent := ''HTTP''\<rparr>\<rparr>, ())
   \<and> (\<exists>line host port t tunnel.
        fst (rd_read_line reset_io (rd_new reset_io (sample_conn [''CONNECT h:443'']))) = Inr line
      \<and> parse_connect (trim_end line) = Inr (host, port)
      \<and> fst (sample_pick () host port) = Inr t \<and> connect sink_net t host port = Inr tunnel)"
proof -
  let ?c = "sample_conn [''CONNECT h:443'']"
  let ?c' = "?c\<lparr>cn_chunks := [], cn_sent := ''HTTP''\<rparr>"
  note eof = sample_eof and first = sample_first
  have run: "handle_connection reset_io sink_net sample_pick () ?c
      = Some (Failed (Io ''reset'') \<lparr>br_buf = [], br_inner = ?c'\<rparr>, ())"
    using first eof
    by (simp add: handle_connection_def handle_connect_def reset_io_def br_io_def br_read_line_def
        discard_headers.simps parse_connect_def parse_host_port_def eq_ignore_ascii_case_def text_eval
        ascii_upper_def sample_pick_def sink_socks5 conn_write_def established_def)
      (simp add: sample_conn_def)
  show ?thesis
  proof
    show "handle_connection reset_io sink_net sample_pick () ?c
      = Some (Failed (Io ''reset'') \<lparr>br_buf = [], br_inner = (sample_conn [])\<lparr>cn_sent := ''HTTP''\<rparr>\<rparr>, ())"
      using run by (simp add: sample_conn_def)
    have ro: "reads_only reset_io (\<lambda>r. cn_sent (br_inner r))"
      using br_reads_only by (simp add: reads_only_def reset_io_def br_io_def)
    show "\<exists>line host port t tunnel. fst (rd_read_line reset_io (rd_new reset_io ?c)) = Inr line
      \<and> parse_connect (trim_end line) = Inr (host, port)
      \<and> fst (sample_pick () host port) = Inr t \<and> connect sink_net t host port = Inr tunnel"
      by (rule no_reply_without_tunnel [OF ro run]) (simp add: reset_io_def br_new_def br_io_def sample_conn_def)
  qed
qed

lemma plain_http_ok:
  assumes rd: "exact_reader (rd_read_line io) pend brok (rd_read_exact io)"
    and "tunnel_accepts io net sent" "brok r = None"
    and "parse_http_request l = Inr (method, host, port, path)"
    and "picker st host port = (Inr t, st')" "connect net t host port = Inr tunnel"
    and "split_headers (pend r) = (hs, body)" "declared_length hs = n"
    and "unat n \<le> length body" "unat n \<le> isize_max" "n > 0 \<Longrightarrow> alloc_ok io (unat n)"
  obtains tunnel' reader where
    "sent tunnel' = sent tunnel @ method @ '' '' @ path @ '' HTTP/1.1'' @ crlf @ concat hs @ crlf @ take (unat n) body"
    "pend reader = drop (unat n) body"
    "handle_plain_http io net picker st r l =
       Some (case copy_stream io tunnel' (rd_into_inner io reader) of
               (_, tunnel'', agent) \<Rightarrow> (Finished agent tunnel'', st'))"
proof -
  note lr = exact_reader.axioms(1) [OF rd]
  let ?req = "(method @ '' '' @ path @ '' HTTP/1.1'' @ crlf) # hs @ [crlf]"
  obtain r1 where r1: "read_headers (rd_read_line io) r [] 0 = Some (Inr (hs, n), r1)" "pend r1 = body"
    using line_reader.read_headers_ok [OF lr assms(3)] assms(7,8) by (metis fst_conv snd_conv)
  obtain s1 where s1: "write_list net tunnel ?req = Inr s1" "sent s1 = sent tunnel @ concat ?req"
    using write_list_sent tunnel_accepts_write [OF assms(2)] by metis
  obtain s2 r2 where s2: "forward_body io net n r1 s1 = Some (Inr s2, r2)"
      "sent s2 = sent s1 @ take (unat n) body" "pend r2 = drop (unat n) body"
    using forward_body_ok [OF rd assms(2), of n r1 s1] assms(9-11) r1(2) by metis
  obtain s3 where s3: "stream_flush io s2 = Inr s3" "sent s3 = sent s2"
    using tunnel_accepts_flush [OF assms(2)] by blast
  show thesis
    by (rule that [of s3 r2])
      (use s1 s2 s3 r1 assms(4-6) in \<open>simp_all add: handle_plain_http_def Let_def del: write_list.simps\<close>)
qed

lemma plain_request_ok:
  assumes "exact_reader (rd_read_line io) pend brok (rd_read_exact io)" "tunnel_accepts io net sent"
    and "brok (rd_new io stream) = None" "pend (rd_new io stream) = text"
    and "\<not> starts_with (to_uppercase (trim_end (next_line text))) ''CONNECT ''"
    and "parse_http_request (trim_end (next_line text)) = Inr (method, host, port, path)"
    and "picker st host port = (Inr t, st')" "connect net t host port = Inr tunnel"
    and "split_headers (after_line text) = (hs, body)"
    and "unat (declared_length hs) \<le> length body" "unat (declared_length hs) \<le> isize_max"
    and "declared_length hs > 0 \<Longrightarrow> alloc_ok io (unat (declared_length hs))"
  obtains tunnel' reader where
    "sent tunnel' = sent tunnel @ method @ '' '' @ path @ '' HTTP/1.1'' @ crlf @ concat hs @ crlf
                     @ take (unat (declared_length hs)) body"
    "pend reader = drop (unat (declared_length hs)) body"
    "handle_connection io net picker st stream =
        Some (case copy_stream io tunnel' (rd_into_inner io reader) of
                (_, tunnel'', agent) \<Rightarrow> (Finished agent tunnel'', st'))"
proof -
  obtain r where r: "rd_read_line io (rd_new io stream) = (Inr (next_line text), r)"
      "pend r = after_line text" "brok r = None"
    using line_reader.next_line_ok [OF exact_reader.axioms(1) [OF assms(1)] assms(3)] assms(4) by metis
  have ne: "trim_end (next_line text) \<noteq> []"
    using assms(6) by (auto simp: parse_http_request_def split_whitespace.simps)
  have conn: "handle_connection io net picker st stream = handle_plain_http io net picker st r (trim_end (next_line text))"
    using r(1) ne assms(5) by (simp add: handle_connection_def Let_def)
  show thesis
    by (rule plain_http_ok [OF assms(1,2), where r = r and picker = picker and st = st and hs = hs
          and body = body and n = "declared_length hs"])
      (use assms(6-12) r that in \<open>auto simp: conn\<close>)
qed

text \<open>
  C6. A plain request is forwarded faithfully: through a tunnel that accepts what is
  written, the server receives the request line rewritten to origin form, every header line
  byte for byte in order, a blank line, and exactly as many bytes of the body as the last
  well-formed \<open>Content-Length\<close> header declared; then the response is copied to the agent.
\<close>

theorem plain_request_forwarded:
  assumes "exact_reader (rd_read_line io) pend brok (rd_read_exact io)" "tunnel_accepts io net sent"
    and "brok (rd_new io stream) = None" "pend (rd_new io stream) = text"
    and "\<not> starts_with (to_uppercase (trim_end (next_line text))) ''CONNECT ''"
    and "parse_http_request (trim_end (next_line text)) = Inr (method, host, port, path)"
    and "picker st host port = (Inr t, st')" "connect net t host port = Inr tunnel"
    and "split_headers (after_line text) = (hs, body)"
    and "unat (declared_length hs) \<le> length body" "unat (declared_length hs) \<le> isize_max"
    and "alloc_ok io (unat (declared_length hs))"
  shows "\<exists>tunnel' reader.
    sent tunnel' = sent tunnel @ method @ '' '' @ path @ '' HTTP/1.1'' @ crlf @ concat hs @ crlf
                     @ take (unat (declared_length hs)) body
    \<and> handle_connection io net picker st stream =
        Some (case copy_stream io tunnel' (rd_into_inner io reader) of
                (_, tunnel'', agent) \<Rightarrow> (Finished agent tunnel'', st'))"
  by (rule plain_request_ok [where picker = picker and st = st and st' = st', OF assms]) blast

definition sample_post_text :: string where
  "sample_post_text = ''POST http://a/x HTTP/1.1'' @ crlf @ ''Content-Length: 2'' @ crlf @ crlf @ ''hi!''"

lemma sample_post_parts:
  "trim_end (next_line sample_post_text) = ''POST http://a/x HTTP/1.1''"
  "split_headers (after_line sample_post_text) = ([''Content-Length: 2'' @ crlf], ''hi!'')"
  by (simp_all add: sample_post_text_def text_eval)

lemma sample_post_parse:
  "parse_http_request ''POST http://a/x HTTP/1.1'' = Inr (''POST'', ''a'', 80, ''/x'')"
  by (simp add: parse_http_request_def text_eval)

lemma sample_post_length: "declared_length [''Content-Length: 2'' @ crlf] = 2"
  by (simp add: declared_length_def note_content_length_def parse_usize_def text_eval)

theorem plain_request_forwarded_witness:
  "\<exists>tunnel' reader.
    tunnel' = ''POST /x HTTP/1.1'' @ crlf @ ''Content-Length: 2'' @ crlf @ crlf @ ''hi''
    \<and> handle_connection br_io sink_net sample_pick () (sample_conn [sample_post_text]) =
        Some (case copy_stream br_io tunnel' (rd_into_inner br_io reader) of
                (_, tunnel'', agent) \<Rightarrow> (Finished agent tunnel'', ()))"
proof -
  let ?c = "sample_conn [sample_post_text]"
  have new: "br_broken (rd_new br_io ?c) = None" "br_pending (rd_new br_io ?c) = sample_post_text"
    by (simp_all add: br_io_def br_new_def br_broken_def br_pending_def sample_conn_def)
  have up: "\<not> starts_with (to_uppercase ''POST http://a/x HTTP/1.1'') ''CONNECT ''"
    by (simp add: ascii_upper_def)
  have al: "alloc_ok br_io n" for n by (simp add: br_io_def)
  have pick: "sample_pick () h p = (Inr (Socks5 (socks5_new ''p:1'' ''l'')), ())" for h p
    by (simp add: sample_pick_def)
  note fwd = plain_request_forwarded [OF br_io_exact sink_accepts new, where picker = sample_pick,
      unfolded sample_post_parts, OF up sample_post_parse pick sink_connect refl, unfolded sample_post_length]
  show ?thesis using fwd al by (simp add: isize_max_def)
qed

text \<open>
  A request can bring the whole process down: a \<open>Content-Length\<close> above \<open>isize::MAX\<close>
  (or one the allocator refuses) is used as the size of a buffer before any byte of the body
  is read, so that once the request line and the headers are forwarded the handler panics.
\<close>

theorem huge_content_length_aborts:
  assumes "exact_reader (rd_read_line io) pend brok (rd_read_exact io)" "tunnel_accepts io net sent"
    and "brok (rd_new io stream) = None" "pend (rd_new io stream) = text"
    and "\<not> starts_with (to_uppercase (trim_end (next_line text))) ''CONNECT ''"
    and "parse_http_request (trim_end (next_line text)) = Inr (method, host, port, path)"
    and "picker st host port = (Inr t, st')" "connect net t host port = Inr tunnel"
    and "unat (declared_length (fst (split_headers (after_line text)))) > isize_max"
  shows "handle_connection io net picker st stream = Some (Aborted, st')"
proof -
  note lr = exact_reader.axioms(1) [OF assms(1)]
  let ?hs = "fst (split_headers (after_line text))"
  obtain r where r: "rd_read_line io (rd_new io stream) = (Inr (next_line text), r)"
      "pend r = after_line text" "brok r = None"
    using line_reader.next_line_ok [OF lr assms(3)] assms(4) by metis
  obtain r1 where r1: "read_headers (rd_read_line io) r [] 0 = Some (Inr (?hs, declared_length ?hs), r1)"
    using line_reader.read_headers_ok [OF lr r(3)] r(2) by metis
  have ne: "trim_end (next_line text) \<noteq> []"
    using assms(6) by (auto simp: parse_http_request_def split_whitespace.simps)
  obtain s1 where s1: "write_list net tunnel
      ((method @ '' '' @ path @ '' HTTP/1.1'' @ crlf) # ?hs @ [crlf]) = Inr s1"
    using write_list_sent tunnel_accepts_write [OF assms(2)] by metis
  have pos: "declared_length ?hs > 0"
    using assms(9) by (intro word_neq_0_conv [THEN iffD1]) auto
  have "forward_body io net (declared_length ?hs) r1 s1 = None"
    using pos assms(9) by (simp add: forward_body_def)
  then show ?thesis
    using r r1 s1 ne assms(5-8)
    by (simp add: handle_connection_def handle_plain_http_def Let_def del: write_list.simps)
qed

definition sample_huge_text :: string where
  "sample_huge_text = ''POST http://a/x HTTP/1.1'' @ crlf @ ''Content-Length: 9223372036854775808'' @ crlf @ crlf"

lemma sample_huge_parts:
  "trim_end (next_line sample_huge_text) = ''POST http://a/x HTTP/1.1''"
  "split_headers (after_line sample_huge_text) = ([''Content-Length: 9223372036854775808'' @ crlf], [])"
  by (simp_all add: sample_huge_text_def text_eval)

lemma sample_huge_length: "declared_length [''Content-Length: 9223372036854775808'' @ crlf] = 9223372036854775808"
  by (simp add: declared_length_def note_content_length_def parse_usize_def text_eval)

theorem huge_content_length_aborts_witness:
  "handle_connection br_io sink_net sample_pick () (sample_conn [sample_huge_text]) = Some (Aborted, ())"
proof -
  let ?c = "sample_conn [sample_huge_text]"
  have new: "br_broken (rd_new br_io ?c) = None" "br_pending (rd_new br_io ?c) = sample_huge_text"
    by (simp_all add: br_io_def br_new_def br_broken_def br_pending_def sample_conn_def)
  have up: "\<not> starts_with (to_uppercase ''POST http://a/x HTTP/1.1'') ''CONNECT ''"
    by (simp add: ascii_upper_def)
  have pick: "sample_pick () h p = (Inr (Socks5 (socks5_new ''p:1'' ''l'')), ())" for h p
    by (simp add: sample_pick_def)
  note run = huge_content_length_aborts [OF br_io_exact sink_accepts new, where picker = sample_pick,
      unfolded sample_huge_parts fst_conv, OF up sample_post_parse pick sink_connect]
  show ?thesis by (rule run) (simp only: sample_huge_length, simp add: isize_max_def)
qed

text \<open>
  A reader whose socket has nothing more to deliver keeps its socket as it is, whatever is
  read: only the buffer moves.
\<close>

lemma drained_line:
  assumes "cn_chunks (br_inner r) = []" "cn_broken (br_inner r) = None"
  shows "br_inner (snd (br_read_line r)) = br_inner r"
proof -
  have "br_inner (snd (br_line_loop r acc)) = br_inner r" for acc
    using assms
  proof (induction r acc rule: br_line_loop.induct)
    case (1 r acc)
    obtain x r' where fill: "br_fill r = (x, r')" by (cases "br_fill r")
    then have "br_inner r' = br_inner r"
      using "1.prems" by (auto simp: br_fill_def conn_read_def split: if_splits)
    then show ?case
      using 1 fill by (auto simp: br_line_loop.simps [of r] split: sum.split option.split)
  qed
  then show ?thesis by (simp add: br_read_line_def)
qed

lemma one_segment_line:
  assumes "cn_chunks a = [text]" "text \<noteq> []" "length text \<le> 8192" "cn_broken a = None"
  shows "br_inner (snd (br_read_line (br_new a))) = a\<lparr>cn_chunks := []\<rparr>"
proof -
  let ?r = "\<lparr>br_buf = text, br_inner = a\<lparr>cn_chunks := []\<rparr>\<rparr>"
  have "br_fill (br_new a) = (Inr (), ?r)" "br_fill ?r = (Inr (), ?r)"
    using assms by (simp_all add: br_fill_def br_new_def conn_read_def)
  then have "br_line_loop (br_new a) [] = br_line_loop ?r []"
    by (simp add: br_line_loop.simps [of _ "[]"])
  then show ?thesis
    using drained_line [of ?r] assms(4) by (simp add: br_read_line_def)
qed

text \<open>
  C39. Bytes an agent sends right behind its CONNECT request are lost when they arrive in
  the same segment: the reader has buffered them, and the relay is given the bare socket.
  The outcome of such a connection does not depend on the early bytes at all, whatever copy
  loop joins the streams.
\<close>

theorem connect_loses_early_data:
  assumes "cn_chunks stream = [request @ early]" "length (request @ early) \<le> 8192"
    and "cn_broken stream = None"
    and "starts_with (to_uppercase (trim_end (next_line (request @ early)))) ''CONNECT ''"
    and "snd (split_headers (after_line (request @ early))) = early"
    and "parse_connect (trim_end (next_line (request @ early))) = Inr (host, port)"
    and "picker st host port = (Inr t, st')" "connect net t host port = Inr tunnel"
  shows "handle_connection (br_io\<lparr>copy_bidirectional := copy\<rparr>) net picker st stream =
     Some (case copy (stream\<lparr>cn_chunks := [], cn_sent := cn_sent stream @ established\<rparr>) tunnel of
             (_, agent, tunnel') \<Rightarrow> (Finished agent tunnel', st'))"
proof -
  let ?io = "br_io\<lparr>copy_bidirectional := copy\<rparr>" and ?text = "request @ early"
  let ?drained = "\<lambda>r. br_inner r = stream\<lparr>cn_chunks := []\<rparr>"
  have io: "rd_read_line ?io = br_read_line" "rd_new ?io = br_new" by (simp_all add: br_io_def)
  have ne: "trim_end (next_line ?text) \<noteq> []" using assms(4) by auto
  have ne': "?text \<noteq> []" using ne by (auto simp: trim_end_def simp del: append_is_Nil_conv)
  have new: "br_broken (br_new stream) = None" "br_pending (br_new stream) = ?text"
    using assms(1,3) by (simp_all add: br_new_def br_broken_def br_pending_def)
  obtain r where r: "br_read_line (br_new stream) = (Inr (next_line ?text), r)" "br_broken r = None"
    using br.next_line_ok [OF new(1)] new(2) by metis
  have dr: "?drained r" using one_segment_line [OF assms(1) ne' assms(2,3)] r(1) by simp
  obtain r1 where r1: "discard_headers br_read_line r = Some (Inr (), r1)"
    using br.read_headers_ok [OF r(2)] by metis
  have "?drained r1"
    using discard_headers_invariant [of ?drained br_read_line r, OF _ dr r1] drained_line assms(3) by simp
  then show ?thesis
    using r(1) ne r1 assms(4,6-8)
    by (simp add: handle_connection_def handle_connect_def io Let_def)
      (simp add: br_io_def br_into_inner_def conn_write_def)
qed

theorem connect_loses_early_data_witness:
  "handle_connection (br_io\<lparr>copy_bidirectional := copy_bidirectional br_io\<rparr>) sink_net sample_pick ()
       (sample_conn [sample_connect_text @ ''hello''])
     = Some (Finished ((sample_conn [])\<lparr>cn_sent := established\<rparr>) [], ())"
proof -
  let ?t = "sample_connect_text @ ''hello''"
  have parts: "trim_end (next_line ?t) = ''CONNECT h:443 HTTP/1.1''"
    "snd (split_headers (after_line ?t)) = ''hello''" "length ?t \<le> 8192"
    by (simp_all add: sample_connect_text_def text_eval)
  have pick: "sample_pick () h p = (Inr (Socks5 (socks5_new ''p:1'' ''l'')), ())" for h p
    by (simp add: sample_pick_def)
  have conn: "cn_chunks (sample_conn [?t]) = [?t]" "cn_broken (sample_conn [?t]) = None"
    by (simp_all add: sample_conn_def)
  note run = connect_loses_early_data [OF conn(1) parts(3) conn(2), where picker = sample_pick,
      unfolded parts, OF sample_connect_upper refl sample_connect_parse pick sink_connect]
  show ?thesis
    unfolding run by (simp add: br_io_def sample_conn_def)
qed

end
