(* ===== verification/Main_Bin.thy ===== *)
theory Main_Bin
  imports Router Proxy_Server
begin

text \<open>
  The program (\<open>src/src/main.rs\<close>): the command line, the configuration the start-docker
  command works on, the transports built from the configured tunnels, and the set-up of the
  proxy: pool, router and picker. What \<open>main\<close> decides to do is the datatype \<open>action\<close>; the
  work of each action is modelled by its own theory. Files are a map from paths to contents or
  read errors; parsing of TOML and of socket addresses are parameters; clap's parsing of the
  arguments is the record \<open>cli\<close> it yields.
\<close>

section \<open>Command line\<close>

datatype import_provider =
    Nord string nat "string list option" string
  | Ssh string string "u16 list" string bool

datatype commands =
    Import import_provider
  | StartDocker string "string option" "string list option" "u16 option" string bool
  | StopDocker

record cli =
  cli_command :: "commands option"
  cli_config :: string
  cli_listen :: "string option"
  cli_tunnels :: "string list option"
  cli_strategy :: string
  cli_verbose :: bool

type_synonym files = "string \<Rightarrow> (string + string) option"

definition path_exists_in :: "files \<Rightarrow> string \<Rightarrow> bool" where
  "path_exists_in fs path = (fs path \<noteq> None)"

definition read_file :: "files \<Rightarrow> string \<Rightarrow> string + string" where
  "read_file fs path = (case fs path of Some c \<Rightarrow> c | None \<Rightarrow> Inl ''No such file or directory (os error 2)'')"

section \<open>Building transports\<close>

record features =
  ft_socks5 :: bool
  ft_wireguard :: bool
  ft_tor :: bool

definition label_of :: "tunnel_config \<Rightarrow> string" where
  "label_of tunnel = (case tc_label tunnel of Some l \<Rightarrow> l | None \<Rightarrow> ''(unlabelled)'')"

text \<open>
  The transports of one tunnel, none when it is skipped: one definition per arm of the match
  on the protocol. \<open>tor\<close> gives, for a tunnel, the outcome of creating the Tor client and the
  isolation tokens drawn for it.
\<close>

definition build_socks5 :: "features \<Rightarrow> tunnel_config \<Rightarrow> transport list" where
  [simp]: "build_socks5 ft tunnel =
     (if ft_socks5 ft then
        (case tc_address tunnel of
           Some address \<Rightarrow> [Socks5 (socks5_new address (label_of tunnel))]
         | None \<Rightarrow> [])
      else [])"

definition build_wireguard :: "features \<Rightarrow> tunnel_config \<Rightarrow> transport list" where
  [simp]: "build_wireguard ft tunnel =
     (if ft_wireguard ft then
        (case tc_interface tunnel of
           Some interface \<Rightarrow> [WireGuard (wireguard_new interface (label_of tunnel))]
         | None \<Rightarrow> [])
      else [])"

definition build_http_proxy :: "tunnel_config \<Rightarrow> transport list" where
  [simp]: "build_http_proxy tunnel =
     (let label = label_of tunnel in
      case tc_address tunnel of
        None \<Rightarrow> []
      | Some address \<Rightarrow>
          if starts_with address ''http://'' \<or> starts_with address ''https://'' then
            (case http_proxy_from_url address label of
               Inr t \<Rightarrow> [HttpProxy t]
             | Inl _ \<Rightarrow> [])
          else [HttpProxy (http_proxy_new address None label)])"

definition build_sentinel :: "tunnel_config \<Rightarrow> transport list" where
  [simp]: "build_sentinel tunnel =
     (case tc_node tunnel of
        None \<Rightarrow> []
      | Some node \<Rightarrow>
          let denom = (case tc_denom tunnel of Some d \<Rightarrow> d | None \<Rightarrow> ''udvpn'') in
          (case tc_deposit tunnel of
             None \<Rightarrow> []
           | Some deposit \<Rightarrow>
               (case tc_wallet_key tunnel of
                  None \<Rightarrow> []
                | Some wallet_key \<Rightarrow> [Sentinel (sentinel_new node denom deposit wallet_key (label_of tunnel))])))"

definition build_tor ::
  "features \<Rightarrow> (tunnel_config \<Rightarrow> (string + nat) \<times> (nat \<Rightarrow> nat)) \<Rightarrow> tunnel_config \<Rightarrow> transport list" where
  [simp]: "build_tor ft tor tunnel =
     (if ft_tor ft then
        let circuits = unat (case tc_circuits tunnel of Some c \<Rightarrow> c | None \<Rightarrow> 3) in
        (case create_tor_pool (fst (tor tunnel)) (snd (tor tunnel)) circuits (label_of tunnel) of
           Inr tor_transports \<Rightarrow> map Tor tor_transports
         | Inl _ \<Rightarrow> [])
      else [])"

definition build_transport ::
  "features \<Rightarrow> (tunnel_config \<Rightarrow> (string + nat) \<times> (nat \<Rightarrow> nat)) \<Rightarrow> tunnel_config \<Rightarrow> transport list" where
  "build_transport ft tor tunnel =
     (if tc_protocol tunnel = ''socks5'' then build_socks5 ft tunnel
      else if tc_protocol tunnel = ''wireguard'' then build_wireguard ft tunnel
      else if tc_protocol tunnel = ''http-proxy'' then build_http_proxy tunnel
      else if tc_protocol tunnel = ''sentinel'' then build_sentinel tunnel
      else if tc_protocol tunnel = ''tor'' then build_tor ft tor tunnel
      else [])"

fun build_loop ::
  "features \<Rightarrow> (tunnel_config \<Rightarrow> (string + nat) \<times> (nat \<Rightarrow> nat)) \<Rightarrow> tunnel_config list \<Rightarrow>
     transport list \<Rightarrow> transport list" where
  "build_loop ft tor [] built = built"
| "build_loop ft tor (tunnel # tunnels) built =
     build_loop ft tor tunnels (built @ build_transport ft tor tunnel)"

definition build_transports ::
  "features \<Rightarrow> (tunnel_config \<Rightarrow> (string + nat) \<times> (nat \<Rightarrow> nat)) \<Rightarrow> tunnel_config list \<Rightarrow> transport list" where
  "build_transports ft tor tunnels = build_loop ft tor tunnels []"

section \<open>Configuration of the start-docker command\<close>

definition nl1 :: string where
  "nl1 = [CHR 0x0A]"

text \<open>The countries and the token of the command line, put into the Docker configuration.\<close>

definition docker_overrides ::
  "string option \<Rightarrow> string list option \<Rightarrow> docker_config \<Rightarrow> docker_config" where
  "docker_overrides nord_token countries docker_cfg =
     (case countries of
        Some cli_countries \<Rightarrow>
          let token = (case nord_token of
                         Some t \<Rightarrow> Some t
                       | None \<Rightarrow> (case dc_vpn docker_cfg of [] \<Rightarrow> None | v # _ \<Rightarrow> vpn_token v))
          in docker_cfg\<lparr>dc_enabled := True,
               dc_vpn := map (\<lambda>c. \<lparr>vpn_provider = ''nordvpn'', vpn_token = token, vpn_country = c\<rparr>)
                           cli_countries\<rparr>
      | None \<Rightarrow>
          (case nord_token of
             Some tok \<Rightarrow>
               docker_cfg\<lparr>dc_vpn := map (\<lambda>v. v\<lparr>vpn_token := Some tok\<rparr>) (dc_vpn docker_cfg)\<rparr>
           | None \<Rightarrow> docker_cfg))"

definition effective_port :: "u16 option \<Rightarrow> string \<Rightarrow> u16" where
  "effective_port port listen =
     (case port of
        Some p \<Rightarrow> p
      | None \<Rightarrow>
          (case rsplit_once (CHR '':'') listen of
             Some (_, p) \<Rightarrow> (case parse_u16 p of Some n \<Rightarrow> n | None \<Rightarrow> 8080)
           | None \<Rightarrow> 8080))"

definition load_start_config ::
  "files \<Rightarrow> (string \<Rightarrow> string + config) \<Rightarrow> env \<Rightarrow> string \<Rightarrow> string option \<Rightarrow> string list option \<Rightarrow>
     u16 option \<Rightarrow> string + (config \<times> docker_config \<times> u16)" where
  "load_start_config fs toml e config_path nord_token countries port =
     and_then
       (if path_exists_in fs config_path then
          map_err (\<lambda>_. ''failed to load config from '' @ config_path)
            (config_from_file toml e config_path (read_file fs config_path))
        else if nord_token \<noteq> None \<and> countries \<noteq> None then
          Inr \<lparr>cfg_proxy = proxy_config_default, cfg_docker = docker_config_default, cfg_tunnel = []\<rparr>
        else
          Inl (''config file '' @ quoted config_path @ '' not found.'' @ nl1
                 @ ''Either create it (see houdinny.toml.example) or pass --nord-token + --countries flags.''))
       (\<lambda>config.
          let docker_cfg = docker_overrides nord_token countries (cfg_docker config);
              eport = effective_port port (pc_listen (cfg_proxy config));
              config =
                (if port \<noteq> None
                 then config\<lparr>cfg_proxy := (cfg_proxy config)\<lparr>pc_listen := ''127.0.0.1:'' @ show_word eport\<rparr>\<rparr>
                 else config)
          in Inr (config, docker_cfg, eport))"

section \<open>The main program\<close>

definition effective_path :: "files \<Rightarrow> string \<Rightarrow> string" where
  "effective_path fs config_path =
     (if \<not> path_exists_in fs config_path then
        (if path_exists_in fs ''tunnels.toml'' then ''tunnels.toml'' else config_path)
      else config_path)"

definition proxy_run_config ::
  "files \<Rightarrow> (string \<Rightarrow> string + config) \<Rightarrow> env \<Rightarrow> cli \<Rightarrow> string + config" where
  "proxy_run_config fs toml e c =
     and_then
       (case cli_tunnels c of
          Some urls \<Rightarrow> Inr (from_tunnel_urls urls)
        | None \<Rightarrow>
            let path = effective_path fs (cli_config c) in
            map_err (\<lambda>_. ''failed to load config from '' @ path)
              (config_from_file toml e path (read_file fs path)))
       (\<lambda>config.
          let config = (case cli_listen c of
                          Some addr \<Rightarrow> config\<lparr>cfg_proxy := (cfg_proxy config)\<lparr>pc_listen := addr\<rparr>\<rparr>
                        | None \<Rightarrow> config) in
          and_then
            (map_err (\<lambda>_. ''invalid strategy: '' @ cli_strategy c) (strategy_from_name (cli_strategy c)))
            (\<lambda>s. Inr (config\<lparr>cfg_proxy := (cfg_proxy config)\<lparr>pc_strategy := s\<rparr>\<rparr>)))"

text \<open>A handle to the \<open>i\<close>-th transport built is the reference \<open>i\<close>.\<close>

record 'addr proxy_run =
  rn_addr :: 'addr
  rn_heap :: theap
  rn_pool :: pool
  rn_router :: router

definition prepare_proxy ::
  "features \<Rightarrow> (tunnel_config \<Rightarrow> (string + nat) \<times> (nat \<Rightarrow> nat)) \<Rightarrow> (string \<Rightarrow> 'addr option) \<Rightarrow> config \<Rightarrow>
     string + 'addr proxy_run" where
  "prepare_proxy ft tor parse_addr config =
     (let transports = build_transports ft tor (cfg_tunnel config) in
      if transports = []
      then Inl (''cannot start proxy with no usable transports. '' @
                ''Add tunnels via -t/--tunnels or a config file.'')
      else
        let pool = pool_new [0..<length transports];
            router = build_router (pc_strategy (cfg_proxy config)) in
        and_then (ok_or (parse_addr (pc_listen (cfg_proxy config)))
                    (''invalid listen address: '' @ pc_listen (cfg_proxy config)))
          (\<lambda>addr. Inr \<lparr>rn_addr = addr, rn_heap = (\<lambda>r. transports ! r), rn_pool = pool, rn_router = router\<rparr>))"

datatype 'addr action =
    Import_nord string nat "string list option" string
  | Import_ssh string string "u16 list" string bool
  | Docker_start docker_config "string option" u16 string bool
  | Docker_stop
  | Serve "'addr proxy_run"

text \<open>
  \<open>main\<close> up to the action it takes: \<open>cwd\<close> is the current directory or an error, and no value
  at all is a panic of the \<open>.env\<close> loader. The text of \<open>.env\<close> is read if it can be.
\<close>

definition dotenv_text :: "files \<Rightarrow> string \<Rightarrow> string option" where
  "dotenv_text fs path = (case fs path of Some (Inr c) \<Rightarrow> Some c | _ \<Rightarrow> None)"

definition dispatch ::
  "features \<Rightarrow> (tunnel_config \<Rightarrow> (string + nat) \<times> (nat \<Rightarrow> nat)) \<Rightarrow> (string \<Rightarrow> 'addr option) \<Rightarrow>
     files \<Rightarrow> (string \<Rightarrow> string + config) \<Rightarrow> env \<Rightarrow> cli \<Rightarrow> string + 'addr action" where
  "dispatch ft tor parse_addr fs toml e c =
     (case cli_command c of
        Some (Import (Nord token n countries output)) \<Rightarrow> Inr (Import_nord token n countries output)
      | Some (Import (Ssh host user ports output start)) \<Rightarrow> Inr (Import_ssh host user ports output start)
      | Some (StartDocker config_path nord_token countries port strategy_name no_wait) \<Rightarrow>
          and_then (load_start_config fs toml e config_path nord_token countries port)
            (\<lambda>(config, docker_cfg, effective_port).
               Inr (Docker_start docker_cfg nord_token effective_port strategy_name no_wait))
      | Some StopDocker \<Rightarrow> Inr Docker_stop
      | None \<Rightarrow>
          and_then (proxy_run_config fs toml e c)
            (\<lambda>config. and_then (prepare_proxy ft tor parse_addr config) (\<lambda>run. Inr (Serve run))))"

definition main ::
  "features \<Rightarrow> (tunnel_config \<Rightarrow> (string + nat) \<times> (nat \<Rightarrow> nat)) \<Rightarrow> (string \<Rightarrow> 'addr option) \<Rightarrow>
     files \<Rightarrow> (string \<Rightarrow> string + config) \<Rightarrow> env \<Rightarrow> (string + string) \<Rightarrow> cli \<Rightarrow> (string + 'addr action) option" where
  "main ft tor parse_addr fs toml e cwd c =
     (case cwd of
        Inl _ \<Rightarrow> Some (Inl ''failed to determine current directory'')
      | Inr dir \<Rightarrow>
          map_option (\<lambda>e. dispatch ft tor parse_addr fs toml e c)
            (load_dotenv (dotenv_text fs (dir @ ''/.env'')) e))"

text \<open>The closure given to the proxy: the picker, with the handle replaced by the transport.\<close>

definition main_picker ::
  "(aref list \<Rightarrow> aref option) \<Rightarrow> bool \<Rightarrow> theap \<Rightarrow> pool \<Rightarrow> router \<Rightarrow> string \<Rightarrow> u16 \<Rightarrow> (error + transport) \<times> router" where
  "main_picker chooser contended h p r host port =
     (case picker chooser contended h p r of
        (Inr t, r) \<Rightarrow> (Inr (h t), r)
      | (Inl e, r) \<Rightarrow> (Inl e, r))"

section \<open>Lemmas\<close>

lemma build_loop_concat: "build_loop ft tor ts acc = acc @ concat (map (build_transport ft tor) ts)"
  by (induction ts arbitrary: acc) auto

lemma build_transports_concat: "build_transports ft tor ts = concat (map (build_transport ft tor) ts)"
  by (simp add: build_transports_def build_loop_concat)

lemma prepare_proxy_Inr:
  assumes "prepare_proxy ft tor parse_addr config = Inr run"
  defines "ts \<equiv> build_transports ft tor (cfg_tunnel config)"
  shows "ts \<noteq> []" "rn_heap run = (\<lambda>r. ts ! r)" "rn_pool run = pool_new [0..<length ts]"
    "rn_router run = build_router (pc_strategy (cfg_proxy config))"
  using assms by (auto simp: prepare_proxy_def Let_def res_simps split: if_splits)

lemma prepare_proxy_members:
  assumes "prepare_proxy ft tor parse_addr config = Inr run"
  shows "map (rn_heap run) (pool_all (rn_pool run)) = build_transports ft tor (cfg_tunnel config)"
  using prepare_proxy_Inr [OF assms] by (simp add: pool_all_def pool_new_def map_nth)

lemma prepare_proxy_member:
  assumes "prepare_proxy ft tor parse_addr config = Inr run" "r \<in> set (pool_all (rn_pool run))"
  shows "\<exists>tunnel \<in> set (cfg_tunnel config). rn_heap run r \<in> set (build_transport ft tor tunnel)"
proof -
  have "rn_heap run r \<in> set (build_transports ft tor (cfg_tunnel config))"
    unfolding prepare_proxy_members [OF assms(1), symmetric] using assms(2) by simp
  then show ?thesis by (auto simp: build_transports_concat)
qed

lemma prepare_proxy_iff:
  "(\<exists>run. prepare_proxy ft tor parse_addr config = Inr run) \<longleftrightarrow>
     build_transports ft tor (cfg_tunnel config) \<noteq> [] \<and> parse_addr (pc_listen (cfg_proxy config)) \<noteq> None"
  by (auto simp: prepare_proxy_def Let_def res_simps)

text \<open>Which protocols start out healthy.\<close>

definition starts_healthy :: "tunnel_config \<Rightarrow> bool" where
  "starts_healthy tunnel = (tc_protocol tunnel = ''socks5'' \<or> tc_protocol tunnel = ''http-proxy'' \<or> tc_protocol tunnel = ''tor'')"

lemma http_proxy_from_url_new: "http_proxy_from_url url label = Inr t \<Longrightarrow> \<exists>a auth. t = http_proxy_new a auth label"
  by (auto simp: http_proxy_from_url_def Let_def res_simps split: option.splits if_splits prod.splits)

lemma create_tor_pool_new:
  "create_tor_pool c fresh n label = Inr ts \<Longrightarrow> t \<in> set ts \<Longrightarrow> \<exists>client tok i. t = tor_new client tok label i"
  by (fastforce simp: create_tor_pool_def res_simps)

text \<open>What a tunnel can become: a fresh transport of its protocol, with its label.\<close>

definition built_by :: "tunnel_config \<Rightarrow> transport \<Rightarrow> bool" where
  "built_by tunnel t =
     (let label = label_of tunnel in
      (\<exists>a. tc_protocol tunnel = ''socks5'' \<and> t = Socks5 (socks5_new a label))
      \<or> (\<exists>i. tc_protocol tunnel = ''wireguard'' \<and> t = WireGuard (wireguard_new i label))
      \<or> (\<exists>a auth. tc_protocol tunnel = ''http-proxy'' \<and> t = HttpProxy (http_proxy_new a auth label))
      \<or> (\<exists>n d dep k. tc_protocol tunnel = ''sentinel'' \<and> t = Sentinel (sentinel_new n d dep k label))
      \<or> (\<exists>c tok i. tc_protocol tunnel = ''tor'' \<and> t = Tor (tor_new c tok label i)))"

lemma build_transport_built_by:
  assumes "t \<in> set (build_transport ft tor tunnel)"
  shows "built_by tunnel t"
proof -
  let ?p = "tc_protocol tunnel"
  consider (socks5) "?p = ''socks5''" | (wireguard) "?p = ''wireguard''" | (http) "?p = ''http-proxy''"
    | (sentinel) "?p = ''sentinel''" | (tor) "?p = ''tor''"
    | (other) "?p \<noteq> ''socks5''" "?p \<noteq> ''wireguard''" "?p \<noteq> ''http-proxy''" "?p \<noteq> ''sentinel''" "?p \<noteq> ''tor''"
    by blast
  then show ?thesis
  proof cases
    case socks5
    then have "build_transport ft tor tunnel = (if ft_socks5 ft then
        (case tc_address tunnel of Some address \<Rightarrow> [Socks5 (socks5_new address (label_of tunnel))] | None \<Rightarrow> []) else [])"
      by (simp add: build_transport_def Let_def)
    then show ?thesis
      using assms socks5 by (cases "ft_socks5 ft"; cases "tc_address tunnel") (auto simp: built_by_def Let_def)
  next
    case wireguard
    then have "build_transport ft tor tunnel = (if ft_wireguard ft then
        (case tc_interface tunnel of Some i \<Rightarrow> [WireGuard (wireguard_new i (label_of tunnel))] | None \<Rightarrow> []) else [])"
      by (simp add: build_transport_def Let_def)
    then show ?thesis
      using assms wireguard by (cases "ft_wireguard ft"; cases "tc_interface tunnel") (auto simp: built_by_def Let_def)
  next
    case http
    then show ?thesis
      using assms http_proxy_from_url_new
      by (auto simp: build_transport_def built_by_def Let_def split: if_splits option.splits sum.splits)
  next
    case sentinel
    then show ?thesis
      using assms by (auto simp: build_transport_def built_by_def Let_def split: option.splits)
  next
    case tor
    then show ?thesis
      using assms create_tor_pool_new [OF sym]
      by (auto simp: build_transport_def built_by_def Let_def split: if_splits sum.splits)
  next
    case other
    with assms show ?thesis by (simp add: build_transport_def Let_def)
  qed
qed

lemma build_transport_wf:
  assumes "t \<in> set (build_transport ft tor tunnel)"
  shows "wf_transport t \<and> transport_label t = label_of tunnel \<and> protocol t = tc_protocol tunnel"
  using build_transport_built_by [OF assms]
  by (auto simp: built_by_def Let_def new_defs)

lemma build_transport_healthy:
  assumes "t \<in> set (build_transport ft tor tunnel)"
  shows "healthy t = starts_healthy tunnel"
  using build_transport_built_by [OF assms]
  by (auto simp: built_by_def starts_healthy_def Let_def new_defs)

lemma filter_healthy_built:
  "filter healthy (concat (map (build_transport ft tor) ts)) = concat (map (build_transport ft tor) (filter starts_healthy ts))"
proof (induction ts)
  case (Cons t ts)
  have "filter healthy (build_transport ft tor t) = (if starts_healthy t then build_transport ft tor t else [])"
    using build_transport_healthy by (auto simp: filter_id_conv filter_empty_conv)
  then show ?case using Cons.IH by simp
qed simp

section \<open>Properties\<close>

text \<open>
  C28. The proxy starts with exactly the transports of its configuration: set-up succeeds
  exactly when the tunnels give at least one transport and the listen address is valid; the
  pool then holds the transports of the configured tunnels in order, its healthy ones are
  exactly those of the SOCKS5, HTTP proxy and Tor tunnels, in order, and the router is the one
  of the configured strategy.
\<close>

theorem prepare_proxy_pool:
  "((\<exists>run. prepare_proxy ft tor parse_addr config = Inr run) \<longleftrightarrow>
      concat (map (build_transport ft tor) (cfg_tunnel config)) \<noteq> [] \<and> parse_addr (pc_listen (cfg_proxy config)) \<noteq> None)
   \<and> (\<forall>run. prepare_proxy ft tor parse_addr config = Inr run \<longrightarrow>
        map (rn_heap run) (pool_all (rn_pool run)) = concat (map (build_transport ft tor) (cfg_tunnel config))
      \<and> map (rn_heap run) (healthy_transports (rn_heap run) (rn_pool run))
          = concat (map (build_transport ft tor) (filter starts_healthy (cfg_tunnel config)))
      \<and> rn_router run = build_router (pc_strategy (cfg_proxy config)))"
proof (intro conjI allI impI)
  show "(\<exists>run. prepare_proxy ft tor parse_addr config = Inr run) \<longleftrightarrow>
      concat (map (build_transport ft tor) (cfg_tunnel config)) \<noteq> [] \<and> parse_addr (pc_listen (cfg_proxy config)) \<noteq> None"
    unfolding prepare_proxy_iff build_transports_concat ..
  fix run
  assume run: "prepare_proxy ft tor parse_addr config = Inr run"
  show mem: "map (rn_heap run) (pool_all (rn_pool run)) = concat (map (build_transport ft tor) (cfg_tunnel config))"
    using prepare_proxy_members [OF run] by (simp add: build_transports_concat)
  have "map (rn_heap run) (healthy_transports (rn_heap run) (rn_pool run))
      = filter healthy (map (rn_heap run) (pool_all (rn_pool run)))"
    by (simp add: pool_defs filter_map comp_def)
  then show "map (rn_heap run) (healthy_transports (rn_heap run) (rn_pool run))
      = concat (map (build_transport ft tor) (filter starts_healthy (cfg_tunnel config)))"
    by (simp only: mem filter_healthy_built)
  show "rn_router run = build_router (pc_strategy (cfg_proxy config))" using prepare_proxy_Inr(4) [OF run] .
qed

definition sample_features :: features where
  "sample_features = \<lparr>ft_socks5 = True, ft_wireguard = True, ft_tor = True\<rparr>"

definition sample_tor :: "tunnel_config \<Rightarrow> (string + nat) \<times> (nat \<Rightarrow> nat)" where
  "sample_tor tunnel = (Inr 0, \<lambda>i. i)"

lemma sample_prepare:
  "prepare_proxy sample_features sample_tor Some (from_tunnel_urls [''socks5://a:1''])
     = Inr \<lparr>rn_addr = default_listen, rn_heap = (\<lambda>r. [Socks5 (socks5_new ''a:1'' ''cli-0'')] ! r),
            rn_pool = pool_new [0], rn_router = RandomRouter\<rparr>"
  by (simp add: prepare_proxy_def build_transports_concat from_tunnel_urls_def tunnel_of_url_def
      parse_tunnel_url_def build_transport_def label_of_def sample_features_def proxy_config_default_def
      strategy_default_def show_nat.simps)

theorem prepare_proxy_pool_witness:
  "map ((\<lambda>r. [Socks5 (socks5_new ''a:1'' ''cli-0'')] ! r)) (pool_all (pool_new [0]))
     = concat (map (build_transport sample_features sample_tor) (cfg_tunnel (from_tunnel_urls [''socks5://a:1''])))"
  using prepare_proxy_pool [of sample_features sample_tor Some "from_tunnel_urls [''socks5://a:1'']"]
  by (simp add: sample_prepare)

definition identity :: "transport \<Rightarrow> string \<times> string \<times> string" where
  "identity t = (transport_id t, transport_label t, protocol t)"

text \<open>The identities that the \<open>n\<close> transports of a tunnel must have.\<close>

definition tunnel_identities :: "tunnel_config \<Rightarrow> nat \<Rightarrow> (string \<times> string \<times> string) list" where
  "tunnel_identities tunnel n =
     (let label = label_of tunnel in
      if tc_protocol tunnel = ''tor'' then map (\<lambda>i. (''tor-'' @ label @ ''-'' @ show_nat i, label, ''tor'')) [0..<n]
      else replicate n (tc_protocol tunnel @ ''-'' @ label, label, tc_protocol tunnel))"

lemma build_transport_identities:
  "map identity (build_transport ft tor tunnel) = tunnel_identities tunnel (length (build_transport ft tor tunnel))"
proof (cases "tc_protocol tunnel = ''tor''")
  case True
  then show ?thesis
    by (cases "fst (tor tunnel)")
      (auto simp: build_transport_def tunnel_identities_def identity_def create_tor_pool_def tor_new_def Let_def)
next
  case False
  have "map identity (build_transport ft tor tunnel)
      = map (\<lambda>_. (tc_protocol tunnel @ ''-'' @ label_of tunnel, label_of tunnel, tc_protocol tunnel)) (build_transport ft tor tunnel)"
    using build_transport_built_by False
    by (intro map_cong refl) (fastforce simp: built_by_def identity_def Let_def new_defs)
  then show ?thesis using False by (simp add: tunnel_identities_def map_replicate_const Let_def)
qed

lemma build_transport_one: "tc_protocol tunnel \<noteq> ''tor'' \<Longrightarrow> length (build_transport ft tor tunnel) \<le> 1"
  by (auto simp: build_transport_def Let_def split: option.split sum.split)

text \<open>
  C29. Transports keep their identity: whatever other tasks do with the pool (adding, removing,
  closing through any handle, in any order), the \<open>r\<close>-th transport of the program still has the
  identifier, the label and the protocol it was built with. These are, in the order of the
  configuration: for a Tor tunnel its circuits, numbered from zero in the identifier; for any
  other at most one transport, identified by protocol and label. And a Sentinel transport
  still has no session and is not healthy.
\<close>

theorem transports_well_formed:
  assumes "prepare_proxy ft tor parse_addr config = Inr prx"
    and "pool_steps (rn_heap prx, rn_pool prx) (h, p)"
  shows "map (\<lambda>r. identity (h r)) (pool_all (rn_pool prx))
      = concat (map (\<lambda>tunnel. tunnel_identities tunnel (length (build_transport ft tor tunnel))) (cfg_tunnel config))
    \<and> (\<forall>tunnel \<in> set (cfg_tunnel config). tc_protocol tunnel \<noteq> ''tor'' \<longrightarrow> length (build_transport ft tor tunnel) \<le> 1)
    \<and> (\<forall>r \<in> set (pool_all (rn_pool prx)). identity (h r) = identity (rn_heap prx r) \<and> wf_transport (h r))"
proof (intro conjI ballI impI)
  have same: "identity (h r) = identity (rn_heap prx r)" for r
    using pool_steps_identity [OF assms(2), of r] by (simp add: same_identity_def identity_def)
  then show "identity (h r) = identity (rn_heap prx r)" for r .
  show "wf_transport (h r)" if "r \<in> set (pool_all (rn_pool prx))" for r
    using prepare_proxy_member [OF assms(1) that] build_transport_wf pool_steps_identity [OF assms(2), of r] by fastforce
  have "map (\<lambda>r. identity (h r)) (pool_all (rn_pool prx)) = map identity (map (rn_heap prx) (pool_all (rn_pool prx)))"
    by (simp add: same)
  then show "map (\<lambda>r. identity (h r)) (pool_all (rn_pool prx))
      = concat (map (\<lambda>tunnel. tunnel_identities tunnel (length (build_transport ft tor tunnel))) (cfg_tunnel config))"
    by (simp add: prepare_proxy_members [OF assms(1)] build_transports_concat map_concat comp_def build_transport_identities)
qed (rule build_transport_one)

text \<open>A SOCKS5 tunnel and a Tor tunnel with two circuits, one of which is then closed.\<close>

definition tor_config :: config where
  "tor_config = (from_tunnel_urls [''socks5://a:1''])\<lparr>cfg_tunnel :=
     [tunnel_of_url 0 ''socks5://a:1'', (tunnel_of_url 1 ''tor://'')\<lparr>tc_circuits := Some 2\<rparr>]\<rparr>"

theorem transports_well_formed_witness:
  "\<exists>prx. prepare_proxy sample_features sample_tor Some tor_config = Inr prx
     \<and> map (\<lambda>r. identity (((rn_heap prx)(2 := Tor ((tor_new 0 1 ''cli-1'' 1)\<lparr>tor_healthy := False\<rparr>))) r)) (pool_all (rn_pool prx))
       = [(''socks5-cli-0'', ''cli-0'', ''socks5''), (''tor-cli-1-0'', ''cli-1'', ''tor''), (''tor-cli-1-1'', ''cli-1'', ''tor'')]"
proof -
  let ?t = "Tor ((tor_new 0 1 ''cli-1'' 1)\<lparr>tor_healthy := False\<rparr>)"
  have built: "build_transport sample_features sample_tor (tunnel_of_url 0 ''socks5://a:1'') = [Socks5 (socks5_new ''a:1'' ''cli-0'')]"
    "build_transport sample_features sample_tor ((tunnel_of_url 1 ''tor://'')\<lparr>tc_circuits := Some 2\<rparr>)
       = [Tor (tor_new 0 0 ''cli-1'' 0), Tor (tor_new 0 1 ''cli-1'' 1)]"
    by (simp_all add: tunnel_of_url_def parse_tunnel_url_def build_transport_def label_of_def sample_features_def sample_tor_def
        create_tor_pool_def show_nat.simps Let_def upt_rec)
  obtain prx where prx: "prepare_proxy sample_features sample_tor Some tor_config = Inr prx"
    using built by (simp add: prepare_proxy_def build_transports_concat tor_config_def Let_def)
  have "rn_heap prx 2 = Tor (tor_new 0 1 ''cli-1'' 1)"
    using prepare_proxy_Inr(2) [OF prx] built by (simp add: build_transports_concat tor_config_def numeral_2_eq_2)
  then have "pool_steps (rn_heap prx, rn_pool prx) ((rn_heap prx)(2 := ?t), rn_pool prx)"
    by (intro r_into_rtranclp step_close) (simp add: tor_new_def)
  from transports_well_formed [OF prx this] show ?thesis using prx built
    by (intro exI [of _ prx])
      (simp add: tor_config_def tunnel_identities_def tunnel_of_url_def parse_tunnel_url_def label_of_def show_nat.simps Let_def upt_rec)
qed

text \<open>
  C33. WireGuard and Sentinel tunnels alone never carry traffic: they start unhealthy and the
  program never provisions a transport, so a proxy whose tunnels are all of these kinds is
  set up and then refuses every request.
\<close>

theorem unprovisioned_never_route:
  assumes "prepare_proxy ft tor parse_addr config = Inr run"
    and "list_all (\<lambda>t. tc_protocol t = ''wireguard'' \<or> tc_protocol t = ''sentinel'') (cfg_tunnel config)"
    and "choose_ok chooser"
  shows "fst (main_picker chooser contended (rn_heap run) (rn_pool run) (rn_router run) host port) = Inl NoHealthyTunnels"
proof -
  have "\<not> starts_healthy t" if "t \<in> set (cfg_tunnel config)" for t
    using that assms(2) by (auto simp: starts_healthy_def list_all_iff)
  then have "\<not> healthy (rn_heap run r)" if "r \<in> set (pool_all (rn_pool run))" for r
    using that prepare_proxy_members [OF assms(1)] build_transport_healthy
    by (fastforce simp: build_transports_concat dest: arg_cong [where f = set])
  then have "filter (\<lambda>r. healthy (rn_heap run r)) (healthy_transports_sync (rn_heap run) (rn_pool run) contended) = []"
    by (auto simp: pool_defs filter_empty_conv split: if_splits)
  then have "fst (picker chooser contended (rn_heap run) (rn_pool run) (rn_router run)) = Inl NoHealthyTunnels"
    unfolding picker_def
    using router_iface.pick_none [OF pick_router_iface [OF assms(3)]] by (simp add: filter_empty_conv)
  then show ?thesis by (auto simp: main_picker_def split: prod.splits)
qed

theorem unprovisioned_never_route_witness:
  "\<exists>run. prepare_proxy sample_features sample_tor Some
       ((from_tunnel_urls [''x''])\<lparr>cfg_tunnel := [(tunnel_of_url 0 ''wireguard://'')\<lparr>tc_interface := Some ''wg0''\<rparr>]\<rparr>) = Inr run
     \<and> fst (main_picker (\<lambda>xs. case xs of [] \<Rightarrow> None | x # _ \<Rightarrow> Some x) False (rn_heap run) (rn_pool run) (rn_router run) ''h'' 80)
       = Inl NoHealthyTunnels"
proof -
  let ?tunnel = "(tunnel_of_url 0 ''wireguard://'')\<lparr>tc_interface := Some ''wg0''\<rparr>"
  let ?cfg = "(from_tunnel_urls [''x''])\<lparr>cfg_tunnel := [?tunnel]\<rparr>"
  have proto: "tc_protocol ?tunnel = ''wireguard''" by (simp add: tunnel_of_url_def parse_tunnel_url_def)
  then have "build_transport sample_features sample_tor ?tunnel \<noteq> []"
    by (simp add: build_transport_def sample_features_def Let_def)
  then obtain run where run: "prepare_proxy sample_features sample_tor Some ?cfg = Inr run"
    by (simp add: prepare_proxy_def build_transports_concat Let_def)
  have ok: "choose_ok (\<lambda>xs. case xs of [] \<Rightarrow> None | x # _ \<Rightarrow> Some x)"
    by (auto simp: choose_ok_def split: list.split)
  have "list_all (\<lambda>t. tc_protocol t = ''wireguard'' \<or> tc_protocol t = ''sentinel'') (cfg_tunnel ?cfg)"
    using proto by simp
  from unprovisioned_never_route [OF run this ok] run show ?thesis by blast
qed

text \<open>
  The command line decides the strategy: whatever strategy the configuration file
  names, the router of a proxy that is set up is the one of the \<open>--strategy\<close> option, whose
  default is random; the listen address is the file's unless \<open>--listen\<close> is given.
\<close>

theorem cli_strategy_wins:
  assumes "proxy_run_config fs toml e c = Inr config" "prepare_proxy ft tor parse_addr config = Inr run"
  shows "\<exists>s. strategy_from_name (cli_strategy c) = Inr s \<and> rn_router run = build_router s
    \<and> (\<forall>addr. cli_listen c = Some addr \<longrightarrow> parse_addr addr = Some (rn_addr run))"
proof -
  obtain s where s: "strategy_from_name (cli_strategy c) = Inr s" "pc_strategy (cfg_proxy config) = s"
    using assms(1) by (auto simp: proxy_run_config_def Let_def res_simps)
  have listen: "pc_listen (cfg_proxy config) = addr" if "cli_listen c = Some addr" for addr
    using assms(1) that by (auto simp: proxy_run_config_def Let_def res_simps)
  have "parse_addr (pc_listen (cfg_proxy config)) = Some (rn_addr run)"
    using assms(2) by (auto simp: prepare_proxy_def Let_def res_simps split: if_splits)
  then show ?thesis using s listen prepare_proxy_Inr(4) [OF assms(2)] by auto
qed

theorem cli_strategy_wins_witness:
  "\<exists>s. strategy_from_name ''RR'' = Inr s \<and> build_router RoundRobin = build_router s"
proof -
  let ?c = "\<lparr>cli_command = None, cli_config = ''houdinny.toml'', cli_listen = None,
      cli_tunnels = Some [''socks5://a:1''], cli_strategy = ''RR'', cli_verbose = False\<rparr>"
  let ?cfg = "(from_tunnel_urls [''socks5://a:1''])\<lparr>cfg_proxy := proxy_config_default\<lparr>pc_strategy := RoundRobin\<rparr>\<rparr>"
  have rr: "strategy_from_name ''RR'' = Inr RoundRobin" by code_simp
  have run: "proxy_run_config (\<lambda>_. None) (\<lambda>_. Inl []) Map.empty ?c = Inr ?cfg"
    by (simp add: proxy_run_config_def rr from_tunnel_urls_def Let_def)
  obtain r where r: "prepare_proxy sample_features sample_tor Some ?cfg = Inr r"
    by (simp add: prepare_proxy_def build_transports_concat from_tunnel_urls_def tunnel_of_url_def
      parse_tunnel_url_def build_transport_def label_of_def sample_features_def Let_def)
  have "rn_router r = build_router RoundRobin" using prepare_proxy_Inr(4) [OF r] by simp
  then show ?thesis using cli_strategy_wins [OF run r] by auto
qed

lemma docker_overrides_countries:
  "countries = Some cs \<Longrightarrow> dc_enabled (docker_overrides tok countries d)
     \<and> map vpn_country (dc_vpn (docker_overrides tok countries d)) = cs
     \<and> (\<forall>v \<in> set (dc_vpn (docker_overrides tok countries d)). vpn_provider v = ''nordvpn'')"
  "map vpn_country (dc_vpn (docker_overrides tok None d)) = map vpn_country (dc_vpn d)"
  "docker_overrides None None d = d"
  by (auto simp: docker_overrides_def Let_def comp_def split: option.split)

lemma docker_overrides_token:
  "v \<in> set (dc_vpn (docker_overrides (Some t) countries d)) \<Longrightarrow> vpn_token v = Some t"
  by (auto simp: docker_overrides_def Let_def split: option.splits)

lemma effective_port_listen:
  "CHR '':'' \<notin> set digits \<Longrightarrow> parse_u16 digits = Some q \<Longrightarrow> effective_port None (host @ '':'' @ digits) = q"
proof -
  assume "CHR '':'' \<notin> set digits" "parse_u16 digits = Some q"
  moreover from this(1) have "rsplit_once (CHR '':'') (host @ '':'' @ digits) = Some (host, digits)"
    by (simp add: rsplit_once_Some_iff)
  ultimately show ?thesis by (simp add: effective_port_def)
qed

lemma load_start_config_Inr:
  assumes "load_start_config fs toml e path tok countries port = Inr (config, docker, eport)"
  shows "docker = docker_overrides tok countries (cfg_docker config)"
    and "\<exists>listen. eport = effective_port port listen \<and> pc_listen (cfg_proxy config) =
        (if port = None then listen else ''127.0.0.1:'' @ show_word eport)"
  using assms by (auto simp: load_start_config_def Let_def res_simps)

text \<open>
  The flags of start-docker: \<open>--countries\<close> replaces the configured VPNs by one NordVPN entry
  per country in order and enables the stack, \<open>--nord-token\<close> reaches every entry, without
  either the configuration is used as it is; \<open>--port\<close> is the port used and also the one
  listened on, and without it the port is the one of the configured listen address.
\<close>

theorem start_config_overrides:
  assumes "load_start_config fs toml e path tok countries port = Inr (config, docker, eport)"
  shows "(\<forall>cs. countries = Some cs \<longrightarrow> dc_enabled docker \<and> map vpn_country (dc_vpn docker) = cs
            \<and> (\<forall>v \<in> set (dc_vpn docker). vpn_provider v = ''nordvpn''))
    \<and> (\<forall>t. tok = Some t \<longrightarrow> (\<forall>v \<in> set (dc_vpn docker). vpn_token v = Some t))
    \<and> (countries = None \<longrightarrow> map vpn_country (dc_vpn docker) = map vpn_country (dc_vpn (cfg_docker config)))
    \<and> (countries = None \<and> tok = None \<longrightarrow> docker = cfg_docker config)
    \<and> (\<forall>q. port = Some q \<longrightarrow> eport = q \<and> pc_listen (cfg_proxy config) = ''127.0.0.1:'' @ show_word q)
    \<and> (\<forall>host digits q. port = None \<and> pc_listen (cfg_proxy config) = host @ '':'' @ digits \<and> CHR '':'' \<notin> set digits
          \<and> parse_u16 digits = Some q \<longrightarrow> eport = q)"
proof -
  note docker = load_start_config_Inr(1) [OF assms]
  obtain listen where port: "eport = effective_port port listen"
    "pc_listen (cfg_proxy config) = (if port = None then listen else ''127.0.0.1:'' @ show_word eport)"
    using load_start_config_Inr(2) [OF assms] by blast
  have "eport = q" "pc_listen (cfg_proxy config) = ''127.0.0.1:'' @ show_word q" if "port = Some q" for q
    using that port by (simp_all add: effective_port_def)
  moreover have "eport = q" if "port = None" "pc_listen (cfg_proxy config) = host @ '':'' @ digits"
    "CHR '':'' \<notin> set digits" "parse_u16 digits = Some q" for host digits q
    using that port effective_port_listen [OF that(3,4), of host] by simp
  moreover have "vpn_token v = Some t" if "tok = Some t" "v \<in> set (dc_vpn docker)" for t v
    using that docker docker_overrides_token by blast
  ultimately show ?thesis
    using docker_overrides_countries(1) [of countries _ tok "cfg_docker config"]
      docker_overrides_countries(2) [of tok "cfg_docker config"] docker_overrides_countries(3) [of "cfg_docker config"]
    unfolding docker by auto
qed

theorem start_config_overrides_witness:
  "\<exists>config docker. load_start_config (\<lambda>_. None) (\<lambda>_. Inl []) Map.empty ''houdinny.toml'' (Some ''tok'')
       (Some [''us'', ''de'']) (Some 9090) = Inr (config, docker, 9090)
     \<and> map vpn_country (dc_vpn docker) = [''us'', ''de''] \<and> (\<forall>v \<in> set (dc_vpn docker). vpn_token v = Some ''tok'')"
proof -
  obtain config docker where run: "load_start_config (\<lambda>_. None) (\<lambda>_. Inl []) Map.empty ''houdinny.toml'' (Some ''tok'')
       (Some [''us'', ''de'']) (Some 9090) = Inr (config, docker, 9090)"
    by (simp add: load_start_config_def path_exists_in_def effective_port_def Let_def)
  then show ?thesis using start_config_overrides [OF run] by auto
qed

end
