(* ===== verification/Generated_Files.thy ===== *)
theory Generated_Files
  imports Config_File Docker Import_Cfg Main_Bin
begin

text \<open>
  The files the program writes and later reads: the configuration that \<open>start-docker\<close>
  generates for the proxy in its container (\<open>src/src/docker.rs\<close>), the stanzas the importers
  write (\<open>src/src/import/\<close>), and the \<open>.env\<close> file. Each is shown to be a document of the
  fragment of \<open>Config_File\<close>, so that what \<open>main\<close> makes of it is known.
\<close>

section \<open>Plain texts\<close>

definition plain_text :: "string \<Rightarrow> bool" where
  "plain_text s = list_all (\<lambda>c. plain_char c \<and> c \<noteq> CHR 0x22 \<and> c \<noteq> CHR 0x5C \<and> c \<noteq> CHR ''$'') s"

lemma plain_textD: "plain_text s \<Longrightarrow> plain_string s" "plain_text s \<Longrightarrow> CHR ''$'' \<notin> set s"
  by (auto simp: plain_text_def plain_string_def list_all_iff)

lemma plain_text_append [simp]: "plain_text (a @ b) \<longleftrightarrow> plain_text a \<and> plain_text b"
  by (simp add: plain_text_def)

lemma plain_text_Cons: "plain_text (c # s) \<longleftrightarrow> plain_text [c] \<and> plain_text s"
  by (simp add: plain_text_def)

lemma plain_text_Nil [simp]: "plain_text []"
  by (simp add: plain_text_def)

lemma plain_text_subset: "plain_text s \<Longrightarrow> set t \<subseteq> set s \<Longrightarrow> plain_text t"
  by (auto simp: plain_text_def list_all_iff)

lemma plain_text_show [simp]: "plain_text (show_nat n)"
proof -
  have "plain_text [c]" if "c \<in> set (show_nat n)" for c
  proof -
    have "digit_val c \<noteq> None" using that show_nat_no_char [of c n] by auto
    then show ?thesis by (auto simp: plain_text_def plain_char_def digit_val_def Let_def split: if_splits)
  qed
  then show ?thesis by (auto simp: plain_text_def list_all_iff)
qed

lemma plain_code: "plain_text [c] \<longleftrightarrow> (of_char c :: nat) \<ge> 32 \<and> of_char c \<notin> {34, 36, 92, 127 :: nat}"
proof -
  have "c = CHR 0x22 \<longleftrightarrow> of_char c = (34 :: nat)" "c = CHR 0x5C \<longleftrightarrow> of_char c = (92 :: nat)"
    "c = CHR ''$'' \<longleftrightarrow> of_char c = (36 :: nat)"
    using of_char_eq_iff [of c "CHR 0x22", where 'a = nat] of_char_eq_iff [of c "CHR 0x5C", where 'a = nat]
      of_char_eq_iff [of c "CHR ''$''", where 'a = nat] by simp_all
  then show ?thesis by (auto simp: plain_text_def plain_char_def Let_def)
qed

lemma plain_upper: "plain_text [c] \<Longrightarrow> plain_text [ascii_upper c]"
  by (auto simp: plain_code ascii_upper_def Let_def)

lemma plain_lower: "plain_text [c] \<Longrightarrow> plain_text [ascii_lower c]"
  by (auto simp: plain_code ascii_lower_def Let_def)

lemma plain_to_lowercase: "plain_text s \<Longrightarrow> plain_text (to_lowercase s)"
  by (induction s) (simp, metis plain_lower plain_text_Cons list.simps(9))

lemma plain_capitalise: "plain_text s \<Longrightarrow> plain_text (capitalise s)"
  by (cases s) (simp, metis plain_upper plain_to_lowercase plain_text_Cons capitalise.simps(2))

lemma split_char_subset: "p \<in> set (split_char c s) \<Longrightarrow> set p \<subseteq> set s"
proof (induction s arbitrary: p)
  case (Cons a s)
  obtain w ws where ws: "split_char c s = w # ws" by (meson neq_Nil_conv split_char_nonempty)
  then have "set q \<subseteq> set s" if "q \<in> set (w # ws)" for q using Cons.IH that by simp
  then show ?case using Cons.prems ws by (cases "a = c") fastforce+
qed simp

lemma plain_join: "plain_text sep \<Longrightarrow> list_all plain_text xs \<Longrightarrow> plain_text (str_join sep xs)"
  by (induction sep xs rule: str_join.induct) auto

lemma trim_subset: "set (trim s) \<subseteq> set s"
  using trim_chars by blast

lemma plain_resolve_country:
  assumes "plain_text s"
  shows "plain_text (resolve_country s)"
proof -
  have trimmed: "plain_text (trim s)" by (rule plain_text_subset [OF assms trim_subset])
  have "plain_text p" if "p \<in> set (split_char (CHR ''_'') (trim s))" for p
    by (rule plain_text_subset [OF trimmed split_char_subset [OF that]])
  then have "plain_text (str_join ''_'' (map capitalise (split_char (CHR ''_'') (trim s))))"
    by (intro plain_join) (auto simp: list_all_iff plain_capitalise plain_code)
  moreover have "list_all (plain_text \<circ> snd) country_map"
    by code_simp
  then have "plain_text full" if "map_of country_map lower = Some full" for lower full
    using map_of_SomeD [OF that] by (auto simp: list_all_iff)
  ultimately show ?thesis using trimmed by (auto simp: resolve_country_def Let_def split: option.split)
qed

section \<open>Documents made of tunnel stanzas\<close>

definition stanza_lines :: "(string \<times> string) list \<Rightarrow> toml_line list" where
  "stanza_lines kvs = Blank # Header (Tables ''tunnel'') # map (\<lambda>(k, v). Entry k (TStr v)) kvs"

definition wf_stanza :: "(string \<times> string) list \<Rightarrow> bool" where
  "wf_stanza kvs = (distinct (map fst kvs) \<and> list_all (\<lambda>(k, v). k \<noteq> [] \<and> list_all bare_char k \<and> plain_string v) kvs)"

abbreviation str_entries :: "(string \<times> string) list \<Rightarrow> (string \<times> toml_value) list" where
  "str_entries kvs \<equiv> map (\<lambda>(k, v). (k, TStr v)) kvs"

lemma entries_append: "entries b = [] \<Longrightarrow> entries (a @ b) = entries a"
  by (induction a rule: entries.induct) auto

lemma sections_append: "entries b = [] \<Longrightarrow> sections (a @ b) = sections a @ sections b"
  by (induction a rule: sections.induct) (auto simp: entries_append)

lemma stanza_entries: "entries (map (\<lambda>(k, v). Entry k (TStr v)) kvs @ b) = str_entries kvs @ entries b"
  "sections (map (\<lambda>(k, v). Entry k (TStr v)) kvs @ b) = sections b"
  by (induction kvs) auto

lemma stanzas_entries [simp]: "entries (concat (map stanza_lines kvss)) = []"
  by (cases kvss) (simp_all add: stanza_lines_def)

lemma stanzas_sections [simp]:
  "sections (concat (map stanza_lines kvss)) = map (\<lambda>kvs. (Tables ''tunnel'', str_entries kvs)) kvss"
proof (induction kvss)
  case (Cons kvs kvss)
  have "sections (stanza_lines kvs @ b) = (Tables ''tunnel'', str_entries kvs @ entries b) # sections b" for b
    by (simp add: stanza_lines_def stanza_entries)
  then show ?case using Cons by simp
qed simp

lemma those_append: "those xs = Some as \<Longrightarrow> those ys = Some bs \<Longrightarrow> those (xs @ ys) = Some (as @ bs)"
  by (induction xs arbitrary: as) (auto split: option.splits)

lemma wf_stanza_lines: "wf_stanza kvs \<Longrightarrow> list_all wf_line (stanza_lines kvs)"
  by (induction kvs) (auto simp: wf_stanza_def stanza_lines_def)

text \<open>Stanzas added to a document add their tunnels to its configuration.\<close>

lemma append_sections:
  assumes "entries gap = []" "sections gap = []"
  shows "sections (ls @ gap @ concat (map stanza_lines kvss)) =
    sections ls @ map (\<lambda>kvs. (Tables ''tunnel'', str_entries kvs)) kvss"
  using assms by (simp add: sections_append entries_append)

lemma append_wf:
  assumes "wf_doc ls" "entries gap = []" "sections gap = []" "list_all wf_line gap" "list_all wf_stanza kvss"
  shows "wf_doc (ls @ gap @ concat (map stanza_lines kvss))"
proof -
  let ?b = "concat (map stanza_lines kvss)"
  have "list_all wf_line ?b"
    using assms(5) wf_stanza_lines by (auto simp: list_all_iff)
  moreover have "entries (ls @ gap @ ?b) = []" using assms(1,2) by (simp add: entries_append wf_doc_def)
  moreover have "list_all (\<lambda>(h, kvs). distinct (map fst kvs) \<and> (h = Table ''docker'' \<longrightarrow> ''vpn'' \<notin> fst ` set kvs))
      (map (\<lambda>kvs. (Tables ''tunnel'', str_entries kvs)) kvss)"
    using assms(5) by (auto simp: list_all_iff wf_stanza_def case_prod_unfold comp_def)
  ultimately show ?thesis
    using assms(1,4) unfolding wf_doc_def append_sections [OF assms(2,3)] by (simp add: comp_def)
qed

lemma append_decode:
  assumes "decode_config (sections ls) = Some old" "entries gap = []" "sections gap = []"
    and "those (map (decode_tunnel \<circ> str_entries) kvss) = Some ts"
  shows "decode_config (sections (ls @ gap @ concat (map stanza_lines kvss))) =
      Some (old\<lparr>cfg_tunnel := cfg_tunnel old @ ts\<rparr>)"
proof -
  let ?secs = "map (\<lambda>kvs. (Tables ''tunnel'', str_entries kvs)) kvss"
  have t: "tables_of (Tables ''tunnel'') ?secs = map str_entries kvss"
    by (simp add: tables_of_def comp_def filter_map)
  have o: "tables_of h ?secs = []" if "h \<noteq> Tables ''tunnel''" for h
    using that by (simp add: tables_of_def filter_map comp_def)
  have a: "tables_of h (xs @ ys) = tables_of h xs @ tables_of h ys" for h xs ys
    by (simp add: tables_of_def)
  have old: "those (map decode_tunnel (tables_of (Tables ''tunnel'') (sections ls))) = Some (cfg_tunnel old)"
    using assms(1) by (auto simp: decode_config_def split: bind_splits)
  show ?thesis
    using assms(1) those_append [OF old assms(4)] unfolding append_sections [OF assms(2,3)]
    by (auto simp: decode_config_def a t o comp_def split: bind_splits)
qed

section \<open>Loading a document\<close>

lemma render_append [simp]: "render (a @ b) = render a @ render b"
  by (simp add: render_def)

lemma render_concat: "render (concat lss) = concat (map render lss)"
  by (induction lss) (simp_all add: render_def)

lemma render_simps [simp]: "render [] = []" "render (l # ls) = render_line l @ CHR 0x0A # render ls"
  by (simp_all add: render_def)

lemma resolve_env_vars_no_ref: "CHR ''$'' \<notin> set s \<Longrightarrow> resolve_env_vars e s = s"
  using resolve_env_vars_plain [of s e "[]"] by simp

lemma config_loads:
  assumes "toml_reads toml" "wf_doc ls" "CHR ''$'' \<notin> set (render ls)" "decode_config (sections ls) = Some cfg"
  shows "config_from_file toml e path (Inr (render ls)) = Inr cfg"
  using assms(1,2,4) by (auto simp: toml_reads_def config_from_file_def config_from_str_def resolve_env_vars_no_ref [OF assms(3)])

lemma config_rejected:
  assumes "toml_reads toml" "wf_doc ls" "CHR ''$'' \<notin> set (render ls)" "decode_config (sections ls) = None"
  shows "\<exists>err. config_from_file toml e path (Inr (render ls)) = Inl err"
proof -
  obtain m where "toml (render ls) = Inl m"
    using assms(2,4) spec [OF assms(1) [unfolded toml_reads_def], of ls] by auto
  then show ?thesis by (simp add: config_from_file_def config_from_str_def resolve_env_vars_no_ref [OF assms(3)])
qed

text \<open>The entries of a stanza that is well formed and free of references.\<close>

definition clean_stanza :: "(string \<times> string) list \<Rightarrow> bool" where
  "clean_stanza kvs =
     (distinct (map fst kvs) \<and> list_all (\<lambda>(k, v). k \<noteq> [] \<and> list_all bare_char k \<and> plain_text v) kvs)"

lemma clean_stanza_wf: "clean_stanza kvs \<Longrightarrow> wf_stanza kvs"
  by (auto simp: clean_stanza_def wf_stanza_def list_all_iff plain_textD)

lemma bare_no_ref: "list_all bare_char k \<Longrightarrow> CHR ''$'' \<notin> set k"
  by (auto simp: list_all_iff bare_char_def)

lemma clean_stanza_no_ref:
  assumes "clean_stanza kvs"
  shows "CHR ''$'' \<notin> set (render (stanza_lines kvs))"
proof -
  have "list_all (\<lambda>(k, v). k \<noteq> [] \<and> list_all bare_char k \<and> plain_text v) kvs" using assms by (simp add: clean_stanza_def)
  then have "CHR ''$'' \<notin> set (render (map (\<lambda>(k, v). Entry k (TStr v)) kvs))"
    by (induction kvs) (auto dest: plain_textD(2) bare_no_ref)
  then show ?thesis by (simp add: stanza_lines_def)
qed

lemma clean_stanzas_no_ref: "list_all clean_stanza kvss \<Longrightarrow> CHR ''$'' \<notin> set (render (concat (map stanza_lines kvss)))"
  by (induction kvss) (simp_all add: clean_stanza_no_ref)

definition plain_tunnel :: "string \<Rightarrow> tunnel_config" where
  "plain_tunnel proto =
     \<lparr>tc_protocol = proto, tc_label = None, tc_address = None, tc_endpoint = None, tc_private_key = None,
      tc_public_key = None, tc_dns = None, tc_interface = None, tc_circuits = None, tc_rotate_interval = None,
      tc_node = None, tc_denom = None, tc_deposit = None, tc_wallet_key = None\<rparr>"

definition socks5_tunnel :: "string \<Rightarrow> string \<Rightarrow> tunnel_config" where
  "socks5_tunnel address label = (plain_tunnel ''socks5'')\<lparr>tc_address := Some address, tc_label := Some label\<rparr>"

definition socks5_stanza :: "string \<Rightarrow> string \<Rightarrow> (string \<times> string) list" where
  "socks5_stanza address label = [(''protocol'', ''socks5''), (''address'', address), (''label'', label)]"

lemma socks5_stanza_decode: "decode_tunnel (str_entries (socks5_stanza address label)) = Some (socks5_tunnel address label)"
  by (simp add: decode_tunnel_def socks5_stanza_def socks5_tunnel_def plain_tunnel_def req_str_def opt_str_def opt_u32_def)

lemma socks5_stanza_clean: "plain_text address \<Longrightarrow> plain_text label \<Longrightarrow> clean_stanza (socks5_stanza address label)"
  by (simp add: clean_stanza_def socks5_stanza_def bare_char_def plain_code plain_text_Cons [of _ "_ # _"] plain_text_Cons [of _ "[]"])

lemma socks5_tunnel_build:
  "ft_socks5 ft \<Longrightarrow> build_transport ft tor (socks5_tunnel address label) = [Socks5 (socks5_new address label)]"
  by (simp add: build_transport_def socks5_tunnel_def plain_tunnel_def label_of_def)

lemma those_map: "(\<And>x. x \<in> set xs \<Longrightarrow> f x = Some (g x)) \<Longrightarrow> those (map f xs) = Some (map g xs)"
  by (induction xs) auto

lemma clean_stanzas_wf: "list_all clean_stanza kvss \<Longrightarrow> list_all wf_stanza kvss"
  by (auto simp: list_all_iff clean_stanza_wf)

section \<open>The proxy in the container\<close>

definition proxy_lines :: "string \<Rightarrow> string \<Rightarrow> toml_line list" where
  "proxy_lines listen strat =
     [Header (Table ''proxy''), Entry ''listen'' (TStr listen), Entry ''mode'' (TStr ''transparent''),
      Entry ''strategy'' (TStr strat)]"

definition docker_lines :: "string \<Rightarrow> u16 \<Rightarrow> toml_line list" where
  "docker_lines strat port =
     [Comment ('' Auto-generated by `houdinny start` '' @ em_dash @ '' do not edit manually.''), Blank]
     @ proxy_lines (''0.0.0.0:'' @ show_word port) strat"

definition docker_stanza :: "nat \<Rightarrow> string \<Rightarrow> (string \<times> string) list" where
  "docker_stanza n country =
     socks5_stanza (vpn_ip n @ '':1080'') (''vpn-'' @ show_nat n @ ''-'' @ resolve_country country)"

lemma tunnel_stanzas_render:
  "tunnel_stanzas i countries =
     render (concat (map stanza_lines (map (\<lambda>(j, c). docker_stanza (j + 1) c) (enumerate i countries))))"
  by (induction countries arbitrary: i)
    (simp_all add: tunnel_stanza_def key_value_def stanza_lines_def docker_stanza_def socks5_stanza_def)

lemma docker_render:
  "generate_tunnels_config countries strat port =
     render (docker_lines strat port
       @ concat (map stanza_lines (map (\<lambda>(j, c). docker_stanza (j + 1) c) (enumerate 0 countries))))"
  by (simp add: generate_tunnels_config_def tunnel_stanzas_render docker_lines_def proxy_lines_def key_value_def del: map_map)

lemma proxy_lines_sections:
  "sections (proxy_lines listen strat) =
     [(Table ''proxy'', [(''listen'', TStr listen), (''mode'', TStr ''transparent''), (''strategy'', TStr strat)])]"
  by (simp add: proxy_lines_def)

lemma proxy_lines_wf:
  assumes "plain_string listen" "plain_string strat" "list_all wf_line pre" "entries pre = []" "sections pre = []"
  shows "wf_doc (pre @ proxy_lines listen strat)"
proof -
  have "entries (proxy_lines listen strat) = []" by (simp add: proxy_lines_def)
  then have "sections (pre @ proxy_lines listen strat) = sections (proxy_lines listen strat)"
    "entries (pre @ proxy_lines listen strat) = []"
    using assms(4,5) by (simp_all add: sections_append entries_append)
  moreover have "plain_string ''transparent''" by code_simp
  ultimately show ?thesis
    using assms unfolding wf_doc_def proxy_lines_sections
    by (simp add: proxy_lines_def bare_char_def)
qed

lemma proxy_lines_decode:
  "decode_config [(Table ''proxy'', [(''listen'', TStr listen), (''mode'', TStr ''transparent''), (''strategy'', TStr strat)])]
     = map_option (\<lambda>s. \<lparr>cfg_proxy = \<lparr>pc_listen = listen, pc_mode = Transparent, pc_strategy = s\<rparr>,
         cfg_docker = docker_config_default, cfg_tunnel = []\<rparr>) (decode_strategy strat)"
  by (cases "decode_strategy strat")
    (simp_all add: decode_config_def decode_proxy_def tables_of_def opt_str_def decode_mode_def decode_enabled_def
      docker_config_default_def)

lemma docker_lines_sections:
  "sections (docker_lines strat port) = [(Table ''proxy'', [(''listen'', TStr (''0.0.0.0:'' @ show_word port)),
     (''mode'', TStr ''transparent''), (''strategy'', TStr strat)])]"
  by (simp add: docker_lines_def proxy_lines_def)

lemma docker_lines_wf:
  assumes "plain_text strat"
  shows "wf_doc (docker_lines strat port)" "CHR ''$'' \<notin> set (render (docker_lines strat port))"
proof -
  have digits: "CHR ''$'' \<notin> set (show_word port)" by (simp add: plain_textD)
  have "plain_text ''0.0.0.0:''" by code_simp
  then have listen: "plain_string (''0.0.0.0:'' @ show_word port)"
    by (intro plain_textD) (simp only: plain_text_append plain_text_show)
  have comment: "list_all plain_char ('' Auto-generated by `houdinny start` '' @ em_dash @ '' do not edit manually.'')"
    by code_simp
  show "wf_doc (docker_lines strat port)"
    unfolding docker_lines_def
    by (rule proxy_lines_wf) (use assms comment listen in \<open>simp_all add: plain_textD\<close>)
  show "CHR ''$'' \<notin> set (render (docker_lines strat port))"
    using plain_textD(2) [OF assms] digits by (simp add: docker_lines_def proxy_lines_def em_dash_def)
qed

lemma docker_stanza_clean:
  assumes "plain_text country"
  shows "clean_stanza (docker_stanza n country)"
proof -
  have "plain_text ''172.20.0.''" "plain_text '':1080''" "plain_text ''vpn-''" "plain_text ''-''" by code_simp+
  then show ?thesis
    unfolding docker_stanza_def vpn_ip_def
    by (intro socks5_stanza_clean) (simp_all only: plain_text_append plain_text_show plain_resolve_country [OF assms])
qed

definition docker_tunnel :: "nat \<Rightarrow> string \<Rightarrow> tunnel_config" where
  "docker_tunnel n country =
     socks5_tunnel (vpn_ip n @ '':1080'') (''vpn-'' @ show_nat n @ ''-'' @ resolve_country country)"

text \<open>What is read back from the generated file, if the strategy is one of the two names.\<close>

lemma docker_file_config:
  assumes "toml_reads toml" "list_all plain_text countries" "plain_text strat"
  shows "decode_strategy strat = Some s \<Longrightarrow>
      config_from_file toml e path (Inr (generate_tunnels_config countries strat port)) = Inr
        \<lparr>cfg_proxy = \<lparr>pc_listen = ''0.0.0.0:'' @ show_word port, pc_mode = Transparent, pc_strategy = s\<rparr>,
         cfg_docker = docker_config_default,
         cfg_tunnel = map (\<lambda>(j, c). docker_tunnel (j + 1) c) (enumerate 0 countries)\<rparr>"
    and "decode_strategy strat = None \<Longrightarrow>
      \<exists>err. config_from_file toml e path (Inr (generate_tunnels_config countries strat port)) = Inl err"
proof -
  let ?kvss = "map (\<lambda>(j, c). docker_stanza (j + 1) c) (enumerate 0 countries)"
  let ?ls = "docker_lines strat port @ [] @ concat (map stanza_lines ?kvss)"
  have clean: "list_all clean_stanza ?kvss"
    using assms(2) docker_stanza_clean by (auto simp: list_all_iff in_set_enumerate_eq)
  have ref: "CHR ''$'' \<notin> set (render ?ls)"
    using docker_lines_wf(2) [OF assms(3)] clean_stanzas_no_ref [OF clean] by (simp only: render_append set_append) simp
  have wf: "wf_doc ?ls"
    by (rule append_wf) (simp_all only: docker_lines_wf(1) [OF assms(3)] clean_stanzas_wf [OF clean] entries.simps sections.simps list.pred_inject)
  have rendered: "generate_tunnels_config countries strat port = render ?ls"
    by (simp only: docker_render append_Nil)
  have ts: "those (map (decode_tunnel \<circ> str_entries) ?kvss) = Some (map (\<lambda>(j, c). docker_tunnel (j + 1) c) (enumerate 0 countries))"
    unfolding map_map by (rule those_map) (auto simp: docker_stanza_def docker_tunnel_def socks5_stanza_decode)
  {
    assume "decode_strategy strat = Some s"
    then have "decode_config (sections (docker_lines strat port)) = Some
        \<lparr>cfg_proxy = \<lparr>pc_listen = ''0.0.0.0:'' @ show_word port, pc_mode = Transparent, pc_strategy = s\<rparr>,
         cfg_docker = docker_config_default, cfg_tunnel = []\<rparr>"
      unfolding docker_lines_sections proxy_lines_decode by simp
    from append_decode [OF this _ _ ts, of "[]"]
    show "config_from_file toml e path (Inr (generate_tunnels_config countries strat port)) = Inr
        \<lparr>cfg_proxy = \<lparr>pc_listen = ''0.0.0.0:'' @ show_word port, pc_mode = Transparent, pc_strategy = s\<rparr>,
         cfg_docker = docker_config_default,
         cfg_tunnel = map (\<lambda>(j, c). docker_tunnel (j + 1) c) (enumerate 0 countries)\<rparr>"
      unfolding rendered by (intro config_loads [OF assms(1) wf ref]) simp
  next
    assume "decode_strategy strat = None"
    then have "decode_config (sections ?ls) = None"
      unfolding append_sections [of "[]", OF entries.simps(1) sections.simps(1)] docker_lines_sections
      by (simp add: decode_config_def decode_proxy_def tables_of_def opt_str_def decode_mode_def)
    from config_rejected [OF assms(1) wf ref this]
    show "\<exists>err. config_from_file toml e path (Inr (generate_tunnels_config countries strat port)) = Inl err"
      unfolding rendered .
  }
qed

lemma strategy_names: "plain_text (strategy_display s)" "decode_strategy (strategy_display s) = Some s"
proof -
  have "plain_text ''random''" "plain_text ''round-robin''" by code_simp+
  then show "plain_text (strategy_display s)" by (cases s) simp_all
  show "decode_strategy (strategy_display s) = Some s" by (cases s) (simp_all add: decode_strategy_def)
qed

text \<open>
  The command line of the container: the \<open>command\<close> of the service, with the defaults of the
  other options.
\<close>

definition container_cli :: cli where
  "container_cli =
     \<lparr>cli_command = None, cli_config = ''/etc/houdinny/tunnels.toml'', cli_listen = None, cli_tunnels = None,
      cli_strategy = ''random'', cli_verbose = False\<rparr>"

lemma container_dispatch:
  assumes "fs ''/etc/houdinny/tunnels.toml'' = Some contents"
  shows "dispatch ft tor parse_addr fs toml e container_cli =
    and_then (map_err (\<lambda>_. ''failed to load config from /etc/houdinny/tunnels.toml'')
        (config_from_file toml e ''/etc/houdinny/tunnels.toml'' contents))
      (\<lambda>config. and_then (prepare_proxy ft tor parse_addr (config\<lparr>cfg_proxy := (cfg_proxy config)\<lparr>pc_strategy := Random\<rparr>\<rparr>))
         (\<lambda>run. Inr (Serve run)))"
proof -
  have rnd: "strategy_from_name ''random'' = Inr Random" by code_simp
  show ?thesis
    using assms
    by (cases "config_from_file toml e ''/etc/houdinny/tunnels.toml'' contents")
      (simp_all add: dispatch_def proxy_run_config_def container_cli_def effective_path_def path_exists_in_def read_file_def rnd Let_def)
qed

lemma prepare_proxy_built:
  assumes "build_transports ft tor (cfg_tunnel config) = ts" "ts \<noteq> []"
    and "parse_addr (pc_listen (cfg_proxy config)) = Some addr"
  shows "prepare_proxy ft tor parse_addr config = Inr \<lparr>rn_addr = addr, rn_heap = (\<lambda>r. ts ! r),
     rn_pool = pool_new [0..<length ts], rn_router = build_router (pc_strategy (cfg_proxy config))\<rparr>"
  using assms by (simp add: prepare_proxy_def Let_def)

lemma container_proxy_set_up:
  assumes "toml_reads toml" "list_all plain_text countries" "countries \<noteq> []" "strategy_display s = strat"
    and "fs ''/etc/houdinny/tunnels.toml'' = Some (Inr (generate_tunnels_config countries strat port))"
    and "ft_socks5 ft" "parse_addr (''0.0.0.0:'' @ show_word port) = Some addr"
  shows "\<exists>prx. dispatch ft tor parse_addr fs toml e container_cli = Inr (Serve prx)
    \<and> rn_addr prx = addr \<and> rn_router prx = RandomRouter \<and> pool_all (rn_pool prx) = [0..<length countries]
    \<and> (\<forall>i < length countries. \<exists>ip.
         service_ip (compose countries port) (''vpn-'' @ show_nat (i + 1)) = Some ip
         \<and> rn_heap prx i = Socks5 (socks5_new (ip @ '':1080'')
             (''vpn-'' @ show_nat (i + 1) @ ''-'' @ resolve_country (countries ! i))))"
proof -
  have strat: "plain_text strat" "decode_strategy strat = Some s"
    using assms(4) strategy_names by auto
  let ?ts = "map (\<lambda>(j, c). docker_tunnel (j + 1) c) (enumerate 0 countries)"
  let ?socks = "map (\<lambda>(j, c). Socks5 (socks5_new (vpn_ip (j + 1) @ '':1080'')
      (''vpn-'' @ show_nat (j + 1) @ ''-'' @ resolve_country c))) (enumerate 0 countries)"
  have built: "build_transports ft tor ?ts = ?socks"
    by (simp add: build_transports_concat comp_def case_prod_unfold docker_tunnel_def socks5_tunnel_build [OF assms(6)] concat_map_singleton)
  define config where "config = \<lparr>cfg_proxy = \<lparr>pc_listen = ''0.0.0.0:'' @ show_word port, pc_mode = Transparent, pc_strategy = s\<rparr>,
     cfg_docker = docker_config_default, cfg_tunnel = ?ts\<rparr>"
  let ?config = "config\<lparr>cfg_proxy := (cfg_proxy config)\<lparr>pc_strategy := Random\<rparr>\<rparr>"
  have tunnels: "cfg_tunnel ?config = ?ts" and listen: "pc_listen (cfg_proxy ?config) = ''0.0.0.0:'' @ show_word port"
    and strategy: "pc_strategy (cfg_proxy ?config) = Random"
    unfolding config_def by simp_all
  have "?socks \<noteq> []" using assms(3) by (cases countries) simp_all
  then have prep: "prepare_proxy ft tor parse_addr ?config = Inr \<lparr>rn_addr = addr, rn_heap = (\<lambda>r. ?socks ! r),
      rn_pool = pool_new [0..<length ?socks], rn_router = build_router Random\<rparr>" (is "_ = Inr ?prx")
    using prepare_proxy_built [of ft tor ?config _ parse_addr addr, unfolded tunnels listen strategy, OF built _ assms(7)] by simp
  have "config_from_file toml e path (Inr (generate_tunnels_config countries strat port)) = Inr config" for path
    unfolding config_def by (rule docker_file_config(1) [OF assms(1,2) strat])
  then have "dispatch ft tor parse_addr fs toml e container_cli = Inr (Serve ?prx)"
    unfolding container_dispatch [of fs, OF assms(5)] by (simp only: map_err.simps and_then.simps prep)
  moreover have "service_ip (compose countries port) (''vpn-'' @ show_nat (i + 1)) = Some (vpn_ip (i + 1))"
    if "i < length countries" for i
    using vpn_service_lookup [OF that, of port] by (simp add: service_ip_def vpn_service_def)
  ultimately show ?thesis by (intro exI [of _ ?prx]) (simp add: nth_enumerate_eq pool_defs)
qed

text \<open>
  \<open>start-docker\<close> takes any strategy name and writes it into the generated configuration;
  with a name other than the two the configuration knows, the proxy in the container refuses
  to start.
\<close>

theorem docker_bad_strategy:
  assumes "toml_reads toml" "list_all plain_text countries" "plain_text strat"
    and "strat \<noteq> strategy_display Random" "strat \<noteq> strategy_display RoundRobin"
    and "fs ''/etc/houdinny/tunnels.toml'' = Some (Inr (generate_tunnels_config countries strat port))"
  shows "dispatch ft tor parse_addr fs toml e container_cli
    = Inl ''failed to load config from /etc/houdinny/tunnels.toml''"
proof -
  have "decode_strategy strat = None" using assms(4,5) by (auto simp: decode_strategy_def)
  from docker_file_config(2) [OF assms(1-3) this] obtain err where
    "config_from_file toml e ''/etc/houdinny/tunnels.toml'' (Inr (generate_tunnels_config countries strat port)) = Inl err"
    by blast
  then show ?thesis by (simp add: container_dispatch [of fs, OF assms(6)])
qed

theorem docker_bad_strategy_witness:
  "dispatch sample_features sample_tor Some
     [''/etc/houdinny/tunnels.toml'' \<mapsto> Inr (generate_tunnels_config [''us''] ''fastest'' 8080)]
     fragment_toml Map.empty container_cli = Inl ''failed to load config from /etc/houdinny/tunnels.toml''"
proof -
  have "list_all plain_text [''us'']" "plain_text ''fastest''" by code_simp+
  then show ?thesis by (intro docker_bad_strategy [OF fragment_toml_reads]) simp_all
qed

text \<open>
  C12. The stack that \<open>start-docker\<close> generates is consistent from end to end, as far as its
  strategy lets it be. If the container holds the generated configuration under the path its
  command names, and the strategy asked for is \<open>random\<close> or \<open>round-robin\<close>, then the proxy started
  there comes up; it listens on all interfaces on the published port; its pool is one SOCKS5
  transport per country, in order; and the \<open>i\<close>-th of them connects to port 1080 of the address
  that the generated compose file gives to the \<open>i\<close>-th VPN container. The router is the random one
  in both cases, since the command names none. With any other strategy (\<open>start-docker\<close> accepts
  every text, \<open>rr\<close> too) the proxy in the container refuses to start.
\<close>

theorem docker_container_proxy:
  assumes "toml_reads toml" "list_all plain_text countries" "countries \<noteq> []" "plain_text strat"
    and "fs ''/etc/houdinny/tunnels.toml'' = Some (Inr (generate_tunnels_config countries strat port))"
    and "ft_socks5 ft" "parse_addr (''0.0.0.0:'' @ show_word port) = Some addr"
  shows "if strat = ''random'' \<or> strat = ''round-robin''
    then \<exists>prx. dispatch ft tor parse_addr fs toml e container_cli = Inr (Serve prx)
      \<and> rn_addr prx = addr \<and> rn_router prx = RandomRouter \<and> pool_all (rn_pool prx) = [0..<length countries]
      \<and> (\<forall>i < length countries. \<exists>ip.
           service_ip (compose countries port) (''vpn-'' @ show_nat (i + 1)) = Some ip
           \<and> rn_heap prx i = Socks5 (socks5_new (ip @ '':1080'')
               (''vpn-'' @ show_nat (i + 1) @ ''-'' @ resolve_country (countries ! i))))
    else dispatch ft tor parse_addr fs toml e container_cli
      = Inl ''failed to load config from /etc/houdinny/tunnels.toml''"
proof (cases "strat = ''random'' \<or> strat = ''round-robin''")
  case True
  then obtain s where s: "strategy_display s = strat" using strategy_display.simps by blast
  show ?thesis unfolding if_P [OF True] by (rule container_proxy_set_up) (fact assms s)+
next
  case False
  then have other: "strat \<noteq> strategy_display Random" "strat \<noteq> strategy_display RoundRobin" by simp_all
  show ?thesis unfolding if_not_P [OF False]
    by (rule docker_bad_strategy [where strat = strat and countries = countries and port = port]) (fact assms other)+
qed

theorem docker_container_proxy_witness:
  "(\<exists>prx. dispatch sample_features sample_tor Some
       [''/etc/houdinny/tunnels.toml'' \<mapsto> Inr (generate_tunnels_config [''us''] ''round-robin'' 8080)]
       fragment_toml Map.empty container_cli = Inr (Serve prx)
     \<and> rn_router prx = RandomRouter \<and> pool_all (rn_pool prx) = [0])
   \<and> dispatch sample_features sample_tor Some
       [''/etc/houdinny/tunnels.toml'' \<mapsto> Inr (generate_tunnels_config [''us''] ''rr'' 8080)]
       fragment_toml Map.empty container_cli = Inl ''failed to load config from /etc/houdinny/tunnels.toml''"
proof -
  have us: "list_all plain_text [''us'']" and rr: "plain_text ''round-robin''" "plain_text ''rr''" by code_simp+
  have ft: "ft_socks5 sample_features" by (simp add: sample_features_def)
  note run = docker_container_proxy [OF fragment_toml_reads us, where port = 8080 and parse_addr = Some and tor = sample_tor
      and e = Map.empty, OF _ _ _ ft refl]
  show ?thesis
    using run [OF _ rr(1), of "[''/etc/houdinny/tunnels.toml'' \<mapsto> Inr (generate_tunnels_config [''us''] ''round-robin'' 8080)]"]
      run [OF _ rr(2), of "[''/etc/houdinny/tunnels.toml'' \<mapsto> Inr (generate_tunnels_config [''us''] ''rr'' 8080)]"]
    by auto
qed

section \<open>Imported tunnels\<close>

definition generated_by :: "string \<Rightarrow> toml_line" where
  "generated_by tool = Comment ('' Generated by: houdinny import '' @ tool)"

definition fresh_lines :: "string \<Rightarrow> toml_line list" where
  "fresh_lines tool =
     [Comment '' houdinny tunnel configuration'', generated_by tool, Blank] @ proxy_lines default_listen ''random''"

text \<open>
  The output file after an import of \<open>kvss\<close> is the rendering of a document: the old one, or
  the fresh one, with the stanzas added.
\<close>

lemma imported_file_render:
  assumes "block = ''# Generated by: houdinny import '' @ tool @ [CHR 0x0A] @ render (concat (map stanza_lines kvss))"
  shows "render ls @ [CHR 0x0A] @ block = render (ls @ [Blank, generated_by tool] @ concat (map stanza_lines kvss))"
    and "fresh_config tool block = render (fresh_lines tool @ [Blank, generated_by tool] @ concat (map stanza_lines kvss))"
  by (simp_all add: assms generated_by_def fresh_config_def fresh_lines_def proxy_lines_def setting_def default_listen_def)

definition default_config :: config where
  "default_config = \<lparr>cfg_proxy = proxy_config_default, cfg_docker = docker_config_default, cfg_tunnel = []\<rparr>"

lemma fresh_lines_ok:
  assumes "list_all plain_char tool" "CHR ''$'' \<notin> set tool"
  shows "wf_doc (fresh_lines tool)" "decode_config (sections (fresh_lines tool)) = Some default_config"
    "CHR ''$'' \<notin> set (render (fresh_lines tool))"
proof -
  have "plain_string default_listen" "plain_string ''random''" "list_all plain_char '' houdinny tunnel configuration''"
    "list_all plain_char '' Generated by: houdinny import ''" by code_simp+
  then show "wf_doc (fresh_lines tool)"
    unfolding fresh_lines_def by (intro proxy_lines_wf) (use assms(1) in \<open>simp_all add: generated_by_def\<close>)
  have "sections (fresh_lines tool) = sections (proxy_lines default_listen ''random'')"
    by (simp add: fresh_lines_def generated_by_def)
  then have "decode_config (sections (fresh_lines tool)) = map_option (\<lambda>s. \<lparr>cfg_proxy =
      \<lparr>pc_listen = default_listen, pc_mode = Transparent, pc_strategy = s\<rparr>, cfg_docker = docker_config_default,
      cfg_tunnel = []\<rparr>) (decode_strategy ''random'')"
    by (simp only: proxy_lines_sections proxy_lines_decode)
  then show "decode_config (sections (fresh_lines tool)) = Some default_config"
    by (simp add: decode_strategy_def default_config_def proxy_config_default_def proxy_mode_default_def strategy_default_def)
  show "CHR ''$'' \<notin> set (render (fresh_lines tool))"
    using assms(2) by (simp add: fresh_lines_def generated_by_def proxy_lines_def default_listen_def)
qed

text \<open>
  A file that is absent or holds a document of the fragment without references, and the
  configuration that is its meaning.
\<close>

definition readable :: "string option \<Rightarrow> config \<Rightarrow> bool" where
  "readable old cfg =
     (case old of
        None \<Rightarrow> cfg = default_config
      | Some s \<Rightarrow> (\<exists>ls. s = render ls \<and> wf_doc ls \<and> CHR ''$'' \<notin> set s \<and> decode_config (sections ls) = Some cfg))"

lemma import_loads:
  assumes "toml_reads toml" "readable old cfg" "list_all plain_char tool" "CHR ''$'' \<notin> set tool"
    and "list_all clean_stanza kvss" "those (map (decode_tunnel \<circ> str_entries) kvss) = Some ts"
    and "block = ''# Generated by: houdinny import '' @ tool @ [CHR 0x0A] @ render (concat (map stanza_lines kvss))"
  shows "config_from_file toml e path (Inr (case old of Some s \<Rightarrow> s @ [CHR 0x0A] @ block | None \<Rightarrow> fresh_config tool block))
    = Inr (cfg\<lparr>cfg_tunnel := cfg_tunnel cfg @ ts\<rparr>)"
proof -
  let ?gap = "[Blank, generated_by tool]"
  obtain ls where ls: "wf_doc ls" "CHR ''$'' \<notin> set (render ls)" "decode_config (sections ls) = Some cfg"
    and text_eq: "(case old of Some s \<Rightarrow> s @ [CHR 0x0A] @ block | None \<Rightarrow> fresh_config tool block)
      = render (ls @ ?gap @ concat (map stanza_lines kvss))"
  proof (cases old)
    case None
    then show thesis
      using that [OF fresh_lines_ok(1,3) [OF assms(3,4)]] fresh_lines_ok(2) [OF assms(3,4)]
        imported_file_render(2) [OF assms(7)] assms(2) by (simp only: readable_def option.case)
  next
    case (Some s)
    then obtain ls where "s = render ls" "wf_doc ls" "CHR ''$'' \<notin> set (render ls)" "decode_config (sections ls) = Some cfg"
      using assms(2) by (auto simp: readable_def)
    then show thesis using that [of ls] imported_file_render(1) [OF assms(7), of ls] Some by simp
  qed
  have gap: "entries ?gap = []" "sections ?gap = []" "list_all wf_line ?gap" "CHR ''$'' \<notin> set (render ?gap)"
  proof -
    have "list_all plain_char '' Generated by: houdinny import ''" by code_simp
    then show "list_all wf_line ?gap" using assms(3) by (simp add: generated_by_def)
  qed (use assms(4) in \<open>simp_all add: generated_by_def\<close>)
  show ?thesis
    unfolding text_eq
  proof (rule config_loads [OF assms(1)])
    show "wf_doc (ls @ ?gap @ concat (map stanza_lines kvss))"
      by (rule append_wf [OF ls(1) gap(1-3) clean_stanzas_wf [OF assms(5)]])
    show "decode_config (sections (ls @ ?gap @ concat (map stanza_lines kvss))) = Some (cfg\<lparr>cfg_tunnel := cfg_tunnel cfg @ ts\<rparr>)"
      by (rule append_decode [OF ls(3) gap(1,2) assms(6)])
    show "CHR ''$'' \<notin> set (render (ls @ ?gap @ concat (map stanza_lines kvss)))"
      using ls(2) gap(4) clean_stanzas_no_ref [OF assms(5)] by (simp only: render_append set_append) simp
  qed
qed

definition ssh_tunnel :: "string \<Rightarrow> u16 \<Rightarrow> tunnel_config" where
  "ssh_tunnel host port = socks5_tunnel (''127.0.0.1:'' @ show_word port) (''ssh-'' @ host @ ''-'' @ show_word port)"

lemma ssh_block_render:
  "ssh_generate_toml host ports = ''# Generated by: houdinny import '' @ ''ssh'' @ [CHR 0x0A]
     @ render (concat (map stanza_lines
         (map (\<lambda>p. socks5_stanza (''127.0.0.1:'' @ show_word p) (''ssh-'' @ host @ ''-'' @ show_word p)) ports)))"
proof -
  have "concat (map (ssh_stanza host) ports) = render (concat (map stanza_lines
         (map (\<lambda>p. socks5_stanza (''127.0.0.1:'' @ show_word p) (''ssh-'' @ host @ ''-'' @ show_word p)) ports)))"
    by (induction ports) (simp_all add: ssh_stanza_def setting_def stanza_lines_def socks5_stanza_def)
  then show ?thesis by (simp add: ssh_generate_toml_def del: map_map)
qed

lemma ssh_tunnels_loaded:
  assumes "toml_reads toml" "file_store io content" "readable (content w output) cfg" "plain_text host"
    and "import_ssh io w host user ports output st = (Inr (), w')" "ft_socks5 ft"
  shows "\<exists>s. content w' output = Some s
    \<and> config_from_file toml e output (Inr s) = Inr (cfg\<lparr>cfg_tunnel := cfg_tunnel cfg @ map (ssh_tunnel host) ports\<rparr>)
    \<and> build_transports ft tor (cfg_tunnel cfg @ map (ssh_tunnel host) ports) = build_transports ft tor (cfg_tunnel cfg)
        @ map (\<lambda>p. Socks5 (socks5_new (''127.0.0.1:'' @ show_word p) (''ssh-'' @ host @ ''-'' @ show_word p))) ports"
proof -
  let ?kvss = "map (\<lambda>p. socks5_stanza (''127.0.0.1:'' @ show_word p) (''ssh-'' @ host @ ''-'' @ show_word p)) ports"
  have "plain_text ''127.0.0.1:''" "plain_text ''ssh-''" "plain_text ''-''" by code_simp+
  then have clean: "list_all clean_stanza ?kvss"
    unfolding list_all_iff set_map ball_simps
    by (intro ballI socks5_stanza_clean) (simp_all only: plain_text_append plain_text_show assms(4))
  have tool: "list_all plain_char ''ssh''" "CHR ''$'' \<notin> set ''ssh''" by code_simp+
  have ts: "those (map (decode_tunnel \<circ> str_entries) ?kvss) = Some (map (ssh_tunnel host) ports)"
    unfolding map_map by (rule those_map) (simp add: socks5_stanza_decode ssh_tunnel_def)
  have "build_transports ft tor (map (ssh_tunnel host) ports) =
      map (\<lambda>p. Socks5 (socks5_new (''127.0.0.1:'' @ show_word p) (''ssh-'' @ host @ ''-'' @ show_word p))) ports"
    by (simp add: build_transports_concat comp_def ssh_tunnel_def socks5_tunnel_build [OF assms(6)] concat_map_singleton)
  then show ?thesis
    using import_loads [OF assms(1,3) tool clean ts ssh_block_render] import_ssh_writes [OF assms(2,5)]
    by (auto simp: build_transports_concat)
qed

text \<open>
  C13. A round trip through the configuration file: after a successful \<open>import ssh\<close> into a file
  that was absent, or that the program could read, loading the file gives the configuration it
  had (the default one, if it was absent) with one SOCKS5 tunnel per imported port added at the
  end, in order; and from each of them \<open>build_transports\<close> makes one transport to that port of
  the loopback address.
\<close>

theorem import_ssh_roundtrip:
  assumes "toml_reads toml" "file_store io content" "readable (content w output) cfg" "plain_text host"
    and "import_ssh io w host user ports output st = (Inr (), w')" "ft_socks5 ft"
  shows "\<exists>s. content w' output = Some s
    \<and> config_from_file toml e output (Inr s) = Inr (cfg\<lparr>cfg_tunnel := cfg_tunnel cfg @ map (ssh_tunnel host) ports\<rparr>)
    \<and> build_transports ft tor (cfg_tunnel cfg @ map (ssh_tunnel host) ports) = build_transports ft tor (cfg_tunnel cfg)
        @ map (\<lambda>p. Socks5 (socks5_new (''127.0.0.1:'' @ show_word p) (''ssh-'' @ host @ ''-'' @ show_word p))) ports"
  by (rule ssh_tunnels_loaded) (fact assms)+

theorem import_ssh_roundtrip_witness:
  "\<exists>s. snd (import_ssh (map_io \<lparr>nordlynx_private_key = []\<rparr> []) Map.empty ''h'' ''u'' [1080] ''t.toml'' True) ''t.toml'' = Some s
     \<and> config_from_file fragment_toml Map.empty ''t.toml'' (Inr s)
         = Inr (default_config\<lparr>cfg_tunnel := [ssh_tunnel ''h'' 1080]\<rparr>)"
proof -
  let ?io = "map_io \<lparr>nordlynx_private_key = []\<rparr> []"
  let ?run = "import_ssh ?io Map.empty ''h'' ''u'' [1080] ''t.toml'' True"
  have "fst ?run = Inr ()"
    by (simp add: import_ssh_def start_ssh_tunnel_def map_io_def write_config_def Let_def)
  then have run: "?run = (Inr (), snd ?run)" by (metis prod.collapse)
  have "readable None default_config" by (simp add: readable_def)
  moreover have "plain_text ''h''" by code_simp
  moreover have "cfg_tunnel default_config = []" by (simp add: default_config_def)
  moreover have "ft_socks5 sample_features" by (simp add: sample_features_def)
  ultimately show ?thesis
    using import_ssh_roundtrip [OF fragment_toml_reads map_files.file_store_axioms, where w = Map.empty and w' = "snd ?run"
        and cfg = default_config and ft = sample_features, OF _ _ run] by fastforce
qed

definition plain_server :: "server_entry \<Rightarrow> bool" where
  "plain_server server =
     (plain_text (se_station server) \<and> plain_text (se_name server)
      \<and> list_all (\<lambda>l. plain_text (co_code (lo_country l))) (se_locations server)
      \<and> (case extract_wireguard_public_key server of Inr key \<Rightarrow> plain_text key | Inl _ \<Rightarrow> True))"

definition nord_entries :: "string \<Rightarrow> string \<Rightarrow> server_entry \<Rightarrow> (string \<times> string) list" where
  "nord_entries private_key public_key server =
     [(''protocol'', ''wireguard''), (''endpoint'', se_station server @ '':51820''), (''private_key'', private_key),
      (''public_key'', public_key), (''address'', ''10.5.0.2/32''), (''dns'', ''103.86.96.100''),
      (''label'', nord_label server)]"

definition nord_tunnel :: "string \<Rightarrow> string \<Rightarrow> server_entry \<Rightarrow> tunnel_config" where
  "nord_tunnel private_key public_key server =
     (plain_tunnel ''wireguard'')\<lparr>tc_endpoint := Some (se_station server @ '':51820''), tc_private_key := Some private_key,
        tc_public_key := Some public_key, tc_address := Some ''10.5.0.2/32'', tc_dns := Some ''103.86.96.100'',
        tc_label := Some (nord_label server)\<rparr>"

lemma nord_stanzas_render:
  "concat (map2 (nord_stanza key) keys servers) = render (concat (map stanza_lines (map2 (nord_entries key) keys servers)))"
proof -
  have "nord_stanza key k server = render (stanza_lines (nord_entries key k server))" for k server
    by (simp add: nord_stanza_def nord_entries_def stanza_lines_def setting_def)
  then show ?thesis by (simp add: render_concat comp_def case_prod_unfold)
qed

lemma nord_entries_decode: "decode_tunnel (str_entries (nord_entries key k server)) = Some (nord_tunnel key k server)"
  by (simp add: decode_tunnel_def nord_entries_def nord_tunnel_def plain_tunnel_def req_str_def opt_str_def opt_u32_def)

lemma plain_nord_label:
  assumes "plain_server server"
  shows "plain_text (nord_label server)"
proof -
  have "plain_text ''nord-''" "plain_text ''xx''" "plain_text ''-''" by code_simp+
  moreover have "plain_text (case se_locations server of [] \<Rightarrow> ''xx'' | l # _ \<Rightarrow> to_lowercase (co_code (lo_country l)))"
    using assms \<open>plain_text ''xx''\<close> by (auto simp: plain_server_def plain_to_lowercase split: list.split)
  ultimately show ?thesis using assms by (simp only: nord_label_def plain_text_append plain_server_def simp_thms)
qed

lemma nord_entries_clean:
  assumes "plain_text key" "plain_server server" "extract_wireguard_public_key server = Inr k"
  shows "clean_stanza (nord_entries key k server)"
proof -
  have "plain_text ''wireguard''" "plain_text '':51820''" "plain_text ''10.5.0.2/32''" "plain_text ''103.86.96.100''"
    by code_simp+
  moreover have "plain_text k" "plain_text (se_station server)" using assms(2,3) by (simp_all add: plain_server_def)
  ultimately show ?thesis
    using assms(1) plain_nord_label [OF assms(2)] by (simp add: clean_stanza_def nord_entries_def bare_char_def)
qed

lemma nord_tunnel_build: "build_transport ft tor (nord_tunnel key k server) = []"
  by (simp add: build_transport_def nord_tunnel_def plain_tunnel_def)

text \<open>
  C20. \<open>import nord\<close> writes tunnels that are read back as they were meant and that the proxy never
  uses: after a successful import the file loads as the configuration it held before (the default
  one if it was absent) with one WireGuard tunnel per fetched server added, in order, each with the
  account's private key, the server's own public key and its address as endpoint. But none of them
  names an interface, so \<open>build_transports\<close> makes of the new configuration just the transports of
  the old one, with every set of features.
\<close>

theorem import_nord_unused:
  assumes "toml_reads toml" "file_store io content" "readable (content w output) cfg"
    and "fetch_credentials io w token = (Inr creds, w1)" "fetch_servers io w1 n countries = (Inr servers, w2)"
    and "plain_text (nordlynx_private_key creds)" "list_all plain_server servers"
    and "import_nord io w token n countries output = (Inr (), w')"
  shows "\<exists>s keys. content w' output = Some s \<and> map extract_wireguard_public_key servers = map Inr keys
    \<and> (let new = map2 (nord_tunnel (nordlynx_private_key creds)) keys servers;
           cfg' = cfg\<lparr>cfg_tunnel := cfg_tunnel cfg @ new\<rparr>
       in config_from_file toml e output (Inr s) = Inr cfg'
        \<and> list_all (\<lambda>t. tc_protocol t = ''wireguard'' \<and> tc_interface t = None) new
        \<and> build_transports ft tor (cfg_tunnel cfg') = build_transports ft tor (cfg_tunnel cfg))"
proof -
  let ?key = "nordlynx_private_key creds"
  obtain keys block where keys: "map extract_wireguard_public_key servers = map Inr keys"
    and block: "block = ''# Generated by: houdinny import nord'' @ [CHR 0x0A] @ concat (map2 (nord_stanza ?key) keys servers)"
    and out: "content w' output = Some (case content w output of Some old \<Rightarrow> old @ [CHR 0x0A] @ block | None \<Rightarrow> fresh_config ''nord'' block)"
    using import_nord_writes [OF assms(2,4,5,8)] by blast
  let ?kvss = "map2 (nord_entries ?key) keys servers" and ?ts = "map2 (nord_tunnel ?key) keys servers"
  have len: "length keys = length servers" using keys by (metis length_map)
  have "extract_wireguard_public_key (servers ! i) = Inr (keys ! i)" if "i < length servers" for i
    using arg_cong [OF keys, of "\<lambda>xs. xs ! i"] that len by simp
  then have clean: "list_all clean_stanza ?kvss"
    using assms(6,7) len by (auto simp: list_all_iff set_zip intro!: nord_entries_clean)
  have tool: "list_all plain_char ''nord''" "CHR ''$'' \<notin> set ''nord''" by code_simp+
  have ts: "those (map (decode_tunnel \<circ> str_entries) ?kvss) = Some ?ts"
    unfolding map_map by (rule those_map) (auto simp: nord_entries_decode)
  have "block = ''# Generated by: houdinny import '' @ ''nord'' @ [CHR 0x0A] @ render (concat (map stanza_lines ?kvss))"
    by (simp only: block nord_stanzas_render) simp
  from import_loads [OF assms(1,3) tool clean ts this]
  have "config_from_file toml e output (Inr (case content w output of Some old \<Rightarrow> old @ [CHR 0x0A] @ block
      | None \<Rightarrow> fresh_config ''nord'' block)) = Inr (cfg\<lparr>cfg_tunnel := cfg_tunnel cfg @ ?ts\<rparr>)" .
  moreover have "concat (map (build_transport ft tor) ?ts) = []" by (auto simp: nord_tunnel_build)
  moreover have "list_all (\<lambda>t. tc_protocol t = ''wireguard'' \<and> tc_interface t = None) ?ts"
    by (auto simp: list_all_iff nord_tunnel_def plain_tunnel_def)
  ultimately show ?thesis
    using out keys by (intro exI [of _ keys] exI conjI) (simp_all add: build_transports_concat Let_def)
qed

theorem import_nord_unused_witness:
  "\<exists>s cfg'. snd (import_nord (map_io \<lparr>nordlynx_private_key = ''sk''\<rparr> [sample_server]) Map.empty ''tok'' 1 None ''t.toml'') ''t.toml''
       = Some s
     \<and> config_from_file fragment_toml Map.empty ''t.toml'' (Inr s) = Inr cfg'
     \<and> cfg_tunnel cfg' = [nord_tunnel ''sk'' ''pk'' sample_server]
     \<and> build_transports sample_features sample_tor (cfg_tunnel cfg') = []"
proof -
  let ?io = "map_io \<lparr>nordlynx_private_key = ''sk''\<rparr> [sample_server]"
  let ?run = "import_nord ?io Map.empty ''tok'' 1 None ''t.toml''"
  have creds: "fetch_credentials ?io Map.empty ''tok'' = (Inr \<lparr>nordlynx_private_key = ''sk''\<rparr>, Map.empty)"
    by (simp add: fetch_credentials_def map_io_def is_success_def)
  have servers: "fetch_servers ?io Map.empty 1 None = (Inr [sample_server], Map.empty)"
    by (simp add: fetch_servers_def fetch_server_list_def truncate_servers_def map_io_def is_success_def)
  obtain block where "nord_generate_toml ''sk'' [sample_server] = Inr block"
    by (simp add: nord_generate_toml_def extract_wireguard_public_key_def sample_server_def)
  then have "fst ?run = Inr ()"
    by (simp add: import_nord_def creds servers write_config_def del: One_nat_def) (simp add: map_io_def)
  then have run: "?run = (Inr (), snd ?run)" by (metis prod.collapse)
  have key: "extract_wireguard_public_key sample_server = Inr ''pk''"
    by (simp add: extract_wireguard_public_key_def sample_server_def)
  have "readable None default_config" by (simp add: readable_def)
  moreover have "plain_text ''sk''" "list_all plain_server [sample_server]" by code_simp+
  moreover have "cfg_tunnel default_config = []" by (simp add: default_config_def)
  ultimately show ?thesis
    using import_nord_unused [OF fragment_toml_reads map_files.file_store_axioms _ creds servers _ _ run,
        of default_config Map.empty sample_features sample_tor] key
    by (auto simp: build_transports_concat Let_def)
qed

section \<open>The token\<close>

lemma trim_unspaced: "s = [] \<or> \<not> is_ws (hd s) \<and> \<not> is_ws (last s) \<Longrightarrow> trim s = s"
  by (cases s) (auto simp: trim_def trim_start_def intro: trim_end_id)

text \<open>
  The token goes through the \<open>.env\<close> file unchanged: what \<open>start-docker\<close> writes there,
  \<open>load_dotenv\<close> reads back as the variable \<open>NORD_TOKEN\<close> with the same value, whichever
  characters other than a line feed and NUL the token has inside, quotes and equality signs
  included; no other variable is touched.
\<close>

theorem env_file_roundtrip:
  assumes "tok \<noteq> []" "\<not> is_ws (hd tok)" "\<not> is_ws (last tok)" "CHR 0x0A \<notin> set tok" "CHR 0x00 \<notin> set tok"
  shows "load_dotenv (Some (generate_env tok)) e = Some (e(''NORD_TOKEN'' \<mapsto> tok))"
proof -
  let ?line = "''NORD_TOKEN='' @ tok"
  have "CHR 0x0A \<notin> set ?line" using assms(4) by simp
  then have "split_char (CHR 0x0A) (generate_env tok) = [?line, []]"
    using split_char_append [of "CHR 0x0A" ?line "[]"] by (simp add: generate_env_def)
  moreover have "last ?line = last tok" using assms(1) by simp
  moreover have "is_ws (CHR 0x0D)" by (simp add: is_ws_def)
  ultimately have lines: "str_lines (generate_env tok) = [?line]"
    using assms(3) by (auto simp: strip_cr_def)
  have trims: "trim ?line = ?line" "trim tok = tok" "trim ''NORD_TOKEN'' = ''NORD_TOKEN''"
    using assms(1-3) by (auto intro!: trim_unspaced simp: is_ws_def)
  have "split_once (CHR ''='') ?line = Some (''NORD_TOKEN'', tok)"
    using split_once_append [of "CHR ''=''" "''NORD_TOKEN''" tok] by simp
  moreover have "\<not> starts_with ?line ''#''" by simp
  ultimately have "dotenv_line ?line e = Some (e(''NORD_TOKEN'' \<mapsto> tok))"
    unfolding dotenv_line_def trims Let_def using assms(5) trims(2,3) by (simp add: set_var_def)
  then show ?thesis unfolding load_dotenv_def option.case lines by simp
qed

theorem env_file_roundtrip_witness:
  "load_dotenv (Some (generate_env ''a=b c'')) Map.empty = Some [''NORD_TOKEN'' \<mapsto> ''a=b c'']"
  using env_file_roundtrip [of "''a=b c''" Map.empty] by (simp add: is_ws_def)

end
