(* ===== verification/Accept_Loop.thy ===== *)
theory Accept_Loop
  imports Houdinny_Error
begin

text \<open>
  The accept loop that \<open>ProxyServer::run\<close> (\<open>src/src/proxy/mod.rs\<close>) and \<open>AdminServer::run\<close>
  (\<open>src/src/admin/mod.rs\<close>) share: bind a listener, then accept connections for ever and spawn a
  task for each; a failed accept makes \<open>run\<close> return the error, while the spawned tasks go on.
  The tasks are interleaved in any order; what they may do is the parameter \<open>task\<close>, what
  others may do to the shared state is \<open>env\<close>, and a task that is \<open>dead\<close> has aborted the
  process, after which nothing happens.
\<close>

section \<open>The loop\<close>

record ('sh, 't) server =
  sv_error :: "error option"
  sv_shared :: 'sh
  sv_tasks :: "'t list"

definition aborted :: "('t \<Rightarrow> bool) \<Rightarrow> ('sh, 't) server \<Rightarrow> bool" where
  "aborted dead s = list_ex dead (sv_tasks s)"

text \<open>\<open>bind\<close> and \<open>local_addr\<close> are the listener's; the loop starts without tasks.\<close>

definition start_loop :: "('addr \<Rightarrow> string + 'l) \<Rightarrow> 'addr \<Rightarrow> 'sh \<Rightarrow> error + 'l \<times> ('sh, 't) server" where
  "start_loop bind addr sh =
     and_then (map_err Io (bind addr))
       (\<lambda>listener. Inr (listener, \<lparr>sv_error = None, sv_shared = sh, sv_tasks = []\<rparr>))"

inductive accept_step ::
  "('c \<Rightarrow> 't) \<Rightarrow> ('sh \<Rightarrow> 't \<Rightarrow> 'sh \<Rightarrow> 't \<Rightarrow> bool) \<Rightarrow> ('sh \<Rightarrow> 'sh \<Rightarrow> bool) \<Rightarrow> ('t \<Rightarrow> bool) \<Rightarrow>
     ('sh, 't) server \<Rightarrow> ('sh, 't) server \<Rightarrow> bool"
  for spawn task env dead where
  accepts: "\<not> aborted dead s \<Longrightarrow> sv_error s = None \<Longrightarrow>
     accept_step spawn task env dead s (s\<lparr>sv_tasks := sv_tasks s @ [spawn c]\<rparr>)"
| accept_fails: "\<not> aborted dead s \<Longrightarrow> sv_error s = None \<Longrightarrow>
     accept_step spawn task env dead s (s\<lparr>sv_error := Some (Io e)\<rparr>)"
| task_runs: "\<not> aborted dead s \<Longrightarrow> i < length (sv_tasks s) \<Longrightarrow>
     task (sv_shared s) (sv_tasks s ! i) sh t \<Longrightarrow>
     accept_step spawn task env dead s (s\<lparr>sv_shared := sh, sv_tasks := (sv_tasks s)[i := t]\<rparr>)"
| env_runs: "\<not> aborted dead s \<Longrightarrow> env (sv_shared s) sh \<Longrightarrow>
     accept_step spawn task env dead s (s\<lparr>sv_shared := sh\<rparr>)"

inductive_cases accept_stepE: "accept_step spawn task env dead s s'"

abbreviation accept_steps where
  "accept_steps spawn task env dead \<equiv> (accept_step spawn task env dead)\<^sup>*\<^sup>*"

section \<open>What holds of every run\<close>

text \<open>Once \<open>run\<close> has returned its error it stays returned and no task is added.\<close>

lemma returned_is_final:
  assumes "accept_steps spawn task env dead s s'" "sv_error s = Some e"
  shows "sv_error s' = Some e \<and> length (sv_tasks s') = length (sv_tasks s)"
  using assms(1)
proof (induction rule: rtranclp_induct)
  case (step s1 s2)
  then show ?case by (auto elim!: accept_stepE)
qed (use assms(2) in simp)

lemma aborted_is_final:
  assumes "accept_steps spawn task env dead s s'" "aborted dead s"
  shows "s' = s"
  using assms by (induction rule: rtranclp_induct) (auto elim: accept_stepE)

text \<open>
  The contract of a server's tasks: a relation between the shared state and the tasks that the
  empty server has and that every kind of step keeps holds in every run.
\<close>

locale task_system =
  fixes spawn :: "'c \<Rightarrow> 't"
    and task :: "'sh \<Rightarrow> 't \<Rightarrow> 'sh \<Rightarrow> 't \<Rightarrow> bool"
    and env :: "'sh \<Rightarrow> 'sh \<Rightarrow> bool"
    and dead :: "'t \<Rightarrow> bool"
    and good :: "'sh \<Rightarrow> 't list \<Rightarrow> bool"
  assumes spawn_good: "good sh ts \<Longrightarrow> good sh (ts @ [spawn c])"
    and task_good: "good sh ts \<Longrightarrow> i < length ts \<Longrightarrow> task sh (ts ! i) sh' t \<Longrightarrow> good sh' (ts[i := t])"
    and env_good: "good sh ts \<Longrightarrow> env sh sh' \<Longrightarrow> good sh' ts"
begin

lemma step_good:
  "accept_step spawn task env dead s s' \<Longrightarrow> good (sv_shared s) (sv_tasks s) \<Longrightarrow> good (sv_shared s') (sv_tasks s')"
  by (auto elim!: accept_stepE intro: spawn_good task_good env_good)

lemma steps_good:
  assumes "accept_steps spawn task env dead s s'" "good (sv_shared s) (sv_tasks s)"
  shows "good (sv_shared s') (sv_tasks s')"
  using assms by (induction rule: rtranclp_induct) (auto intro: step_good)

lemma reachable_good:
  assumes "start_loop bind addr sh = Inr (l, s)" "good sh []" "accept_steps spawn task env dead s s'"
  shows "good (sv_shared s') (sv_tasks s')"
  using assms steps_good [OF assms(3)] by (auto simp: start_loop_def res_simps)

end

end
