(* ===== verification/Server.thy ===== *)
theory Server
  imports Main_Bin Accept_Loop
begin

text \<open>
  The proxy server as \<open>main\<close> runs it (\<open>ProxyServer\<close> in \<open>src/src/proxy/mod.rs\<close>, the end of
  \<open>main\<close> in \<open>src/src/main.rs\<close>): connections are accepted and handled by tasks that run
  concurrently. The handlers share nothing but the picker's router state, which each of them
  touches once, at the pick; so a handler is three atomic actions: reading the request, the
  pick, and serving the request through the picked transport. The first part splits the handler
  accordingly and proves that nothing is lost; the second part is the server.
\<close>

section \<open>The phases of a connection\<close>

datatype request =
    Tunnel (req_host: string) (req_port: u16)
  | Forward (req_method: string) (req_host: string) (req_port: u16) (req_path: string)
      (req_headers: "string list") (req_length: usize)

definition connect_request ::
  "('a, 'r, 's) proxy_io \<Rightarrow> 'r \<Rightarrow> string \<Rightarrow> ((error \<times> 'r) + (request \<times> 'r)) option" where
  "connect_request io reader first_line =
     (case parse_connect first_line of
        Inl e \<Rightarrow> Some (Inl (e, reader))
      | Inr (host, port) \<Rightarrow>
          (case discard_headers (rd_read_line io) reader of
             None \<Rightarrow> None
           | Some (Inl e, reader) \<Rightarrow> Some (Inl (Io e, reader))
           | Some (Inr _, reader) \<Rightarrow> Some (Inr (Tunnel host port, reader))))"

definition plain_request ::
  "('a, 'r, 's) proxy_io \<Rightarrow> 'r \<Rightarrow> string \<Rightarrow> ((error \<times> 'r) + (request \<times> 'r)) option" where
  "plain_request io reader first_line =
     (case parse_http_request first_line of
        Inl e \<Rightarrow> Some (Inl (e, reader))
      | Inr (method, host, port, path) \<Rightarrow>
          (case read_headers (rd_read_line io) reader [] 0 of
             None \<Rightarrow> None
           | Some (Inl e, reader) \<Rightarrow> Some (Inl (Io e, reader))
           | Some (Inr (headers, content_length), reader) \<Rightarrow>
               Some (Inr (Forward method host port path headers content_length, reader))))"

definition request_phase ::
  "('a, 'r, 's) proxy_io \<Rightarrow> 'a \<Rightarrow> ((error \<times> 'r) + (request \<times> 'r)) option" where
  "request_phase io stream =
     (case rd_read_line io (rd_new io stream) of
        (Inl e, reader) \<Rightarrow> Some (Inl (Io e, reader))
      | (Inr line, reader) \<Rightarrow>
          let first_line = trim_end line in
          if first_line = [] then Some (Inl (Proxy ''empty request line'', reader))
          else if starts_with (to_uppercase first_line) ''CONNECT '' then connect_request io reader first_line
          else plain_request io reader first_line)"

fun serve_stream ::
  "('a, 'r, 's) proxy_io \<Rightarrow> 's net_ops \<Rightarrow> request \<Rightarrow> 'r \<Rightarrow> 's \<Rightarrow> ('a, 'r, 's) outcome" where
  "serve_stream io net (Tunnel host port) reader tunnel_stream =
     (case rd_write_all io reader established of
        (Inl e, reader) \<Rightarrow> Failed (Io e) reader
      | (Inr _, reader) \<Rightarrow>
          let (_, agent_stream, tunnel_stream) = copy_bidirectional io (rd_into_inner io reader) tunnel_stream
          in Finished agent_stream tunnel_stream)"
| "serve_stream io net (Forward method host port path headers content_length) reader tunnel_stream =
     (case write_list net tunnel_stream
             ((method @ '' '' @ path @ '' HTTP/1.1'' @ crlf) # headers @ [crlf]) of
        Inl e \<Rightarrow> Failed (Io e) reader
      | Inr tunnel_stream \<Rightarrow>
          (case forward_body io net content_length reader tunnel_stream of
             None \<Rightarrow> Aborted
           | Some (Inl e, reader) \<Rightarrow> Failed (Io e) reader
           | Some (Inr tunnel_stream, reader) \<Rightarrow>
               (case stream_flush io tunnel_stream of
                  Inl e \<Rightarrow> Failed (Io e) reader
                | Inr tunnel_stream \<Rightarrow>
                    let (_, tunnel_stream, agent_stream) = copy_stream io tunnel_stream (rd_into_inner io reader)
                    in Finished agent_stream tunnel_stream)))"

definition serve_phase ::
  "('a, 'r, 's) proxy_io \<Rightarrow> 's net_ops \<Rightarrow> transport \<Rightarrow> request \<Rightarrow> 'r \<Rightarrow> ('a, 'r, 's) outcome" where
  "serve_phase io net t q reader =
     (case connect net t (req_host q) (req_port q) of
        Inl e \<Rightarrow> Failed e reader
      | Inr tunnel_stream \<Rightarrow> serve_stream io net q reader tunnel_stream)"

text \<open>The pick and what follows it, once the request phase has ended.\<close>

fun after_request ::
  "('a, 'r, 's) proxy_io \<Rightarrow> 's net_ops \<Rightarrow> ('p \<Rightarrow> string \<Rightarrow> u16 \<Rightarrow> (error + transport) \<times> 'p) \<Rightarrow> 'p \<Rightarrow>
     (error \<times> 'r) + (request \<times> 'r) \<Rightarrow> ('a, 'r, 's) outcome \<times> 'p" where
  "after_request io net pickf st (Inl (e, reader)) = (Failed e reader, st)"
| "after_request io net pickf st (Inr (q, reader)) =
     (case pickf st (req_host q) (req_port q) of
        (Inl e, st) \<Rightarrow> (Failed e reader, st)
      | (Inr t, st) \<Rightarrow> (serve_phase io net t q reader, st))"

definition phases ::
  "('a, 'r, 's) proxy_io \<Rightarrow> 's net_ops \<Rightarrow> ('p \<Rightarrow> string \<Rightarrow> u16 \<Rightarrow> (error + transport) \<times> 'p) \<Rightarrow> 'p \<Rightarrow>
     'a \<Rightarrow> (('a, 'r, 's) outcome \<times> 'p) option" where
  "phases io net pickf st stream =
     map_option (after_request io net pickf st) (request_phase io stream)"

lemma handle_connect_phases:
  "handle_connect io net pickf st reader l =
     map_option (after_request io net pickf st) (connect_request io reader l)"
  by (auto simp: handle_connect_def connect_request_def serve_phase_def Let_def
      split: sum.splits prod.splits option.splits)

lemma handle_plain_http_phases:
  "handle_plain_http io net pickf st reader l =
     map_option (after_request io net pickf st) (plain_request io reader l)"
  by (auto simp: handle_plain_http_def plain_request_def serve_phase_def Let_def
      split: sum.splits prod.splits option.splits)

lemma handle_connection_split:
  "handle_connection io net pickf st stream = phases io net pickf st stream"
  by (auto simp: handle_connection_def phases_def request_phase_def Let_def
      handle_connect_phases handle_plain_http_phases split: sum.splits prod.splits)

text \<open>
  The handler, written as one routine in the code, is equivalent to the composition of its
  three phases: reading the request, picking a transport, serving the request through it. The
  request phase needs neither the picker nor the network, and the serving phase not the
  picker, on every path, errors included.
\<close>

theorem handle_connection_phases:
  "handle_connection io net pickf st stream = phases io net pickf st stream"
  by (rule handle_connection_split)

section \<open>The server\<close>

record 'addr proxy_server =
  ps_listen_addr :: 'addr

definition proxy_server_new :: "'addr \<Rightarrow> 'addr proxy_server" where
  "proxy_server_new listen_addr = \<lparr>ps_listen_addr = listen_addr\<rparr>"

datatype ('a, 'r, 's) conn_task =
    Reading 'a
  | Serving 'a transport request 'r
  | Done 'a "('a, 'r, 's) outcome"

fun task_aborts :: "('a, 'r, 's) conn_task \<Rightarrow> bool" where
  "task_aborts (Done c Aborted) = True"
| "task_aborts _ = False"

text \<open>\<open>run\<close> up to its loop: the listener is bound and asked for its address.\<close>

definition proxy_server_run ::
  "('addr \<Rightarrow> string + 'l) \<Rightarrow> ('l \<Rightarrow> string + 'addr) \<Rightarrow> 'addr proxy_server \<Rightarrow> router \<Rightarrow>
     error + (router, ('a, 'r, 's) conn_task) server" where
  "proxy_server_run bind local_addr server st =
     and_then (start_loop bind (ps_listen_addr server) st)
       (\<lambda>(listener, s). and_then (map_err Io (local_addr listener)) (\<lambda>actual_addr. Inr s))"

text \<open>
  The steps of a connection's task over the pool \<open>p\<close> of the transports \<open>h\<close>. The pick may
  find the pool's lock contended, and the random router chooses in any way. The picker copies
  the list under the lock and picks from the copy; since nothing changes this pool or its
  transports while the server runs, that is one step here, and two in \<open>Live_Pool\<close>.
\<close>

inductive conn_step ::
  "('a, 'r, 's) proxy_io \<Rightarrow> 's net_ops \<Rightarrow> theap \<Rightarrow> pool \<Rightarrow>
     router \<Rightarrow> ('a, 'r, 's) conn_task \<Rightarrow> router \<Rightarrow> ('a, 'r, 's) conn_task \<Rightarrow> bool"
  for io net h p where
  request_fails: "request_phase io c = Some (Inl (e, reader)) \<Longrightarrow>
     conn_step io net h p st (Reading c) st (Done c (Failed e reader))"
| picks: "request_phase io c = Some (Inr (q, reader)) \<Longrightarrow> choose_ok chooser \<Longrightarrow>
     main_picker chooser contended h p st (req_host q) (req_port q) = (Inr t, st') \<Longrightarrow>
     conn_step io net h p st (Reading c) st' (Serving c t q reader)"
| pick_fails: "request_phase io c = Some (Inr (q, reader)) \<Longrightarrow> choose_ok chooser \<Longrightarrow>
     main_picker chooser contended h p st (req_host q) (req_port q) = (Inl e, st') \<Longrightarrow>
     conn_step io net h p st (Reading c) st' (Done c (Failed e reader))"
| serves: "conn_step io net h p st (Serving c t q reader) st (Done c (serve_phase io net t q reader))"

inductive_cases conn_step_readingE: "conn_step io net h p st (Reading c) st' t'"
inductive_cases conn_step_servingE: "conn_step io net h p st (Serving c t q r) st' t'"
inductive_cases conn_step_doneE: "conn_step io net h p st (Done c out) st' t'"

text \<open>In the program \<open>main\<close> builds nobody but the picker holds the pool: the environment is idle.\<close>

abbreviation proxy_steps where
  "proxy_steps io net h p \<equiv> accept_steps Reading (conn_step io net h p) (\<lambda>_ _. False) task_aborts"

section \<open>The sequential specification\<close>

text \<open>
  The abstract server handles one connection after the other, each from its first byte to its
  end by one call of \<open>handle_connection\<close>. A log entry is the number of the connection, its
  stream and the outcome.
\<close>

inductive sequential ::
  "('a, 'r, 's) proxy_io \<Rightarrow> 's net_ops \<Rightarrow> theap \<Rightarrow> pool \<Rightarrow>
     router \<Rightarrow> (nat \<times> 'a \<times> ('a, 'r, 's) outcome) list \<Rightarrow> router \<Rightarrow> bool"
  for io net h p st where
  none: "sequential io net h p st [] st"
| next_conn: "sequential io net h p st log st' \<Longrightarrow> choose_ok chooser \<Longrightarrow>
     handle_connection io net (main_picker chooser contended h p) st' c = Some (out, st'') \<Longrightarrow>
     sequential io net h p st (log @ [(i, c, out)]) st''"

fun logged :: "('a, 'r, 's) proxy_io \<Rightarrow> 's net_ops \<Rightarrow> (nat \<times> 'a \<times> ('a, 'r, 's) outcome) list \<Rightarrow> nat \<Rightarrow>
    ('a, 'r, 's) conn_task \<Rightarrow> bool" where
  "logged io net log i (Reading c) = (i \<notin> fst ` set log)"
| "logged io net log i (Serving c t q reader) = ((i, c, serve_phase io net t q reader) \<in> set log)"
| "logged io net log i (Done c out) = ((i, c, out) \<in> set log)"

text \<open>The simulation relation: the log so far explains the shared state and every task.\<close>

definition explained ::
  "('a, 'r, 's) proxy_io \<Rightarrow> 's net_ops \<Rightarrow> theap \<Rightarrow> pool \<Rightarrow> router \<Rightarrow> router \<Rightarrow> ('a, 'r, 's) conn_task list \<Rightarrow> bool" where
  "explained io net h p st0 st ts =
     (\<exists>log. sequential io net h p st0 log st \<and> distinct (map fst log)
        \<and> (\<forall>x \<in> set log. fst x < length ts)
        \<and> (\<forall>i < length ts. logged io net log i (ts ! i)))"

lemma choose_ok_exists: "choose_ok (\<lambda>xs. case xs of [] \<Rightarrow> None | x # _ \<Rightarrow> Some x)"
  by (auto simp: choose_ok_def split: list.split)

lemma logged_extend:
  "logged io net log j t \<Longrightarrow> j \<noteq> i \<Longrightarrow> logged io net (log @ [(i, c, out)]) j t"
  by (cases t) auto

text \<open>A step of a reading task is a whole connection of the specification.\<close>

lemma reading_step_sequential:
  assumes "conn_step io net h p st (Reading c) st' t'" "sequential io net h p st0 log st"
  shows "\<exists>out. sequential io net h p st0 (log @ [(i, c, out)]) st' \<and> logged io net (log @ [(i, c, out)]) i t'"
proof -
  consider (fails) e reader where "request_phase io c = Some (Inl (e, reader))" "st' = st" "t' = Done c (Failed e reader)"
    | (picks) q reader ch ct t where "request_phase io c = Some (Inr (q, reader))" "choose_ok ch"
        "main_picker ch ct h p st (req_host q) (req_port q) = (Inr t, st')" "t' = Serving c t q reader"
    | (none) q reader ch ct e where "request_phase io c = Some (Inr (q, reader))" "choose_ok ch"
        "main_picker ch ct h p st (req_host q) (req_port q) = (Inl e, st')" "t' = Done c (Failed e reader)"
    using assms(1) by (elim conn_step_readingE) blast+
  then obtain ch ct out where "choose_ok ch"
    "handle_connection io net (main_picker ch ct h p) st c = Some (out, st')"
    "logged io net (log @ [(i, c, out)]) i t'"
  proof cases
    case fails
    show thesis using that [OF choose_ok_exists, of False "Failed e reader"] fails
      by (simp add: handle_connection_split phases_def)
  next
    case picks
    show thesis using that [OF picks(2), of ct "serve_phase io net t q reader"] picks
      by (simp add: handle_connection_split phases_def)
  next
    case none
    show thesis using that [OF none(2), of ct "Failed e reader"] none
      by (simp add: handle_connection_split phases_def)
  qed
  then show ?thesis using next_conn [OF assms(2)] by blast
qed

lemma sequential_explained:
  "task_system Reading (conn_step io net h p) (\<lambda>_ _. False) (explained io net h p st0)"
proof
  fix sh ts c
  assume "explained io net h p st0 sh ts"
  then obtain log where "sequential io net h p st0 log sh" "distinct (map fst log)"
    "\<forall>x \<in> set log. fst x < length ts" "\<forall>i < length ts. logged io net log i (ts ! i)"
    by (auto simp: explained_def)
  then show "explained io net h p st0 sh (ts @ [Reading c])"
    unfolding explained_def by (intro exI [of _ log]) (auto simp: nth_append less_Suc_eq)
next
  fix sh ts i sh' t
  assume "explained io net h p st0 sh ts" and i: "i < length ts" and step: "conn_step io net h p sh (ts ! i) sh' t"
  then obtain log where seq: "sequential io net h p st0 log sh" and dist: "distinct (map fst log)"
    and bound: "\<forall>x \<in> set log. fst x < length ts" and logs: "\<forall>i < length ts. logged io net log i (ts ! i)"
    by (auto simp: explained_def)
  show "explained io net h p st0 sh' (ts[i := t])"
  proof (cases "ts ! i")
    case (Reading c)
    obtain out where out: "sequential io net h p st0 (log @ [(i, c, out)]) sh'"
      "logged io net (log @ [(i, c, out)]) i t"
      using reading_step_sequential [OF step [unfolded Reading] seq] by blast
    have fresh: "i \<notin> fst ` set log" using logs i Reading by force
    have "logged io net (log @ [(i, c, out)]) j (ts[i := t] ! j)" if "j < length ts" for j
      using that logs out(2) logged_extend [of io net log j "ts ! j"] by (cases "j = i") auto
    then show ?thesis
      unfolding explained_def using out(1) dist fresh bound i
      by (intro exI [of _ "log @ [(i, c, out)]"]) auto
  next
    case (Serving c tr q r)
    then have "sh' = sh" "t = Done c (serve_phase io net tr q r)"
      using step by (auto elim: conn_step_servingE)
    moreover have "(i, c, serve_phase io net tr q r) \<in> set log" using logs i Serving by force
    ultimately show ?thesis
      unfolding explained_def using seq dist bound logs i
      by (intro exI [of _ log]) (auto simp: nth_list_update)
  next
    case (Done c out)
    then show ?thesis using step by (auto elim: conn_step_doneE)
  qed
qed auto

interpretation proxy_tasks: task_system Reading "conn_step io net h p" "\<lambda>_ _. False" task_aborts
  "explained io net h p st0" for io net h p st0
  by (rule sequential_explained)

text \<open>
  The converse: a connection that the sequential server would handle next can be handled next
  by the concurrent one, from its arrival to its end.
\<close>

lemma append_update: "(xs @ [x])[length xs := y] = xs @ [y]"
  by simp

lemma connection_runs:
  assumes "choose_ok ch" "handle_connection io net (main_picker ch ct h p) (sv_shared s) c = Some (out, st')"
    and "\<not> aborted task_aborts s" "sv_error s = None"
  shows "proxy_steps io net h p s (s\<lparr>sv_shared := st', sv_tasks := sv_tasks s @ [Done c out]\<rparr>)"
proof -
  let ?step = "accept_step Reading (conn_step io net h p) (\<lambda>_ _. False) task_aborts"
  let ?s = "\<lambda>st t. s\<lparr>sv_shared := st, sv_tasks := sv_tasks s @ [t]\<rparr>"
  have alive: "\<not> aborted task_aborts (?s st t)" if "\<not> task_aborts t" for st t
    using assms(3) that by (auto simp: aborted_def)
  have 1: "?step s (?s (sv_shared s) (Reading c))"
    using accepts [OF assms(3,4)] by simp
  have run: "?step (?s st t) (?s st2 t')" if "conn_step io net h p st t st2 t'" "\<not> task_aborts t" for st t st2 t'
    using task_runs [OF alive [OF that(2)], of "length (sv_tasks s)" st "conn_step io net h p" st2 t'] that(1)
    by (simp add: nth_append append_update)
  have both: "?step\<^sup>*\<^sup>* a c" if "?step a b" "?step b c" for a b c
    using that by (rule converse_rtranclp_into_rtranclp [OF _ r_into_rtranclp])
  obtain x where x: "request_phase io c = Some x"
    "after_request io net (main_picker ch ct h p) (sv_shared s) x = (out, st')"
    using assms(2) by (auto simp: handle_connection_split phases_def)
  show ?thesis
  proof (cases x)
    case (Inl er)
    then have "conn_step io net h p (sv_shared s) (Reading c) st' (Done c out)"
      using x conn_step.request_fails [of io c "fst er" "snd er"] by (cases er) auto
    from run [OF this] show ?thesis by (intro both [OF 1]) simp
  next
    case (Inr qr)
    obtain q reader where qr: "qr = (q, reader)" by fastforce
    obtain res st2 where res: "main_picker ch ct h p (sv_shared s) (req_host q) (req_port q) = (res, st2)" by fastforce
    show ?thesis
    proof (cases res)
      case (Inl e)
      then have "conn_step io net h p (sv_shared s) (Reading c) st' (Done c out)"
        using x Inr qr res conn_step.pick_fails [OF _ assms(1), of io c q reader ct] by auto
      from run [OF this] show ?thesis by (intro both [OF 1]) simp
    next
      case res_t: (Inr t)
      have 2: "conn_step io net h p (sv_shared s) (Reading c) st2 (Serving c t q reader)"
        using x Inr qr res res_t conn_step.picks [OF _ assms(1), of io c q reader ct] by auto
      have 3: "conn_step io net h p st2 (Serving c t q reader) st' (Done c out)"
        using x Inr qr res res_t conn_step.serves [of io net h p st2 c t q reader] by auto
      show ?thesis using both [OF 1 run [OF 2]] run [OF 3] by simp
    qed
  qed
qed

section \<open>A run\<close>

lemma sample_request: "\<exists>reader. request_phase br_io short_conn = Some (Inr (Tunnel ''h'' 443, reader))"
  using sample_eof sample_first
  by (simp add: request_phase_def connect_request_def br_io_def br_read_line_def discard_headers.simps
      parse_connect_def parse_host_port_def eq_ignore_ascii_case_def text_eval ascii_upper_def)

definition idle_server :: "(router, (conn, bufreader, string) conn_task) server" where
  "idle_server = \<lparr>sv_error = None, sv_shared = RandomRouter, sv_tasks = []\<rparr>"

lemma idle_server_run: "proxy_server_run Inr Inr (proxy_server_new addr) RandomRouter = Inr idle_server"
  by (simp add: proxy_server_run_def start_loop_def idle_server_def)

text \<open>Two agents connect; the second one is served while the first has not sent its request.\<close>

lemma sample_run:
  assumes "h 0 = Socks5 (socks5_new a l)"
  shows "\<exists>s agent tunnel. proxy_steps br_io sink_net h (pool_new [0]) idle_server s
     \<and> sv_tasks s = [Reading other, Done short_conn (Finished agent tunnel)] \<and> sv_error s = None"
proof -
  let ?step = "accept_step Reading (conn_step br_io sink_net h (pool_new [0])) (\<lambda>_ _. False) task_aborts"
  let ?s = "\<lambda>ts. idle_server\<lparr>sv_tasks := ts\<rparr>" and ?t = "Socks5 (socks5_new a l)"
  obtain reader where req: "request_phase br_io short_conn = Some (Inr (Tunnel ''h'' 443, reader))"
    using sample_request by blast
  have pick: "main_picker (\<lambda>xs. case xs of [] \<Rightarrow> None | x # _ \<Rightarrow> Some x) False h (pool_new [0]) RandomRouter ''h'' 443
      = (Inr ?t, RandomRouter)"
    using assms by (simp add: main_picker_def picker_def pool_defs random_pick_def router_healthy_def socks5_new_def)
  obtain agent tunnel where serve: "serve_phase br_io sink_net ?t (Tunnel ''h'' 443) reader = Finished agent tunnel"
    by (simp add: serve_phase_def sink_socks5 br_io_def)
  have alive: "\<not> aborted task_aborts (?s ts)" if "ts \<in> {[], [Reading other], [Reading other, Reading short_conn],
      [Reading other, Serving short_conn ?t (Tunnel ''h'' 443) reader]}" for ts
    using that by (auto simp: aborted_def)
  have 1: "?step idle_server (?s [Reading other])"
    using accepts [OF alive, of "[]"] by (simp add: idle_server_def)
  have 2: "?step (?s [Reading other]) (?s [Reading other, Reading short_conn])"
    using accepts [OF alive, of "[Reading other]"] by (simp add: idle_server_def)
  have picked: "conn_step br_io sink_net h (pool_new [0]) RandomRouter (Reading short_conn) RandomRouter
      (Serving short_conn ?t (Tunnel ''h'' 443) reader)"
    by (rule conn_step.picks [OF req choose_ok_exists, of False]) (simp add: pick)
  have served: "conn_step br_io sink_net h (pool_new [0]) RandomRouter (Serving short_conn ?t (Tunnel ''h'' 443) reader)
      RandomRouter (Done short_conn (Finished agent tunnel))"
    unfolding serve [symmetric] by (rule conn_step.serves)
  have 3: "?step (?s [Reading other, Reading short_conn]) (?s [Reading other, Serving short_conn ?t (Tunnel ''h'' 443) reader])"
    using task_runs [OF alive, of "[Reading other, Reading short_conn]" 1
        "conn_step br_io sink_net h (pool_new [0])" RandomRouter "Serving short_conn ?t (Tunnel ''h'' 443) reader"] picked
    by (simp add: idle_server_def)
  have 4: "?step (?s [Reading other, Serving short_conn ?t (Tunnel ''h'' 443) reader])
      (?s [Reading other, Done short_conn (Finished agent tunnel)])"
    using task_runs [OF alive, of "[Reading other, Serving short_conn ?t (Tunnel ''h'' 443) reader]" 1
        "conn_step br_io sink_net h (pool_new [0])" RandomRouter "Done short_conn (Finished agent tunnel)"] served
    by (simp add: idle_server_def)
  have "?step\<^sup>*\<^sup>* idle_server (?s [Reading other, Done short_conn (Finished agent tunnel)])"
    using 1 2 3 4 by (meson converse_rtranclp_into_rtranclp rtranclp.rtrancl_refl)
  then show ?thesis by (fastforce simp: idle_server_def)
qed

section \<open>Properties\<close>

lemma proxy_server_run_init:
  "proxy_server_run bind local_addr server st = Inr s \<Longrightarrow> s = \<lparr>sv_error = None, sv_shared = st, sv_tasks = []\<rparr>"
  by (auto simp: proxy_server_run_def start_loop_def res_simps split: prod.splits)

lemma reachable_explained:
  assumes "proxy_server_run bind local_addr server st0 = Inr s0" "proxy_steps io net h p s0 s"
  shows "explained io net h p st0 (sv_shared s) (sv_tasks s)"
proof (rule proxy_tasks.steps_good [OF assms(2)])
  show "explained io net h p st0 (sv_shared s0) (sv_tasks s0)"
    using proxy_server_run_init [OF assms(1)] sequential.none by (fastforce simp: explained_def)
qed

text \<open>
  C3. The concurrent server implements the sequential one: whatever the order in which the
  tasks of the accepted connections are interleaved, there is a sequence of whole connections,
  each handled from its first byte to its end by one call of \<open>handle_connection\<close> before the
  next begins, that leaves the router in the same state and gives every finished connection
  the same outcome; every connection occurs in it at most once, and exactly when its task has
  passed the pick or has failed.
\<close>

theorem server_linearizable:
  assumes "proxy_server_run bind local_addr server st0 = Inr s0" "proxy_steps io net h p s0 s"
  shows "\<exists>log. sequential io net h p st0 log (sv_shared s) \<and> distinct (map fst log)
     \<and> (\<forall>i < length (sv_tasks s). logged io net log i (sv_tasks s ! i))"
  using reachable_explained [OF assms] by (auto simp: explained_def)

theorem server_linearizable_witness:
  "\<exists>(s :: (router, (conn, bufreader, string) conn_task) server) agent tunnel log.
     sv_tasks s = [Reading (sample_conn []), Done short_conn (Finished agent tunnel)]
     \<and> sequential br_io sink_net (\<lambda>_. Socks5 (socks5_new ''a'' ''l'')) (pool_new [0]) RandomRouter log (sv_shared s)
     \<and> logged br_io sink_net log 1 (Done short_conn (Finished agent tunnel))"
proof -
  let ?h = "\<lambda>_::nat. Socks5 (socks5_new ''a'' ''l'')"
  obtain s agent tunnel where s: "proxy_steps br_io sink_net ?h (pool_new [0]) idle_server s"
    "sv_tasks s = [Reading (sample_conn []), Done short_conn (Finished agent tunnel)]"
    using sample_run [of ?h] by blast
  from server_linearizable [OF idle_server_run s(1)] obtain log where
    "sequential br_io sink_net ?h (pool_new [0]) RandomRouter log (sv_shared s)"
    "\<forall>i < length (sv_tasks s). logged br_io sink_net log i (sv_tasks s ! i)" by blast
  moreover from this(2) have "logged br_io sink_net log 1 (Done short_conn (Finished agent tunnel))"
    using s(2) by (auto dest: spec [of _ 1])
  ultimately show ?thesis using s(2) by blast
qed

text \<open>Every entry of a sequential log is a call of the handler with some picker of \<open>main\<close>.\<close>

lemma sequential_entry:
  assumes "sequential io net h p st0 log st" "(i, c, out) \<in> set log"
  shows "\<exists>chooser contended st1 st2. choose_ok chooser
     \<and> handle_connection io net (main_picker chooser contended h p) st1 c = Some (out, st2)"
  using assms by (induction rule: sequential.induct) auto

lemma main_picker_Inr:
  assumes "choose_ok chooser" "fst (main_picker chooser contended h p router host port) = Inr t"
  shows "\<exists>r \<in> set (pool_all p). healthy (h r) \<and> t = h r"
proof -
  obtain r where r: "fst (picker chooser contended h p router) = Inr r" "t = h r"
    using assms(2) by (auto simp: main_picker_def split: prod.splits sum.splits)
  have "r \<in> set (healthy_transports_sync h p contended) \<and> healthy (h r)"
    using router_iface.pick_healthy [OF pick_router_iface [OF assms(1)]] r(1) unfolding picker_def by blast
  then show ?thesis using r(2) by (auto simp: pool_defs split: if_splits)
qed

lemma finished_via_pool:
  assumes "choose_ok chooser"
    and "handle_connection io net (main_picker chooser contended h p) st c = Some (Finished agent tunnel', st')"
  shows "\<exists>line host port r s. fst (rd_read_line io (rd_new io c)) = Inr line
     \<and> requested (trim_end line) = Inr (host, port)
     \<and> r \<in> set (pool_all p) \<and> healthy (h r) \<and> connect net (h r) host port = Inr s"
proof -
  obtain line host port t s where "fst (rd_read_line io (rd_new io c)) = Inr line"
    "requested (trim_end line) = Inr (host, port)"
    "fst (main_picker chooser contended h p st host port) = Inr t" "connect net t host port = Inr s"
    using finished_via_transport [OF assms(2)] by blast
  then show ?thesis using main_picker_Inr [OF assms(1)] by blast
qed

lemma finished_in_run:
  assumes "proxy_server_run tcp_bind local_addr server st0 = Inr s0" "proxy_steps io net h p s0 s"
    and "Done c (Finished agent tunnel') \<in> set (sv_tasks s)"
  shows "\<exists>line host port r stream. fst (rd_read_line io (rd_new io c)) = Inr line
     \<and> requested (trim_end line) = Inr (host, port)
     \<and> r \<in> set (pool_all p) \<and> healthy (h r) \<and> connect net (h r) host port = Inr stream"
proof -
  obtain log where seq: "sequential io net h p st0 log (sv_shared s)"
    and logs: "\<forall>i < length (sv_tasks s). logged io net log i (sv_tasks s ! i)"
    using reachable_explained [OF assms(1,2)] by (auto simp: explained_def)
  obtain i where "i < length (sv_tasks s)" "sv_tasks s ! i = Done c (Finished agent tunnel')"
    using assms(3) by (auto simp: in_set_conv_nth)
  then have "(i, c, Finished agent tunnel') \<in> set log" using logs by force
  from sequential_entry [OF seq this] show ?thesis using finished_via_pool by metis
qed

text \<open>
  C1. End to end, an agent is only ever served through the configured tunnels: in every run of
  the proxy that \<open>main\<close> sets up from a configuration, with any number of concurrent agents, a
  connection that was carried to its end began with a request line for some host and port, and
  a healthy transport of the pool, built from a SOCKS5, HTTP proxy or Tor tunnel of the
  configuration, connected to that destination.
\<close>

theorem agents_served_by_pool:
  assumes "prepare_proxy ft tor parse_addr config = Inr prx"
    and "proxy_server_run bind local_addr (proxy_server_new (rn_addr prx)) (rn_router prx) = Inr s0"
    and "proxy_steps io net (rn_heap prx) (rn_pool prx) s0 s"
    and "Done c (Finished agent tunnel') \<in> set (sv_tasks s)"
  shows "\<exists>line host port r stream. fst (rd_read_line io (rd_new io c)) = Inr line
     \<and> requested (trim_end line) = Inr (host, port)
     \<and> r \<in> set (pool_all (rn_pool prx)) \<and> healthy (rn_heap prx r)
     \<and> (\<exists>tunnel \<in> set (cfg_tunnel config).
          starts_healthy tunnel \<and> rn_heap prx r \<in> set (build_transport ft tor tunnel))
     \<and> connect net (rn_heap prx r) host port = Inr stream"
  using finished_in_run [OF assms(2-4)] prepare_proxy_member [OF assms(1)] build_transport_healthy by meson

theorem agents_served_by_pool_witness:
  "\<exists>prx c line host port r stream.
     prepare_proxy sample_features sample_tor Some (from_tunnel_urls [''socks5://a:1'']) = Inr prx
     \<and> fst (rd_read_line br_io (rd_new br_io c)) = Inr line \<and> requested (trim_end line) = Inr (host, port)
     \<and> r \<in> set (pool_all (rn_pool prx)) \<and> healthy (rn_heap prx r)
     \<and> connect sink_net (rn_heap prx r) host port = Inr stream"
proof -
  obtain prx where prx: "prepare_proxy sample_features sample_tor Some (from_tunnel_urls [''socks5://a:1'']) = Inr prx"
    and heap: "rn_heap prx 0 = Socks5 (socks5_new ''a:1'' ''cli-0'')" and pool: "rn_pool prx = pool_new [0]"
    and router: "rn_router prx = RandomRouter"
    using sample_prepare by simp
  obtain s agent tunnel where s: "proxy_steps br_io sink_net (rn_heap prx) (rn_pool prx) idle_server s"
    "sv_tasks s = [Reading (sample_conn []), Done short_conn (Finished agent tunnel)]"
    using sample_run [of "rn_heap prx", OF heap] pool by metis
  have "Done short_conn (Finished agent tunnel) \<in> set (sv_tasks s)" using s(2) by simp
  moreover have "proxy_server_run Inr Inr (proxy_server_new (rn_addr prx)) (rn_router prx) = Inr idle_server"
    unfolding router by (rule idle_server_run)
  ultimately show ?thesis using agents_served_by_pool [OF prx _ s(1)] prx by blast
qed

fun serving_ok :: "theap \<Rightarrow> pool \<Rightarrow> ('a, 'r, 's) conn_task \<Rightarrow> bool" where
  "serving_ok h p (Serving c t q reader) = (\<exists>r \<in> set (pool_all p). healthy (h r) \<and> t = h r)"
| "serving_ok h p _ = True"

lemma conn_step_serving_ok:
  assumes "conn_step io net h p st t st' t'"
  shows "serving_ok h p t'"
  using assms
proof cases
  case (picks c q reader chooser contended tr)
  then have "fst (main_picker chooser contended h p st (req_host q) (req_port q)) = Inr tr" by simp
  from main_picker_Inr [OF _ this] picks show ?thesis by simp
qed simp_all

interpretation serving_tasks: task_system Reading "conn_step io net h p" "\<lambda>_ _. False" task_aborts
  "\<lambda>_. list_all (serving_ok h p)" for io net h p
proof
  fix sh ts i sh' t
  assume "list_all (serving_ok h p) ts" "i < length ts" "conn_step io net h p sh (ts ! i) sh' t"
  moreover from this(3) have "serving_ok h p t"
    by (rule conn_step_serving_ok)
  ultimately show "list_all (serving_ok h p) (ts[i := t])"
    by (auto simp: list_all_iff dest!: subsetD [OF set_update_subset_insert])
qed auto

lemma unserved_connection:
  assumes "choose_ok chooser" "healthy_transports h p = []"
    and "reads_only io sent"
    and "handle_connection io net (main_picker chooser contended h p) router stream = Some (out, router')"
  shows "\<exists>e reader. out = Proxy_Server.Failed e reader \<and> sent reader = sent (rd_new io stream)"
proof -
  let ?pick = "main_picker chooser contended h p"
  have none: "\<not> (\<exists>host port t. fst (?pick router host port) = Inr t)"
    using main_picker_Inr [OF assms(1)] assms(2) by (fastforce simp: pool_defs filter_empty_conv)
  show ?thesis
  proof (cases out)
    case (Finished agent tunnel')
    from finished_via_transport [OF assms(4) [unfolded this]] none show ?thesis by blast
  next
    case (Failed e reader)
    then have "sent reader = sent (rd_new io stream)"
      using failed_reply_via_transport [OF assms(3) assms(4) [unfolded Failed]] none by blast
    then show ?thesis using Failed by blast
  next
    case Aborted
    from aborted_via_transport [OF assms(4) [unfolded this]] none show ?thesis by blast
  qed
qed

text \<open>
  C2. Without a healthy tunnel nothing leaks: when no transport of the pool is healthy, no
  transport is asked to connect in any run of the server, however many agents there are and
  whatever they send; every connection that ends has failed, and its agent was sent nothing.
\<close>

theorem no_tunnel_no_service:
  assumes "healthy_transports h p = []" "reads_only io sent"
    and "proxy_server_run bind local_addr server st0 = Inr s0" "proxy_steps io net h p s0 s"
  shows "list_all (\<lambda>t. (\<forall>c tr q reader. t \<noteq> Serving c tr q reader)
     \<and> (\<forall>c out. t = Done c out \<longrightarrow>
          (\<exists>e reader. out = Proxy_Server.Failed e reader \<and> sent reader = sent (rd_new io c)))) (sv_tasks s)"
proof -
  obtain log where seq: "sequential io net h p st0 log (sv_shared s)"
    and logs: "\<forall>i < length (sv_tasks s). logged io net log i (sv_tasks s ! i)"
    using reachable_explained [OF assms(3,4)] by (auto simp: explained_def)
  have failed: "\<exists>e reader. out = Proxy_Server.Failed e reader \<and> sent reader = sent (rd_new io c)"
    if "i < length (sv_tasks s)" "sv_tasks s ! i = Done c out" for i c out
  proof -
    have "(i, c, out) \<in> set log" using logs that by force
    from sequential_entry [OF seq this] show ?thesis using unserved_connection [OF _ assms(1,2)] by blast
  qed
  have "list_all (serving_ok h p) (sv_tasks s)"
    using serving_tasks.steps_good [OF assms(4)] proxy_server_run_init [OF assms(3)] by simp
  moreover have "\<not> serving_ok h p (Serving c tr q reader)" for c tr q reader
    using assms(1) by (auto simp: pool_defs filter_empty_conv)
  ultimately have "sv_tasks s ! i \<noteq> Serving c tr q reader" if "i < length (sv_tasks s)" for i c tr q reader
    using that by (metis list_all_length)
  then show ?thesis using failed by (auto simp: list_all_length)
qed

theorem no_tunnel_no_service_witness:
  "\<exists>s. proxy_steps br_io sink_net sample_heap (pool_new []) idle_server s
     \<and> (\<exists>e reader. sv_tasks s = [Done short_conn (Proxy_Server.Failed e reader)]
          \<and> cn_sent (br_inner reader) = cn_sent (br_inner (rd_new br_io short_conn)))"
proof -
  let ?first = "\<lambda>xs. case xs of [] \<Rightarrow> None | x # _ \<Rightarrow> Some x"
  obtain reader where req: "request_phase br_io short_conn = Some (Inr (Tunnel ''h'' 443, reader))"
    using sample_request by blast
  have "main_picker ?first False sample_heap (pool_new []) RandomRouter ''h'' 443 = (Inl NoHealthyTunnels, RandomRouter)"
    by (simp add: main_picker_def picker_def pool_defs random_pick_def router_healthy_def)
  then have fails: "conn_step br_io sink_net sample_heap (pool_new []) RandomRouter (Reading short_conn)
      RandomRouter (Done short_conn (Proxy_Server.Failed NoHealthyTunnels reader))"
    by (intro conn_step.pick_fails [OF req choose_ok_exists, of False]) simp
  let ?s1 = "idle_server\<lparr>sv_tasks := [Reading short_conn]\<rparr>"
  let ?s2 = "idle_server\<lparr>sv_tasks := [Done short_conn (Proxy_Server.Failed NoHealthyTunnels reader)]\<rparr>"
  let ?step = "accept_step Reading (conn_step br_io sink_net sample_heap (pool_new [])) (\<lambda>_ _. False) task_aborts"
  have "?step idle_server ?s1"
    using accepts [of task_aborts idle_server] by (simp add: aborted_def idle_server_def)
  moreover have "?step ?s1 ?s2"
    using task_runs [of task_aborts ?s1 0 "conn_step br_io sink_net sample_heap (pool_new [])" RandomRouter
        "Done short_conn (Proxy_Server.Failed NoHealthyTunnels reader)"] fails
    by (simp add: aborted_def idle_server_def)
  ultimately have run: "proxy_steps br_io sink_net sample_heap (pool_new []) idle_server ?s2"
    by (meson converse_rtranclp_into_rtranclp r_into_rtranclp)
  have "healthy_transports sample_heap (pool_new []) = []" by (simp add: pool_defs)
  from no_tunnel_no_service [OF this br_reads_only idle_server_run run] show ?thesis using run by auto
qed

text \<open>The agent's stream that a task was accepted with.\<close>

fun conn_of :: "('a, 'r, 's) conn_task \<Rightarrow> 'a" where
  "conn_of (Reading c) = c"
| "conn_of (Serving c t q reader) = c"
| "conn_of (Done c out) = c"

end
