(* ===== verification/Program.thy ===== *)
theory Program
  imports Server Import_Cfg Docker
begin

text \<open>
  The whole program, from the command line to its exit (\<open>main\<close> in \<open>src/src/main.rs\<close>): what
  \<open>Main_Bin.main\<close> decides to do is done by the importers, the Docker commands or the proxy
  server, which runs until an interrupt, a failure of the listener or an abort. The host's
  state \<open>'w\<close> is changed by the importers and the Docker commands only.
\<close>

record ('addr, 'l, 'a, 'r, 's, 'w) system =
  sy_features :: features
  sy_tor :: "tunnel_config \<Rightarrow> (string + nat) \<times> (nat \<Rightarrow> nat)"
  sy_parse_addr :: "string \<Rightarrow> 'addr option"
  sy_toml :: "string \<Rightarrow> string + config"
  sy_import :: "'w import_ops"
  sy_host :: "'w host_ops"
  sy_yaml :: "compose_file \<Rightarrow> string"
  sy_bind :: "'addr \<Rightarrow> string + 'l"
  sy_local_addr :: "'l \<Rightarrow> string + 'addr"
  sy_io :: "('a, 'r, 's) proxy_io"
  sy_net :: "'s net_ops"

datatype exit = Exit_ok | Exit_error string | Process_abort

fun exit_of :: "string + unit \<Rightarrow> exit" where
  "exit_of (Inr _) = Exit_ok"
| "exit_of (Inl e) = Exit_error e"

text \<open>
  The end of \<open>main\<close>: the server races with Ctrl+C. \<open>serves sy prx agents x\<close> holds of the ways
  \<open>x\<close> in which the race can end when \<open>agents\<close> are the connections accepted until then.
\<close>

inductive serves ::
  "('addr, 'l, 'a, 'r, 's, 'w) system \<Rightarrow> 'addr proxy_run \<Rightarrow> 'a list \<Rightarrow> exit \<Rightarrow> bool" for sy prx where
  not_bound: "proxy_server_run (sy_bind sy) (sy_local_addr sy) (proxy_server_new (rn_addr prx)) (rn_router prx)
      = (Inl e :: error + (router, ('a, 'r, 's) conn_task) server) \<Longrightarrow>
    serves sy prx [] (Exit_error ''proxy server error'')"
| interrupted: "proxy_server_run (sy_bind sy) (sy_local_addr sy) (proxy_server_new (rn_addr prx)) (rn_router prx) = Inr s0 \<Longrightarrow>
    proxy_steps (sy_io sy) (sy_net sy) (rn_heap prx) (rn_pool prx) s0 s \<Longrightarrow>
    \<not> aborted task_aborts s \<Longrightarrow> sv_error s = None \<Longrightarrow> serves sy prx (map conn_of (sv_tasks s)) Exit_ok"
| accept_failed: "proxy_server_run (sy_bind sy) (sy_local_addr sy) (proxy_server_new (rn_addr prx)) (rn_router prx) = Inr s0 \<Longrightarrow>
    proxy_steps (sy_io sy) (sy_net sy) (rn_heap prx) (rn_pool prx) s0 s \<Longrightarrow>
    sv_error s = Some e \<Longrightarrow> serves sy prx (map conn_of (sv_tasks s)) (Exit_error ''proxy server error'')"
| task_aborted: "proxy_server_run (sy_bind sy) (sy_local_addr sy) (proxy_server_new (rn_addr prx)) (rn_router prx) = Inr s0 \<Longrightarrow>
    proxy_steps (sy_io sy) (sy_net sy) (rn_heap prx) (rn_pool prx) s0 s \<Longrightarrow>
    aborted task_aborts s \<Longrightarrow> serves sy prx (map conn_of (sv_tasks s)) Process_abort"

inductive_cases servesE: "serves sy prx agents x"

text \<open>What an action does to the host and how the process ends; only the proxy has agents.\<close>

inductive performs ::
  "('addr, 'l, 'a, 'r, 's, 'w) system \<Rightarrow> 'addr action \<Rightarrow> 'w \<Rightarrow> 'a list \<Rightarrow> exit \<Rightarrow> 'w \<Rightarrow> bool" for sy where
  nord: "import_nord (sy_import sy) w token n countries out = (res, w') \<Longrightarrow>
    performs sy (Import_nord token n countries out) w [] (exit_of res) w'"
| ssh: "import_ssh (sy_import sy) w host user ports out st = (res, w') \<Longrightarrow>
    performs sy (Import_ssh host user ports out st) w [] (exit_of res) w'"
| docker_start: "Docker.start (sy_host sy) (sy_yaml sy) cfg tok port strat no_wait w = Some (res, w') \<Longrightarrow>
    performs sy (Docker_start cfg tok port strat no_wait) w [] (exit_of res) w'"
| docker_stop: "Docker.stop (sy_host sy) w = Some (res, w') \<Longrightarrow> performs sy Docker_stop w [] (exit_of res) w'"
| proxy: "serves sy prx agents x \<Longrightarrow> performs sy (Serve prx) w agents x w"

inductive_cases performs_serveE: "performs sy (Serve prx) w agents x w'"
inductive_cases performs_startE: "performs sy (Docker_start cfg tok port strat no_wait) w agents x w'"

definition decide ::
  "('addr, 'l, 'a, 'r, 's, 'w) system \<Rightarrow> files \<Rightarrow> env \<Rightarrow> string + string \<Rightarrow> cli \<Rightarrow> (string + 'addr action) option" where
  "decide sy fs e cwd c = main (sy_features sy) (sy_tor sy) (sy_parse_addr sy) fs (sy_toml sy) e cwd c"

inductive program ::
  "('addr, 'l, 'a, 'r, 's, 'w) system \<Rightarrow> files \<Rightarrow> env \<Rightarrow> string + string \<Rightarrow> cli \<Rightarrow> 'w \<Rightarrow> 'a list \<Rightarrow> exit \<Rightarrow> 'w \<Rightarrow> bool"
  for sy fs e cwd c where
  panics: "decide sy fs e cwd c = None \<Longrightarrow> program sy fs e cwd c w [] Process_abort w"
| fails: "decide sy fs e cwd c = Some (Inl msg) \<Longrightarrow> program sy fs e cwd c w [] (Exit_error msg) w"
| acts: "decide sy fs e cwd c = Some (Inr act) \<Longrightarrow> performs sy act w agents x w' \<Longrightarrow> program sy fs e cwd c w agents x w'"

inductive_cases programE: "program sy fs e cwd c w agents x w'"

section \<open>A system for evaluating\<close>

text \<open>A host without a network and with a file system that refuses every write.\<close>

definition offline :: "'w import_ops" where
  "offline = \<lparr>http_get = (\<lambda>w url auth. (Inl ''offline'', w)), show_status = show_nat,
     json_credentials = (\<lambda>_. Inl ''bad''), json_servers = (\<lambda>_. Inl ''bad''), file_exists = (\<lambda>w path. False),
     open_append = (\<lambda>w path. Inl ''denied''), append_text = (\<lambda>w path text. (Inl ''denied'', w)),
     write_text = (\<lambda>w path text. (Inl ''denied'', w)), ssh_status = (\<lambda>w args. (Inl ''offline'', w))\<rparr>"

definition sample_system :: "(string, unit, conn, bufreader, string, nat) system" where
  "sample_system =
     \<lparr>sy_features = sample_features, sy_tor = sample_tor, sy_parse_addr = Some, sy_toml = (\<lambda>_. Inl ''bad''),
      sy_import = offline, sy_host = sample_host [], sy_yaml = (\<lambda>_. []), sy_bind = (\<lambda>_. Inr ()),
      sy_local_addr = (\<lambda>_. Inr default_listen), sy_io = br_io, sy_net = sink_net\<rparr>"

definition sample_cli :: cli where
  "sample_cli = \<lparr>cli_command = None, cli_config = ''houdinny.toml'', cli_listen = None,
     cli_tunnels = Some [''socks5://a:1''], cli_strategy = ''random'', cli_verbose = False\<rparr>"

lemma sample_decide:
  "\<exists>prx. decide sample_system (\<lambda>_. None) Map.empty (Inr ''/'') sample_cli = Some (Inr (Serve prx))
     \<and> rn_heap prx 0 = Socks5 (socks5_new ''a:1'' ''cli-0'') \<and> rn_pool prx = pool_new [0] \<and> rn_router prx = RandomRouter"
proof -
  have rnd: "strategy_from_name ''random'' = Inr Random" by code_simp
  show ?thesis
    by (simp add: decide_def main_def dispatch_def proxy_run_config_def sample_cli_def sample_system_def rnd
        dotenv_text_def load_dotenv_def prepare_proxy_def build_transports_concat from_tunnel_urls_def tunnel_of_url_def
        parse_tunnel_url_def build_transport_def label_of_def sample_features_def show_nat.simps Let_def)
qed

section \<open>Aborts\<close>

text \<open>A declared length for whose buffer the process cannot get the memory.\<close>

definition fatal_length :: "('a, 'r, 's) proxy_io \<Rightarrow> usize \<Rightarrow> bool" where
  "fatal_length io n = (n > 0 \<and> (unat n > isize_max \<or> \<not> alloc_ok io (unat n)))"

lemma forward_body_aborts_iff: "forward_body io net n reader s = None \<longleftrightarrow> fatal_length io n"
  by (auto simp: forward_body_def fatal_length_def Let_def split: prod.split sum.split)

text \<open>The head of the request as it is sent through the tunnel.\<close>

definition request_head :: "string \<Rightarrow> string \<Rightarrow> string list \<Rightarrow> string list" where
  "request_head m path hs = (m @ '' '' @ path @ '' HTTP/1.1'' @ crlf) # hs @ [crlf]"

lemma serve_phase_aborts_iff:
  "serve_phase io net t q reader = Aborted \<longleftrightarrow>
     (\<exists>m host port path hs n s s'. q = Forward m host port path hs n \<and> fatal_length io n
        \<and> connect net t host port = Inr s \<and> write_list net s (request_head m path hs) = Inr s')"
proof (cases q)
  case (Tunnel host port)
  then show ?thesis by (auto simp: serve_phase_def Let_def split: sum.split prod.split)
next
  case (Forward m host port path hs n)
  show ?thesis
  proof (cases "connect net t host port")
    case (Inr s)
    then show ?thesis
      using forward_body_aborts_iff [of io net n reader]
      by (cases "write_list net s (request_head m path hs)")
        (auto simp: Forward serve_phase_def request_head_def Let_def split: sum.split prod.split option.split)
  qed (simp add: Forward serve_phase_def)
qed

lemma handle_connection_aborts_iff:
  "handle_connection io net pickf st c = Some (Aborted, st') \<longleftrightarrow>
     (\<exists>m host port path hs n reader t s s'. request_phase io c = Some (Inr (Forward m host port path hs n, reader))
        \<and> fatal_length io n \<and> pickf st host port = (Inr t, st')
        \<and> connect net t host port = Inr s \<and> write_list net s (request_head m path hs) = Inr s')"
  (is "?l \<longleftrightarrow> ?r")
proof
  assume ?l
  then obtain q reader t where "request_phase io c = Some (Inr (q, reader))"
    "pickf st (req_host q) (req_port q) = (Inr t, st')" "serve_phase io net t q reader = Aborted"
    by (auto simp: handle_connection_split phases_def elim!: after_request.elims split: prod.splits sum.splits)
  then show ?r unfolding serve_phase_aborts_iff by fastforce
next
  assume ?r
  then obtain q reader t where q: "request_phase io c = Some (Inr (q, reader))"
    "pickf st (req_host q) (req_port q) = (Inr t, st')" "serve_phase io net t q reader = Aborted"
    unfolding serve_phase_aborts_iff by fastforce
  then show ?l by (simp add: handle_connection_split phases_def)
qed

lemma server_aborts:
  assumes "proxy_server_run bind local_addr server st0 = Inr s0" "proxy_steps io net h p s0 s" "aborted task_aborts s"
  shows "\<exists>c m host port path hs n reader. c \<in> set (map conn_of (sv_tasks s))
     \<and> request_phase io c = Some (Inr (Forward m host port path hs n, reader)) \<and> fatal_length io n"
proof -
  obtain i c where i: "i < length (sv_tasks s)" "sv_tasks s ! i = Done c Aborted"
    using assms(3) by (auto simp: aborted_def list_ex_iff in_set_conv_nth elim!: task_aborts.elims)
  obtain log where seq: "sequential io net h p st0 log (sv_shared s)" and "logged io net log i (sv_tasks s ! i)"
    using reachable_explained [OF assms(1,2)] i(1) by (auto simp: explained_def)
  then have "(i, c, Aborted) \<in> set log" using i(2) by simp
  moreover have "c \<in> set (map conn_of (sv_tasks s))" using i by (metis conn_of.simps(3) length_map nth_map nth_mem)
  moreover obtain ch ct st st' where "handle_connection io net (main_picker ch ct h p) st c = Some (Aborted, st')"
    using sequential_entry [OF seq calculation(1)] by blast
  ultimately show ?thesis unfolding handle_connection_aborts_iff by blast
qed

lemma huge_body_kills_program:
  assumes "decide sy fs e cwd c = Some (Inr (Serve prx))"
    and "sy_bind sy (rn_addr prx) = Inr l" "sy_local_addr sy l = Inr addr" "choose_ok ch"
    and "handle_connection (sy_io sy) (sy_net sy) (main_picker ch ct (rn_heap prx) (rn_pool prx)) (rn_router prx) agent
      = Some (Aborted, st')"
  shows "program (sy :: ('addr, 'l, 'a, 'r, 's, 'w) system) fs e cwd c w [agent] Process_abort w"
proof -
  define s0 where "s0 = (\<lparr>sv_error = None, sv_shared = rn_router prx, sv_tasks = []\<rparr> :: (router, ('a, 'r, 's) conn_task) server)"
  have run: "proxy_server_run (sy_bind sy) (sy_local_addr sy) (proxy_server_new (rn_addr prx)) (rn_router prx) = Inr s0"
    using assms(2,3) by (simp add: proxy_server_run_def proxy_server_new_def start_loop_def s0_def)
  have "proxy_steps (sy_io sy) (sy_net sy) (rn_heap prx) (rn_pool prx) s0
      (s0\<lparr>sv_shared := st', sv_tasks := sv_tasks s0 @ [Done agent Aborted]\<rparr>)"
    by (rule connection_runs [OF assms(4)]) (use assms(5) in \<open>simp_all add: s0_def aborted_def\<close>)
  from task_aborted [OF run this] have "serves sy prx [agent] Process_abort" by (simp add: aborted_def s0_def)
  from acts [OF assms(1) proxy [OF this]] show ?thesis .
qed

text \<open>
  C27. What can bring a serving process down. Started to serve, the program leaves the host as
  it was. It aborts only because of one of the agents it accepted in that run: that agent's own
  request is a plain HTTP one whose header block declares a body longer than \<open>isize::MAX\<close>, or than
  what can be allocated; so agents that send none of these, whatever else they send and in
  whatever order, cannot abort it, and it then ends with success at an interrupt or with the
  error of its listener. Conversely one such agent is enough: if the transport picked for it
  connects and takes the head of the request, the process can abort with no other agent there.
\<close>

theorem proxy_exit_reasons:
  fixes sy :: "('addr, 'l, 'a, 'r, 's, 'w) system"
  assumes "decide sy fs e cwd c = Some (Inr (Serve prx))"
  shows "(\<forall>agents x w'. program sy fs e cwd c w agents x w' \<longrightarrow> w' = w
       \<and> x \<in> {Exit_ok, Exit_error ''proxy server error'', Process_abort}
       \<and> (x = Process_abort \<longrightarrow> (\<exists>agent \<in> set agents. \<exists>m host port path hs n reader.
            request_phase (sy_io sy) agent = Some (Inr (Forward m host port path hs n, reader)) \<and> fatal_length (sy_io sy) n)))
    \<and> (\<forall>agent m host port path hs n reader ch ct t st' s s' l addr.
         request_phase (sy_io sy) agent = Some (Inr (Forward m host port path hs n, reader)) \<and> fatal_length (sy_io sy) n
         \<and> sy_bind sy (rn_addr prx) = Inr l \<and> sy_local_addr sy l = Inr addr \<and> choose_ok ch
         \<and> main_picker ch ct (rn_heap prx) (rn_pool prx) (rn_router prx) host port = (Inr t, st')
         \<and> connect (sy_net sy) t host port = Inr s \<and> write_list (sy_net sy) s (request_head m path hs) = Inr s'
         \<longrightarrow> program sy fs e cwd c w [agent] Process_abort w)"
proof (intro conjI allI impI)
  fix agents x w'
  assume "program sy fs e cwd c w agents x w'"
  then have "performs sy (Serve prx) w agents x w'" using assms by (auto elim: programE)
  then have "w' = w" and x: "serves sy prx agents x" by (auto elim: performs_serveE)
  then show "w' = w" by simp
  show "x \<in> {Exit_ok, Exit_error ''proxy server error'', Process_abort}" using x by cases simp_all
  show "\<exists>agent \<in> set agents. \<exists>m host port path hs n reader.
      request_phase (sy_io sy) agent = Some (Inr (Forward m host port path hs n, reader)) \<and> fatal_length (sy_io sy) n"
    if "x = Process_abort"
    using x
  proof cases
    case (task_aborted s0 s)
    then show ?thesis using server_aborts [OF task_aborted(3-5)] by blast
  qed (use that in simp_all)
next
  fix agent m host port path hs n reader ch ct t st' s s' l addr
  assume one: "request_phase (sy_io sy) agent = Some (Inr (Forward m host port path hs n, reader)) \<and> fatal_length (sy_io sy) n
      \<and> sy_bind sy (rn_addr prx) = Inr l \<and> sy_local_addr sy l = Inr addr \<and> choose_ok ch
      \<and> main_picker ch ct (rn_heap prx) (rn_pool prx) (rn_router prx) host port = (Inr t, st')
      \<and> connect (sy_net sy) t host port = Inr s \<and> write_list (sy_net sy) s (request_head m path hs) = Inr s'"
  then have "handle_connection (sy_io sy) (sy_net sy) (main_picker ch ct (rn_heap prx) (rn_pool prx)) (rn_router prx) agent
      = Some (Aborted, st')"
    unfolding handle_connection_aborts_iff by blast
  then show "program sy fs e cwd c w [agent] Process_abort w"
    using huge_body_kills_program [OF assms] one by blast
qed

lemma sample_huge_aborts:
  assumes "h 0 = Socks5 (socks5_new a l)"
  shows "handle_connection br_io sink_net (main_picker (\<lambda>xs. case xs of [] \<Rightarrow> None | x # _ \<Rightarrow> Some x) False h (pool_new [0]))
     RandomRouter (sample_conn [sample_huge_text]) = Some (Aborted, RandomRouter)"
proof -
  let ?c = "sample_conn [sample_huge_text]"
  let ?pick = "main_picker (\<lambda>xs. case xs of [] \<Rightarrow> None | x # _ \<Rightarrow> Some x) False h (pool_new [0])"
  have new: "br_broken (rd_new br_io ?c) = None" "br_pending (rd_new br_io ?c) = sample_huge_text"
    by (simp_all add: br_io_def br_new_def br_broken_def br_pending_def sample_conn_def)
  have up: "\<not> starts_with (to_uppercase ''POST http://a/x HTTP/1.1'') ''CONNECT ''"
    by (simp add: ascii_upper_def)
  have pick: "?pick RandomRouter host port = (Inr (Socks5 (socks5_new a l)), RandomRouter)" for host port
    using assms by (simp add: main_picker_def picker_def pool_defs random_pick_def router_healthy_def socks5_new_def)
  have conn: "connect sink_net (Socks5 (socks5_new a l)) host port = Inr []" for host port
    by (simp add: sink_socks5)
  note run = huge_content_length_aborts [OF br_io_exact sink_accepts new, where picker = ?pick,
      unfolded sample_huge_parts fst_conv, OF up sample_post_parse pick conn]
  show ?thesis by (rule run) (simp only: sample_huge_length, simp add: isize_max_def)
qed

theorem proxy_exit_reasons_witness:
  "\<exists>agent. program sample_system (\<lambda>_. None) Map.empty (Inr ''/'') sample_cli 0 [agent] Process_abort 0
     \<and> (\<exists>m host port path hs n reader. request_phase br_io agent = Some (Inr (Forward m host port path hs n, reader))
          \<and> fatal_length br_io n)"
proof -
  obtain prx where prx: "decide sample_system (\<lambda>_. None) Map.empty (Inr ''/'') sample_cli = Some (Inr (Serve prx))"
    "rn_heap prx 0 = Socks5 (socks5_new ''a:1'' ''cli-0'')" "rn_pool prx = pool_new [0]" "rn_router prx = RandomRouter"
    using sample_decide by blast
  let ?agent = "sample_conn [sample_huge_text]" and ?first = "\<lambda>xs. case xs of [] \<Rightarrow> None | x # _ \<Rightarrow> Some x"
  have "handle_connection br_io sink_net (main_picker ?first False (rn_heap prx) (pool_new [0])) RandomRouter ?agent
      = Some (Aborted, RandomRouter)" by (rule sample_huge_aborts) (rule prx(2))
  then obtain m host port path hs n reader t s s' where run:
    "request_phase br_io ?agent = Some (Inr (Forward m host port path hs n, reader))" "fatal_length br_io n"
    "main_picker ?first False (rn_heap prx) (pool_new [0]) RandomRouter host port = (Inr t, RandomRouter)"
    "connect sink_net t host port = Inr s" "write_list sink_net s (request_head m path hs) = Inr s'"
    unfolding handle_connection_aborts_iff by blast
  have sys: "sy_io sample_system = br_io" "sy_net sample_system = sink_net"
    "sy_bind sample_system (rn_addr prx) = Inr ()" "sy_local_addr sample_system () = Inr default_listen"
    by (simp_all add: sample_system_def)
  note abort = proxy_exit_reasons [OF prx(1), of 0, THEN conjunct2, unfolded sys(1,2) prx(3,4), rule_format,
      of ?agent m host port path hs n reader "()" default_listen ?first False t RandomRouter s s']
  have "program sample_system (\<lambda>_. None) Map.empty (Inr ''/'') sample_cli 0 [?agent] Process_abort 0"
    by (rule abort) (use run sys(3,4) choose_ok_exists in blast)
  then show ?thesis using run(1,2) by blast
qed

end
