(* ===== verification/Deployment.thy ===== *)
theory Deployment
  imports Generated_Files Program
begin

text \<open>
  The program together with what it leaves behind: an invocation of it writes files, and a later
  one, on the host or in the container that \<open>start-docker\<close> describes, is started from them
  (\<open>src/src/main.rs\<close>, \<open>src/src/docker.rs\<close>, \<open>src/src/import\<close>).
\<close>

section \<open>The files of the Docker stack\<close>

text \<open>
  What is relied on of the host: the current directory stays what it is, a write that succeeds
  sets the content of its file and of no other, and neither the docker commands nor a sleep
  change the files of the project; \<open>content\<close> is those files.
\<close>

definition project_files :: "'w host_ops \<Rightarrow> ('w \<Rightarrow> string \<Rightarrow> string option) \<Rightarrow> string \<Rightarrow> bool" where
  "project_files host content dir =
     ((\<forall>w. current_dir host w = Inr dir)
      \<and> (\<forall>w p t w'. write_file host w p t = (Inr (), w') \<longrightarrow> content w' = (content w)(p \<mapsto> t))
      \<and> (\<forall>w prog args. content (snd (run host w prog args)) = content w)
      \<and> (\<forall>w t. content (sleep host w t) = content w))"

lemma project_run: "project_files host content dir \<Longrightarrow> run host w p a = (x, w') \<Longrightarrow> content w' = content w"
  unfolding project_files_def by (metis snd_conv)

lemma project_sleep: "project_files host content dir \<Longrightarrow> content (sleep host w t) = content w"
  by (simp add: project_files_def)

lemma project_write:
  "project_files host content dir \<Longrightarrow> write_file host w p t = (Inr (), w') \<Longrightarrow> content w' = (content w)(p \<mapsto> t)"
  unfolding project_files_def by blast

lemma poll_vpn_files:
  assumes "project_files host content dir"
  shows "content (snd (poll_vpn host docker i s w)) = content w"
  using project_run [OF assms]
  by (auto simp: poll_vpn_def diagnose_container_def Let_def split: prod.split sum.split)

lemma poll_all_files:
  assumes "project_files host content dir"
  shows "content (snd (poll_all host docker i ss w)) = content w"
proof (induction ss arbitrary: i w)
  case (Cons s ss)
  show ?case using Cons.IH poll_vpn_files [OF assms, of docker i s w] by (simp add: Let_def split: prod.split) (metis snd_conv)
qed simp

lemma wait_loop_files:
  assumes "wait_loop host docker t0 states w = Some y"
  shows "project_files host content dir \<Longrightarrow> content (snd (snd y)) = content w"
proof (rule wait_loop.raw_induct [where P = "\<lambda>host docker t0 states w y. project_files host content dir
      \<longrightarrow> content (snd (snd y)) = content w", OF _ assms, THEN mp])
  fix rec :: "'a host_ops \<Rightarrow> string \<Rightarrow> nat \<Rightarrow> vpn_state list \<Rightarrow> 'a \<Rightarrow> ((string + unit) \<times> vpn_state list \<times> 'a) option"
    and host docker t0 states w y
  assume IH: "\<And>host docker t0 states w y. rec host docker t0 states w = Some y \<Longrightarrow>
      project_files host content dir \<longrightarrow> content (snd (snd y)) = content w"
    and step: "(let (states, w) = poll_all host docker 0 states w;
          connected_count = length (filter is_connected states);
          all_resolved = list_all is_resolved states
      in if all_resolved \<or> elapsed host w - t0 > 180000 then
        let states = map time_out states in
        if connected_count = 0 then Some (Inl no_vpns, states, w)
        else
          let (_, w) = run host w docker [''restart'', ''houdinny''];
              w = sleep host w 2000
          in Some (Inr (), states, w)
      else rec host docker t0 states (sleep host w 5000)) = Some y"
  show "project_files host content dir \<longrightarrow> content (snd (snd y)) = content w"
  proof
    assume files: "project_files host content dir"
    obtain states1 w1 where poll: "poll_all host docker 0 states w = (states1, w1)"
      by (cases "poll_all host docker 0 states w")
    have "content w1 = content w" using poll_all_files [OF files, of docker 0 states w] poll by simp
    then show "content (snd (snd y)) = content w"
      using step poll IH [of host docker t0 states1 "sleep host w1 5000" y] files
      by (auto simp: Let_def project_sleep [OF files] dest: project_run [OF files] split: if_splits prod.splits)
  qed
qed

lemma compose_run_files:
  assumes "project_files host content dir" "compose_run host docker args verb w = (r, w')"
  shows "content w' = content w"
  using assms(2) by (auto simp: compose_run_def dest: project_run [OF assms(1)] split: prod.splits sum.splits if_splits)

lemma then_do_Inr:
  "then_do x f = Some (Inr b, w') \<longleftrightarrow> (\<exists>a w. x = (Inr a, w) \<and> f a w = Some (Inr b, w'))"
  by (auto simp: then_do_def split: prod.splits sum.splits)

lemma write_ctx_files:
  assumes "project_files host content dir" "write_ctx host d name text w = (Inr u, w')"
  shows "content w' = (content w)(d @ ''/'' @ name \<mapsto> text)"
  using assms(2) project_write [OF assms(1)]
  by (cases "write_file host w (d @ ''/'' @ name) text") (auto simp: write_ctx_def Let_def res_simps)

text \<open>After a successful start the project holds the three generated files.\<close>

lemma start_writes:
  assumes "project_files host content dir"
    and "Docker.start host to_yaml cfg tok port strat no_wait w = Some (Inr (), w')"
  defines "countries \<equiv> map vpn_country (dc_vpn cfg)"
  shows "countries \<noteq> []"
    and "content w' (dir @ ''/docker-compose.yml'') = Some (generate_docker_compose to_yaml countries port)"
    and "content w' (dir @ ''/tunnels.docker.toml'') = Some (generate_tunnels_config countries strat port)"
proof -
  note files = assms(1)
  show "countries \<noteq> []" using assms(2) by (auto simp: Docker.start_def countries_def split: if_splits)
  have dirs: "current_dir host v = Inr dir" for v using files by (simp add: project_files_def)
  obtain token docker w0 w1 w2 w3 w4 where
    wrote: "write_ctx host dir ''docker-compose.yml'' (generate_docker_compose to_yaml countries port) w0 = (Inr (), w1)"
      "write_ctx host dir ''.env'' (generate_env token) w1 = (Inr (), w2)"
      "write_ctx host dir ''tunnels.docker.toml'' (generate_tunnels_config countries strat port) w2 = (Inr (), w3)"
    and up: "compose_run host docker [''up'', ''-d'', ''--build''] ''up'' w3 = (Inr (), w4)"
    and wait: "w4 = w' \<or> (\<exists>res states. wait_for_healthy host docker countries w4 = Some (res, states, w'))"
    using assms(2)
    by (auto simp: Docker.start_def write_configs_def then_do_Inr dirs Let_def countries_def [symmetric]
        split: if_splits option.splits)
  have "content w' = content w4"
    using wait wait_loop_files [OF _ files] by (fastforce simp: wait_for_healthy_def)
  also have "\<dots> = content w3" by (rule compose_run_files [OF files up])
  finally have "content w' = (((content w0)(dir @ ''/docker-compose.yml'' \<mapsto> generate_docker_compose to_yaml countries port))
      (dir @ ''/.env'' \<mapsto> generate_env token))(dir @ ''/tunnels.docker.toml'' \<mapsto> generate_tunnels_config countries strat port)"
    using write_ctx_files [OF files wrote(1)] write_ctx_files [OF files wrote(2)] write_ctx_files [OF files wrote(3)] by simp
  then show "content w' (dir @ ''/docker-compose.yml'') = Some (generate_docker_compose to_yaml countries port)"
    "content w' (dir @ ''/tunnels.docker.toml'') = Some (generate_tunnels_config countries strat port)"
    by simp_all
qed

section \<open>Properties\<close>

text \<open>
  The files of a container: a volume of its service in the short syntax binds the file of the
  project it names to a path in the container.
\<close>

definition bind_mounted :: "service \<Rightarrow> string \<Rightarrow> (string \<Rightarrow> string option) \<Rightarrow> files \<Rightarrow> bool" where
  "bind_mounted sv dir project fs =
     list_all (\<lambda>volume. case split_char (CHR '':'') volume of
           source # target # _ \<Rightarrow> fs target = map_option Inr (project (dir @ drop 1 source))
         | _ \<Rightarrow> True)
       (case sv_volumes sv of Some volumes \<Rightarrow> volumes | None \<Rightarrow> [])"

lemma houdinny_mount:
  assumes "bind_mounted (houdinny_service port) dir project fs"
  shows "fs ''/etc/houdinny/tunnels.toml'' = map_option Inr (project (dir @ ''/tunnels.docker.toml''))"
proof -
  have "split_char (CHR '':'') ''./tunnels.docker.toml:/etc/houdinny/tunnels.toml:ro''
      = [''./tunnels.docker.toml'', ''/etc/houdinny/tunnels.toml'', ''ro'']" by code_simp
  then show ?thesis using assms by (simp add: bind_mounted_def houdinny_service_def)
qed

lemma served_by_vpn:
  assumes "proxy_server_run tcp_bind local_addr (proxy_server_new addr) (rn_router prx) = Inr s0"
    and "proxy_steps io net (rn_heap prx) (rn_pool prx) s0 s1" "Done c (Finished agent tunnel) \<in> set (sv_tasks s1)"
    and "pool_all (rn_pool prx) = [0..<length countries]"
    and "\<forall>i < length countries. \<exists>ip. service_ip (compose countries port) (''vpn-'' @ show_nat (i + 1)) = Some ip
           \<and> rn_heap prx i = Socks5 (socks5_new (ip @ '':1080'') (label i))"
  shows "\<exists>line dest p i ip stream. fst (rd_read_line io (rd_new io c)) = Inr line
    \<and> requested (trim_end line) = Inr (dest, p) \<and> i < length countries
    \<and> service_ip (compose countries port) (''vpn-'' @ show_nat (i + 1)) = Some ip
    \<and> socks5_connect net (ip @ '':1080'') dest p = Inr stream"
proof -
  obtain line dest p i stream where "fst (rd_read_line io (rd_new io c)) = Inr line"
    "requested (trim_end line) = Inr (dest, p)" "i \<in> set (pool_all (rn_pool prx))"
    "connect net (rn_heap prx i) dest p = Inr stream"
    using finished_in_run [OF assms(1-3)] by blast
  then show ?thesis using assms(4,5) by (fastforce simp: socks5_connect_to_def socks5_new_def res_simps)
qed


text \<open>A host whose state is its files and whose commands all succeed.\<close>

definition disk_host :: "(string \<rightharpoonup> string) host_ops" where
  "disk_host =
     \<lparr>metadata_ok = (\<lambda>_ _. True),
      run = (\<lambda>w prog args. (Inr \<lparr>po_success = True, po_code = Some 0, po_stdout = [], po_stderr = []\<rparr>, w)),
      current_dir = (\<lambda>_. Inr ''/srv''), write_file = (\<lambda>w p t. (Inr (), w(p \<mapsto> t))), elapsed = (\<lambda>_. 0), sleep = (\<lambda>w _. w)\<rparr>"

definition sample_docker :: docker_config where
  "sample_docker =
     \<lparr>dc_enabled = True, dc_vpn = [\<lparr>vpn_provider = ''nordvpn'', vpn_token = Some ''tok'', vpn_country = ''us''\<rparr>]\<rparr>"

definition sample_project :: "string \<rightharpoonup> string" where
  "sample_project =
     [''/srv/docker-compose.yml'' \<mapsto> generate_docker_compose (\<lambda>_. []) [''us''] 8080, ''/srv/.env'' \<mapsto> generate_env ''tok'',
      ''/srv/tunnels.docker.toml'' \<mapsto> generate_tunnels_config [''us''] ''round-robin'' 8080]"

lemma sample_start:
  "Docker.start disk_host (\<lambda>_. []) sample_docker None 8080 (strategy_display RoundRobin) True Map.empty
     = Some (Inr (), sample_project)"
  by (simp add: Docker.start_def sample_docker_def first_token_def List.map_filter_simps find_docker_def docker_candidates_def
      disk_host_def then_do_def write_configs_def write_ctx_def compose_run_def sample_project_def Let_def)


text \<open>
  C15. Two invocations: after an \<open>import ssh\<close> that exits with success, into a file that was
  absent or that the program could read, the program started on that file serves: it finds the
  file, listens where the old configuration says, routes as the command line says, and its pool
  is the transports of the old configuration followed by one SOCKS5 transport for each imported
  port of the loopback address, in order.
\<close>

theorem import_then_serve:
  assumes "toml_reads (sy_toml sy)" "file_store (sy_import sy) content" "readable (content w output) cfg" "plain_text host"
    and "cli_command c = Some (Import (Ssh host user ports output st))" "program sy fs e cwd c w agents Exit_ok w'"
    and "ft_socks5 (sy_features sy)" "sy_parse_addr sy (pc_listen (cfg_proxy cfg)) = Some addr"
    and "cli_command c' = None" "cli_tunnels c' = None" "cli_listen c' = None" "cli_config c' = output"
    and "strategy_from_name (cli_strategy c') = Inr strategy"
    and "fs' output = map_option Inr (content w' output)" "fs' (dir @ ''/.env'') = None"
  shows "\<exists>prx. decide sy fs' e' (Inr dir) c' = Some (Inr (Serve prx))
    \<and> rn_addr prx = addr \<and> rn_router prx = build_router strategy
    \<and> map (rn_heap prx) (pool_all (rn_pool prx)) = build_transports (sy_features sy) (sy_tor sy) (cfg_tunnel cfg)
        @ map (\<lambda>p. Socks5 (socks5_new (''127.0.0.1:'' @ show_word p) (''ssh-'' @ host @ ''-'' @ show_word p))) ports"
proof -
  have "decide sy fs e cwd c = Some (Inr (Import_ssh host user ports output st))"
    using assms(5,6) by (auto simp: decide_def main_def dispatch_def elim!: programE split: sum.splits)
  then obtain res where "import_ssh (sy_import sy) w host user ports output st = (res, w')" "Exit_ok = exit_of res"
    using assms(6) by (auto elim!: programE performs.cases)
  then have imported: "import_ssh (sy_import sy) w host user ports output st = (Inr (), w')" by (cases res) auto
  let ?new = "cfg\<lparr>cfg_tunnel := cfg_tunnel cfg @ map (ssh_tunnel host) ports\<rparr>"
  let ?socks = "map (\<lambda>p. Socks5 (socks5_new (''127.0.0.1:'' @ show_word p) (''ssh-'' @ host @ ''-'' @ show_word p))) ports"
  obtain doc where stored: "content w' output = Some doc"
    and loads: "config_from_file (sy_toml sy) e' output (Inr doc) = Inr ?new"
    and built: "build_transports (sy_features sy) (sy_tor sy) (cfg_tunnel cfg @ map (ssh_tunnel host) ports)
        = build_transports (sy_features sy) (sy_tor sy) (cfg_tunnel cfg) @ ?socks"
    using ssh_tunnels_loaded [OF assms(1-4) imported assms(7), of e' "sy_tor sy"] by blast
  have "ports \<noteq> []" using imported by (auto simp: import_ssh_def)
  then have ne: "build_transports (sy_features sy) (sy_tor sy) (cfg_tunnel cfg) @ ?socks \<noteq> []" by simp
  let ?config = "?new\<lparr>cfg_proxy := (cfg_proxy ?new)\<lparr>pc_strategy := strategy\<rparr>\<rparr>"
  have run: "proxy_run_config fs' (sy_toml sy) e' c' = Inr ?config"
    using assms(10-14) stored loads
    by (simp add: proxy_run_config_def effective_path_def path_exists_in_def read_file_def Let_def)
  have tunnels: "build_transports (sy_features sy) (sy_tor sy) (cfg_tunnel ?config)
      = build_transports (sy_features sy) (sy_tor sy) (cfg_tunnel cfg) @ ?socks"
    using built by simp
  have addr: "sy_parse_addr sy (pc_listen (cfg_proxy ?config)) = Some addr" using assms(8) by simp
  note prep = prepare_proxy_built [where parse_addr = "sy_parse_addr sy", OF tunnels ne addr]
  have "dotenv_text fs' (dir @ ''/.env'') = None" using assms(15) by (simp add: dotenv_text_def)
  then show ?thesis
    using assms(9) run prep prepare_proxy_members [OF prep] unfolding tunnels
    by (simp add: decide_def main_def dispatch_def load_dotenv_def)
qed

text \<open>A system whose importers work on a map of files, and the two command lines.\<close>

definition import_system :: "(string, unit, conn, bufreader, string, string \<rightharpoonup> string) system" where
  "import_system =
     \<lparr>sy_features = sample_features, sy_tor = sample_tor, sy_parse_addr = Some, sy_toml = fragment_toml,
      sy_import = map_io \<lparr>nordlynx_private_key = []\<rparr> [], sy_host = disk_host, sy_yaml = (\<lambda>_. []),
      sy_bind = (\<lambda>_. Inr ()), sy_local_addr = (\<lambda>_. Inr default_listen), sy_io = br_io, sy_net = sink_net\<rparr>"

definition import_cli :: cli where
  "import_cli = sample_cli\<lparr>cli_command := Some (Import (Ssh ''h'' ''u'' [1080] ''t.toml'' False))\<rparr>"

definition serve_cli :: cli where
  "serve_cli = sample_cli\<lparr>cli_config := ''t.toml'', cli_tunnels := None\<rparr>"

lemma sample_import_run:
  "program import_system (\<lambda>_. None) Map.empty (Inr ''/'') import_cli Map.empty [] Exit_ok
     [''t.toml'' \<mapsto> fresh_config ''ssh'' (ssh_generate_toml ''h'' [1080])]"
proof -
  have "decide import_system (\<lambda>_. None) Map.empty (Inr ''/'') import_cli = Some (Inr (Import_ssh ''h'' ''u'' [1080] ''t.toml'' False))"
    by (simp add: decide_def main_def dispatch_def import_cli_def sample_cli_def dotenv_text_def load_dotenv_def)
  moreover have "import_ssh (sy_import import_system) Map.empty ''h'' ''u'' [1080] ''t.toml'' False
      = (Inr (), [''t.toml'' \<mapsto> fresh_config ''ssh'' (ssh_generate_toml ''h'' [1080])])"
    by (simp add: import_system_def import_ssh_def write_config_def map_io_def)
  from ssh [OF this] have "performs import_system (Import_ssh ''h'' ''u'' [1080] ''t.toml'' False) Map.empty [] Exit_ok
      [''t.toml'' \<mapsto> fresh_config ''ssh'' (ssh_generate_toml ''h'' [1080])]" by simp
  ultimately show ?thesis by (rule acts)
qed

theorem import_then_serve_witness:
  "\<exists>prx. decide import_system [''t.toml'' \<mapsto> Inr (fresh_config ''ssh'' (ssh_generate_toml ''h'' [1080]))] Map.empty
       (Inr ''/'') serve_cli = Some (Inr (Serve prx))
     \<and> rn_addr prx = default_listen \<and> rn_router prx = RandomRouter
     \<and> map (rn_heap prx) (pool_all (rn_pool prx)) = [Socks5 (socks5_new ''127.0.0.1:1080'' ''ssh-h-1080'')]"
proof -
  let ?fs = "[''t.toml'' \<mapsto> Inr (fresh_config ''ssh'' (ssh_generate_toml ''h'' [1080]))] :: files"
  have sys: "sy_toml import_system = fragment_toml" "sy_import import_system = map_io \<lparr>nordlynx_private_key = []\<rparr> []"
    "sy_features import_system = sample_features" "sy_parse_addr import_system = Some"
    by (simp_all add: import_system_def)
  have toml: "toml_reads (sy_toml import_system)" unfolding sys by (rule fragment_toml_reads)
  have store: "file_store (sy_import import_system) (\<lambda>w. w)" unfolding sys by (rule map_files.file_store_axioms)
  have old: "readable ((Map.empty :: string \<rightharpoonup> string) ''t.toml'') default_config" by (simp add: readable_def)
  have plain: "plain_text ''h''" by code_simp
  have cmd: "cli_command import_cli = Some (Import (Ssh ''h'' ''u'' [1080] ''t.toml'' False))" by (simp add: import_cli_def)
  have rnd: "strategy_from_name (cli_strategy serve_cli) = Inr Random" by code_simp
  have ft: "ft_socks5 (sy_features import_system)" by (simp add: sys sample_features_def)
  have addr: "sy_parse_addr import_system (pc_listen (cfg_proxy default_config)) = Some default_listen"
    unfolding sys by (simp add: default_config_def proxy_config_default_def)
  have none: "build_transports ft tor (cfg_tunnel default_config) = []" for ft tor
    by (simp add: default_config_def build_transports_concat)
  have port: "show_nat 1080 = ''1080''" by (simp add: show_nat.simps digit_char_def char_of_def bit_Suc_0_iff)
  show ?thesis
    using import_then_serve [where content = "\<lambda>w. w" and fs' = ?fs and dir = "''/''" and c' = serve_cli and e' = Map.empty,
        OF toml store old plain cmd sample_import_run ft addr _ _ _ _ rnd]
    by (simp add: serve_cli_def sample_cli_def none port)
qed

end
