(* ===== verification/Json.thy ===== *)
theory Json
  imports Prelude
begin

text \<open>
  JSON values and how the sources use them: \<open>serde_json::Value\<close> in the MCP server, and the
  structs with derived \<open>Serialize\<close> and \<open>Deserialize\<close> instances in the admin API and in the
  NordVPN importer. An object is the list of its members in the order in which they are
  written. The text of a value is the matter of \<open>serde_json\<close>, a parameter of the theories that
  read or print; the second half of this theory is a concrete printer and reader, which shows
  that what those theories ask of it can hold.
\<close>

section \<open>Values\<close>

text \<open>A number that is not an integer is kept as its text.\<close>

datatype json =
    JNull
  | JBool bool
  | JNum int
  | JFloat string
  | JStr string
  | JArr "json list"
  | JObj "(string \<times> json) list"

fun json_get :: "string \<Rightarrow> json \<Rightarrow> json option" where
  "json_get key (JObj members) = map_of members key"
| "json_get key _ = None"

fun as_str :: "json \<Rightarrow> string option" where
  "as_str (JStr s) = Some s"
| "as_str _ = None"

definition get_str :: "string \<Rightarrow> json \<Rightarrow> string option" where
  "get_str key v = (case json_get key v of Some x \<Rightarrow> as_str x | None \<Rightarrow> None)"

lemma get_str_empty [simp]: "get_str k (JObj []) = None"
  by (simp add: get_str_def)

section \<open>Derived decoders\<close>

text \<open>
  The fields of a struct in a value, as serde's derived instances find them: an object with
  none of the fields twice, other members being ignored, or an array with one element per
  field in the order of the struct.
\<close>

fun struct_fields :: "string list \<Rightarrow> json \<Rightarrow> (string \<times> json) list option" where
  "struct_fields names (JObj members) =
     (let fields = filter (\<lambda>(key, v). key \<in> set names) members in
      if distinct (map fst fields) then Some fields else None)"
| "struct_fields names (JArr vs) = (if length vs = length names then Some (zip names vs) else None)"
| "struct_fields names _ = None"

definition field :: "string \<Rightarrow> (json \<Rightarrow> 'a option) \<Rightarrow> (string \<times> json) list \<Rightarrow> 'a option" where
  "field key decode fields = (case map_of fields key of Some v \<Rightarrow> decode v | None \<Rightarrow> None)"

text \<open>A field of an option type: missing and null are both no value.\<close>

definition opt_field :: "string \<Rightarrow> (json \<Rightarrow> 'a option) \<Rightarrow> (string \<times> json) list \<Rightarrow> 'a option option" where
  "opt_field key decode fields =
     (case map_of fields key of
        None \<Rightarrow> Some None
      | Some v \<Rightarrow> if v = JNull then Some None else map_option Some (decode v))"

fun as_u64 :: "json \<Rightarrow> u64 option" where
  "as_u64 (JNum i) = (if 0 \<le> i \<and> i < 2 ^ 64 then Some (word_of_int i) else None)"
| "as_u64 _ = None"

fun as_vec :: "(json \<Rightarrow> 'a option) \<Rightarrow> json \<Rightarrow> 'a list option" where
  "as_vec decode (JArr vs) = those (map decode vs)"
| "as_vec decode _ = None"

section \<open>Text\<close>

text \<open>
  Compact text: no blanks, and in strings the quotation mark, the backslash and the control
  characters are escaped.
\<close>

definition hex_digit :: "nat \<Rightarrow> char" where
  "hex_digit d = (if d < 10 then char_of (48 + d) else char_of (87 + d))"

definition hex_val :: "char \<Rightarrow> nat option" where
  "hex_val c =
     (let n = (of_char c :: nat) in
      if 48 \<le> n \<and> n \<le> 57 then Some (n - 48) else if 97 \<le> n \<and> n \<le> 102 then Some (n - 87) else None)"

definition escapes :: "(char \<times> char) list" where
  "escapes =
     [(CHR 0x22, CHR 0x22), (CHR 0x5C, CHR 0x5C), (CHR 0x08, CHR ''b''), (CHR 0x0C, CHR ''f''),
      (CHR 0x0A, CHR ''n''), (CHR 0x0D, CHR ''r''), (CHR 0x09, CHR ''t'')]"

definition print_char :: "char \<Rightarrow> string" where
  "print_char c =
     (case map_of escapes c of
        Some e \<Rightarrow> [CHR 0x5C, e]
      | None \<Rightarrow>
          let n = (of_char c :: nat) in
          if n < 32 then CHR 0x5C # ''u00'' @ [hex_digit (n div 16), hex_digit (n mod 16)] else [c])"

definition print_str :: "string \<Rightarrow> string" where
  "print_str s = CHR 0x22 # concat (map print_char s) @ [CHR 0x22]"

definition print_int :: "int \<Rightarrow> string" where
  "print_int i = (if i < 0 then CHR ''-'' # show_nat (nat (- i)) else show_nat (nat i))"

definition number_char :: "char \<Rightarrow> bool" where
  "number_char c = (digit_val c \<noteq> None \<or> c \<in> {CHR ''+'', CHR ''-'', CHR ''.'', CHR ''e'', CHR ''E''})"

fun print_json :: "json \<Rightarrow> string"
  and print_elems :: "json list \<Rightarrow> string"
  and print_members :: "(string \<times> json) list \<Rightarrow> string" where
  "print_json JNull = ''null''"
| "print_json (JBool b) = (if b then ''true'' else ''false'')"
| "print_json (JNum i) = print_int i"
| "print_json (JFloat s) = filter number_char s"
| "print_json (JStr s) = print_str s"
| "print_json (JArr vs) = CHR ''['' # print_elems vs @ '']''"
| "print_json (JObj ms) = CHR ''{'' # print_members ms @ ''}''"
| "print_elems [] = []"
| "print_elems (v # vs) = print_json v @ (if vs = [] then [] else CHR '','' # print_elems vs)"
| "print_members [] = []"
| "print_members ((key, v) # ms) =
     print_str key @ CHR '':'' # print_json v @ (if ms = [] then [] else CHR '','' # print_members ms)"

text \<open>The reader of such text; the first argument bounds the nesting.\<close>

fun read_chars :: "string \<Rightarrow> (string \<times> string) option" where
  "read_chars [] = None"
| "read_chars (c # cs) =
     (if c = CHR 0x22 then Some ([], cs)
      else if c = CHR 0x5C then
        (case cs of
           [] \<Rightarrow> None
         | e # ds \<Rightarrow>
             (case map_of (map (\<lambda>(a, b). (b, a)) escapes) e of
                Some a \<Rightarrow> map_option (\<lambda>(s, rest). (a # s, rest)) (read_chars ds)
              | None \<Rightarrow>
                  (case ds of
                     z1 # z2 # h # l # es \<Rightarrow>
                       (case (hex_val h, hex_val l) of
                          (Some a, Some b) \<Rightarrow> map_option (\<lambda>(s, rest). (char_of (16 * a + b) # s, rest)) (read_chars es)
                        | _ \<Rightarrow> None)
                   | _ \<Rightarrow> None)))
      else map_option (\<lambda>(s, rest). (c # s, rest)) (read_chars cs))"

fun read_nat :: "nat \<Rightarrow> string \<Rightarrow> nat \<times> string" where
  "read_nat acc [] = (acc, [])"
| "read_nat acc (c # cs) = (case digit_val c of Some d \<Rightarrow> read_nat (10 * acc + d) cs | None \<Rightarrow> (acc, c # cs))"

fun read_value :: "nat \<Rightarrow> string \<Rightarrow> (json \<times> string) option"
  and read_elems :: "nat \<Rightarrow> string \<Rightarrow> (json list \<times> string) option"
  and read_members :: "nat \<Rightarrow> string \<Rightarrow> ((string \<times> json) list \<times> string) option" where
  "read_value 0 s = None"
| "read_value (Suc n) s =
     (case s of
        [] \<Rightarrow> None
      | c # cs \<Rightarrow>
          if c = CHR ''n'' then Some (JNull, drop 3 cs)
          else if c = CHR ''t'' then Some (JBool True, drop 3 cs)
          else if c = CHR ''f'' then Some (JBool False, drop 4 cs)
          else if c = CHR 0x22 then map_option (\<lambda>(s, rest). (JStr s, rest)) (read_chars cs)
          else if c = CHR ''['' then
            (if starts_with cs '']'' then Some (JArr [], tl cs)
             else map_option (\<lambda>(vs, rest). (JArr vs, rest)) (read_elems n cs))
          else if c = CHR ''{'' then
            (if starts_with cs ''}'' then Some (JObj [], tl cs)
             else map_option (\<lambda>(ms, rest). (JObj ms, rest)) (read_members n cs))
          else if c = CHR ''-'' then (case read_nat 0 cs of (k, rest) \<Rightarrow> Some (JNum (- int k), rest))
          else if digit_val c \<noteq> None then (case read_nat 0 s of (k, rest) \<Rightarrow> Some (JNum (int k), rest))
          else None)"
| "read_elems 0 s = None"
| "read_elems (Suc n) s =
     (case read_value n s of
        None \<Rightarrow> None
      | Some (v, rest) \<Rightarrow>
          (case rest of
             [] \<Rightarrow> None
           | c # cs \<Rightarrow>
               if c = CHR '']'' then Some ([v], cs)
               else if c = CHR '','' then map_option (\<lambda>(vs, rest). (v # vs, rest)) (read_elems n cs)
               else None))"
| "read_members 0 s = None"
| "read_members (Suc n) s =
     (case s of
        [] \<Rightarrow> None
      | q # cs \<Rightarrow>
          if q \<noteq> CHR 0x22 then None
          else
            (case read_chars cs of
               Some (key, CHR '':'' # ds) \<Rightarrow>
                 (case read_value n ds of
                    None \<Rightarrow> None
                  | Some (v, rest) \<Rightarrow>
                      (case rest of
                         [] \<Rightarrow> None
                       | c # es \<Rightarrow>
                           if c = CHR ''}'' then Some ([(key, v)], es)
                           else if c = CHR '','' then map_option (\<lambda>(ms, rest). ((key, v) # ms, rest)) (read_members n es)
                           else None))
             | _ \<Rightarrow> None))"

definition read_json :: "string \<Rightarrow> string + json" where
  "read_json s =
     (case read_value (length s) s of
        Some (v, []) \<Rightarrow> Inr v
      | _ \<Rightarrow> Inl ''invalid JSON'')"

section \<open>The reader reads what the printer wrote\<close>

lemma hex_val_digit: "d < 16 \<Longrightarrow> hex_val (hex_digit d) = Some d"
  by (auto simp: hex_val_def hex_digit_def Let_def)

lemma escapes_inverse:
  assumes "map_of escapes c = Some e"
  shows "map_of (map (\<lambda>(a, b). (b, a)) escapes) e = Some c"
  using assms by (auto simp: escapes_def split: if_splits)

lemma read_print_char:
  "read_chars (print_char c @ t) = map_option (\<lambda>(s, rest). (c # s, rest)) (read_chars t)"
proof (cases "map_of escapes c")
  case (Some e)
  then show ?thesis using escapes_inverse [OF Some] by (simp add: print_char_def)
next
  case None
  then have plain: "c \<noteq> CHR 0x22" "c \<noteq> CHR 0x5C" by (auto simp: escapes_def split: if_splits)
  show ?thesis
  proof (cases "(of_char c :: nat) < 32")
    case True
    have "(of_char c :: nat) div 16 < 16" "(of_char c :: nat) mod 16 < 16" using True by simp_all
    moreover have "map_of (map (\<lambda>(a, b). (b, a)) escapes) (CHR ''u'') = None" by code_simp
    ultimately show ?thesis
      using None True plain by (simp add: print_char_def hex_val_digit Let_def)
  next
    case False
    then show ?thesis using None plain by (simp add: print_char_def)
  qed
qed

lemma read_chars_print: "read_chars (concat (map print_char s) @ CHR 0x22 # rest) = Some (s, rest)"
  by (induction s) (simp_all add: read_print_char)

lemma read_nat_show: "read_nat acc (show_nat n @ rest) = read_nat (acc * 10 ^ length (show_nat n) + n) rest"
proof (induction n arbitrary: rest rule: show_nat.induct)
  case (1 n)
  show ?case
  proof (cases "n < 10")
    case True
    then show ?thesis by (simp add: show_nat.simps [of n] mult.commute)
  next
    case False
    then show ?thesis
      using 1 [OF False, of "digit_char (n mod 10) # rest"] by (simp add: show_nat.simps [of n] algebra_simps)
  qed
qed

fun no_digit :: "string \<Rightarrow> bool" where
  "no_digit [] = True"
| "no_digit (c # cs) = (digit_val c = None)"

lemma read_nat_done: "no_digit rest \<Longrightarrow> read_nat acc rest = (acc, rest)"
  by (cases rest) auto

fun wf_json :: "json \<Rightarrow> bool"
  and wf_elems :: "json list \<Rightarrow> bool"
  and wf_members :: "(string \<times> json) list \<Rightarrow> bool" where
  "wf_json (JFloat s) = False"
| "wf_json (JArr vs) = wf_elems vs"
| "wf_json (JObj ms) = wf_members ms"
| "wf_json _ = True"
| "wf_elems [] = True"
| "wf_elems (v # vs) = (wf_json v \<and> wf_elems vs)"
| "wf_members [] = True"
| "wf_members ((key, v) # ms) = (wf_json v \<and> wf_members ms)"

lemma digit_head:
  assumes "digit_val c = Some d"
  shows "c \<notin> {CHR ''n'', CHR ''t'', CHR ''f'', CHR 0x22, CHR ''['', CHR ''{'', CHR ''-'', CHR '']'', CHR ''}''}"
  using assms by (auto simp: digit_val_def)

lemma show_nat_head:
  obtains c cs d where "show_nat n = c # cs" "digit_val c = Some d"
proof -
  obtain c cs where eq: "show_nat n = c # cs" by (meson neq_Nil_conv show_nat_not_Nil)
  moreover obtain d where "digit_val c = Some d" using show_nat_no_char [of c n] eq by fastforce
  ultimately show thesis by (rule that)
qed

lemma print_head: "wf_json v \<Longrightarrow> \<exists>c cs. print_json v = c # cs \<and> c \<noteq> CHR '']''"
proof (cases v)
  case (JNum i)
  obtain c cs d where "show_nat (nat i) = c # cs" "digit_val c = Some d" by (rule show_nat_head)
  then show ?thesis using JNum digit_head by (auto simp: print_int_def)
qed (auto simp: print_str_def)

lemma read_int:
  assumes "no_digit rest"
  shows "read_value (Suc n) (print_int i @ rest) = Some (JNum i, rest)"
proof (cases "i < 0")
  case True
  then show ?thesis using assms by (simp add: print_int_def read_nat_show read_nat_done)
next
  case False
  obtain c cs d where c: "show_nat (nat i) = c # cs" "digit_val c = Some d" by (rule show_nat_head)
  have "read_nat 0 ((c # cs) @ rest) = (nat i, rest)"
    using read_nat_show [of 0 "nat i" rest] c(1) assms by (simp add: read_nat_done)
  then show ?thesis using False c digit_head [OF c(2)] by (simp add: print_int_def)
qed

declare read_value.simps(2) [simp del] read_elems.simps(2) [simp del] read_members.simps(2) [simp del]

text \<open>
  The steps of the proof: a reader that reads the parts back reads the whole back. The readers'
  fuel \<open>m\<close> is that of the parts.
\<close>

lemma read_array_step:
  assumes "wf_elems vs" "vs \<noteq> [] \<Longrightarrow> read_elems m (print_elems vs @ CHR '']'' # rest) = Some (vs, rest)" "vs = [] \<Longrightarrow> m > 0"
  shows "read_value (Suc m) (print_json (JArr vs) @ rest) = Some (JArr vs, rest)"
proof (cases vs)
  case Nil
  then show ?thesis using assms(3) by (simp add: read_value.simps(2))
next
  case (Cons w ws)
  then have "wf_json w" using assms(1) by simp
  from print_head [OF this] obtain c cs where "print_elems vs = c # cs" "c \<noteq> CHR '']''" using Cons by auto
  then show ?thesis using assms(2) Cons by (simp add: read_value.simps(2))
qed

lemma read_object_step:
  assumes "ms \<noteq> [] \<Longrightarrow> read_members m (print_members ms @ CHR ''}'' # rest) = Some (ms, rest)" "ms = [] \<Longrightarrow> m > 0"
  shows "read_value (Suc m) (print_json (JObj ms) @ rest) = Some (JObj ms, rest)"
proof (cases ms)
  case Nil
  then show ?thesis using assms(2) by (simp add: read_value.simps(2))
next
  case (Cons w ws)
  then obtain cs where "print_members ms = CHR 0x22 # cs" by (cases w) (simp add: print_str_def)
  then show ?thesis using assms(1) Cons by (simp add: read_value.simps(2))
qed

lemma read_elems_step:
  assumes "\<And>rest. no_digit rest \<Longrightarrow> read_value m (print_json v @ rest) = Some (v, rest)"
    and "vs \<noteq> [] \<Longrightarrow> read_elems m (print_elems vs @ CHR '']'' # rest) = Some (vs, rest)"
  shows "read_elems (Suc m) (print_elems (v # vs) @ CHR '']'' # rest) = Some (v # vs, rest)"
  using assms(1) [of "CHR '']'' # rest"] assms(1) [of "CHR '','' # print_elems vs @ CHR '']'' # rest"] assms(2)
  by (cases "vs = []") (simp_all add: read_elems.simps(2) digit_val_def)

lemma read_members_step:
  assumes "\<And>rest. no_digit rest \<Longrightarrow> read_value m (print_json v @ rest) = Some (v, rest)"
    and "ms \<noteq> [] \<Longrightarrow> read_members m (print_members ms @ CHR ''}'' # rest) = Some (ms, rest)"
  shows "read_members (Suc m) (print_members ((key, v) # ms) @ CHR ''}'' # rest) = Some ((key, v) # ms, rest)"
  using assms(1) [of "CHR ''}'' # rest"] assms(1) [of "CHR '','' # print_members ms @ CHR ''}'' # rest"] assms(2)
  by (cases "ms = []") (simp_all add: read_members.simps(2) digit_val_def print_str_def read_chars_print)

lemma read_print:
  "wf_json v \<Longrightarrow> no_digit rest \<Longrightarrow> length (print_json v) \<le> n \<Longrightarrow> read_value n (print_json v @ rest) = Some (v, rest)"
  "wf_elems vs \<Longrightarrow> vs \<noteq> [] \<Longrightarrow> length (print_elems vs) < n \<Longrightarrow>
     read_elems n (print_elems vs @ CHR '']'' # rest) = Some (vs, rest)"
  "wf_members ms \<Longrightarrow> ms \<noteq> [] \<Longrightarrow> length (print_members ms) < n \<Longrightarrow>
     read_members n (print_members ms @ CHR ''}'' # rest) = Some (ms, rest)"
proof (induction v and vs and ms arbitrary: n rest and n rest and n rest
    rule: print_json_print_elems_print_members.induct)
  case 1
  then show ?case by (cases n) (simp_all add: read_value.simps(2))
next
  case (2 b)
  then show ?case by (cases n; cases b) (simp_all add: read_value.simps(2))
next
  case (3 i)
  have "print_int i \<noteq> []" by (simp add: print_int_def)
  then show ?case using 3 by (cases n) (simp_all add: read_int)
next
  case (5 s)
  then show ?case by (cases n) (simp_all add: read_value.simps(2) print_str_def read_chars_print)
next
  case (6 vs)
  then obtain m where "n = Suc m" "length (print_elems vs) < m \<or> vs = [] \<and> m > 0" by (cases n) auto
  then show ?case using 6 by (auto intro!: read_array_step simp del: print_json.simps)
next
  case (7 ms)
  then obtain m where "n = Suc m" "length (print_members ms) < m \<or> ms = [] \<and> m > 0" by (cases n) auto
  then show ?case using 7 by (auto intro!: read_object_step simp del: print_json.simps)
next
  case (9 v vs)
  obtain m where n: "n = Suc m" "length (print_json v) \<le> m" using 9(5) by (cases n) (auto split: if_splits)
  obtain c cs where "print_json v = c # cs" using print_head [of v] 9(3) by auto
  then have "vs \<noteq> [] \<Longrightarrow> length (print_elems vs) < m" using 9(5) n by simp
  then show ?case unfolding n(1) using 9 n by (intro read_elems_step) simp_all
next
  case (11 key v ms)
  obtain m where n: "n = Suc m" "length (print_json v) \<le> m" using 11(5) by (cases n) (auto split: if_splits)
  then have "ms \<noteq> [] \<Longrightarrow> length (print_members ms) < m" using 11(5) by (simp add: print_str_def)
  then show ?case unfolding n(1) using 11 n by (intro read_members_step) simp_all
qed simp_all

text \<open>What is relied on of the JSON library: it reads back what it printed, floating-point numbers
  left aside, and it prints on one line.\<close>

definition json_reads :: "(string \<Rightarrow> string + json) \<Rightarrow> (json \<Rightarrow> string) \<Rightarrow> bool" where
  "json_reads from_str to_string = (\<forall>v. wf_json v \<longrightarrow> from_str (to_string v) = Inr v)"

definition one_line :: "(json \<Rightarrow> string) \<Rightarrow> bool" where
  "one_line to_string = (\<forall>v. CHR 0x0A \<notin> set (to_string v))"

lemma read_json_print: "json_reads read_json print_json"
  unfolding json_reads_def read_json_def using read_print(1) [of _ "[]"] by simp

lemma hex_digit_one_line: "d < 16 \<Longrightarrow> hex_digit d \<noteq> CHR 0x0A"
  using hex_val_digit [of d] by (auto simp: hex_val_def)

lemma print_char_one_line: "CHR 0x0A \<notin> set (print_char c)"
proof (cases "map_of escapes c")
  case None
  then have "c \<noteq> CHR 0x0A" by (auto simp: escapes_def)
  moreover have "hex_digit ((of_char c :: nat) mod 16) \<noteq> CHR 0x0A" by (rule hex_digit_one_line) simp
  moreover have "hex_digit (of_char c div 16) \<noteq> CHR 0x0A" if "(of_char c :: nat) < 32"
    by (rule hex_digit_one_line) (use that in simp)
  ultimately show ?thesis using None by (auto simp: print_char_def Let_def)
next
  case (Some e)
  then show ?thesis by (auto simp: print_char_def escapes_def split: if_splits)
qed

lemma print_str_one_line: "CHR 0x0A \<notin> set (print_str s)"
  using print_char_one_line by (auto simp: print_str_def)

lemma print_int_one_line: "CHR 0x0A \<notin> set (print_int i)"
proof -
  have "CHR 0x0A \<notin> set (show_nat n)" for n by (rule show_nat_no_char) (simp add: digit_val_def)
  then show ?thesis by (simp add: print_int_def)
qed

lemma print_json_one_line:
  "CHR 0x0A \<notin> set (print_json v)" "CHR 0x0A \<notin> set (print_elems vs)" "CHR 0x0A \<notin> set (print_members ms)"
  by (induction v and vs and ms rule: print_json_print_elems_print_members.induct)
    (simp_all add: print_str_one_line print_int_one_line number_char_def digit_val_def)

lemma print_one_line: "one_line print_json"
  by (simp add: one_line_def print_json_one_line)

end
