(* ===== verification/Admin.thy ===== *)
theory Admin
  imports Pool Json
begin

text \<open>
  The admin API (\<open>src/src/admin/mod.rs\<close>): the dispatch of a request and the bodies it
  answers with. The HTTP server is hyper's; the JSON printer is a parameter that may fail. The
  JSON value that the derived instance makes of a body is \<open>body_json\<close>.
  The server around \<open>handle_request\<close> is the theory Admin_Server.
\<close>

record health_response =
  hr_status_text :: string
  hr_version :: string

record tunnel_entry =
  en_id :: string
  en_label :: string
  en_protocol :: string
  en_healthy :: bool

record pool_response =
  pl_total :: nat
  pl_healthy :: nat
  pl_tunnels :: "tunnel_entry list"

record stats_response =
  sr_connections_total :: u64
  sr_connections_active :: u64
  sr_bytes_relayed :: u64

datatype body =
    Health_body health_response
  | Pool_body pool_response
  | Stats_body stats_response
  | Error_body string

record response =
  rs_status :: nat
  rs_content_type :: string
  rs_bytes :: string

text \<open>\<open>version\<close> is the crate's version at compile time.\<close>

definition health_body :: "string \<Rightarrow> health_response" where
  "health_body version = \<lparr>hr_status_text = ''ok'', hr_version = version\<rparr>"

definition entry_of :: "transport \<Rightarrow> tunnel_entry" where
  "entry_of t = \<lparr>en_id = transport_id t, en_label = transport_label t, en_protocol = protocol t, en_healthy = healthy t\<rparr>"

definition pool_body :: "theap \<Rightarrow> pool \<Rightarrow> pool_response" where
  "pool_body h p =
     (let all = pool_all p in
      \<lparr>pl_total = length all, pl_healthy = length (filter (\<lambda>r. healthy (h r)) all),
       pl_tunnels = map (\<lambda>r. entry_of (h r)) all\<rparr>)"

definition stats_body :: stats_response where
  "stats_body = \<lparr>sr_connections_total = 0, sr_connections_active = 0, sr_bytes_relayed = 0\<rparr>"

definition error_body :: "string \<Rightarrow> string" where
  "error_body msg = msg"

text \<open>The derived \<open>Serialize\<close> instances: the fields in the order of the struct.\<close>

definition health_json :: "health_response \<Rightarrow> json" where
  "health_json b = JObj [(''status'', JStr (hr_status_text b)), (''version'', JStr (hr_version b))]"

definition entry_json :: "tunnel_entry \<Rightarrow> json" where
  "entry_json e =
     JObj [(''id'', JStr (en_id e)), (''label'', JStr (en_label e)), (''protocol'', JStr (en_protocol e)),
           (''healthy'', JBool (en_healthy e))]"

definition pool_json :: "pool_response \<Rightarrow> json" where
  "pool_json b =
     JObj [(''total'', JNum (int (pl_total b))), (''healthy'', JNum (int (pl_healthy b))),
           (''tunnels'', JArr (map entry_json (pl_tunnels b)))]"

definition stats_json :: "stats_response \<Rightarrow> json" where
  "stats_json b =
     JObj [(''connections_total'', JNum (uint (sr_connections_total b))),
           (''connections_active'', JNum (uint (sr_connections_active b))),
           (''bytes_relayed'', JNum (uint (sr_bytes_relayed b)))]"

definition error_json :: "string \<Rightarrow> json" where
  "error_json message = JObj [(''error'', JStr message)]"

fun body_json :: "body \<Rightarrow> json" where
  "body_json (Health_body b) = health_json b"
| "body_json (Pool_body b) = pool_json b"
| "body_json (Stats_body b) = stats_json b"
| "body_json (Error_body m) = error_json m"

definition fallback_body :: string where
  "fallback_body =
     ''{'' @ [CHR 0x22] @ ''error'' @ [CHR 0x22] @ '':'' @ [CHR 0x22] @ ''internal serialization error'' @ [CHR 0x22] @ ''}''"

definition json_response :: "(body \<Rightarrow> string + string) \<Rightarrow> nat \<Rightarrow> body \<Rightarrow> response" where
  "json_response to_vec status b =
     (case to_vec b of
        Inr json \<Rightarrow> \<lparr>rs_status = status, rs_content_type = ''application/json'', rs_bytes = json\<rparr>
      | Inl _ \<Rightarrow> \<lparr>rs_status = 500, rs_content_type = ''application/json'', rs_bytes = fallback_body\<rparr>)"

definition admin_handle_request ::
  "(body \<Rightarrow> string + string) \<Rightarrow> string \<Rightarrow> string \<Rightarrow> string \<Rightarrow> theap \<Rightarrow> pool \<Rightarrow> response" where
  "admin_handle_request to_vec version method path h p =
     (if method = ''GET'' \<and> path = ''/health'' then json_response to_vec 200 (Health_body (health_body version))
      else if method = ''GET'' \<and> path = ''/pool'' then json_response to_vec 200 (Pool_body (pool_body h p))
      else if method = ''GET'' \<and> path = ''/stats'' then json_response to_vec 200 (Stats_body stats_body)
      else if path = ''/health'' \<or> path = ''/pool'' \<or> path = ''/stats''
      then json_response to_vec 405 (Error_body (error_body ''method not allowed''))
      else json_response to_vec 404 (Error_body (error_body ''not found'')))"

section \<open>Properties\<close>

text \<open>No two bodies have the same value, and a JSON printer that can be read back prints them apart.\<close>

lemma inj_entry_json: "inj entry_json"
  by (rule injI) (simp add: entry_json_def)

lemma body_json_inj: "body_json b = body_json b' \<Longrightarrow> b = b'"
  by (cases b; cases b')
    (auto simp: health_json_def pool_json_def stats_json_def error_json_def inj_map_eq_map [OF inj_entry_json] word_uint_eq_iff)

lemma wf_elems_all: "wf_elems vs = list_all wf_json vs"
  by (induction vs) simp_all

lemma wf_body_json: "wf_json (body_json b)"
  by (cases b) (simp_all add: health_json_def pool_json_def stats_json_def error_json_def entry_json_def
      wf_elems_all list_all_iff)

lemma pl_total_len: "pl_total (pool_body h p) = pool_len p"
  by (simp add: pool_body_def pool_all_def pool_len_def Let_def)

lemma pl_healthy_count: "pl_healthy (pool_body h p) = length (healthy_transports h p)"
  by (simp add: pool_body_def pool_defs Let_def)

lemma pl_tunnels_remove:
  "pl_tunnels (pool_body h (snd (pool_remove h p i))) = filter (\<lambda>e. en_id e \<noteq> i) (pl_tunnels (pool_body h p))"
  by (simp add: pool_body_def pool_all_def pool_remove_def entry_of_def filter_map comp_def Let_def)

text \<open>
  What the admin API reports of the pool is the pool: the counts are the pool's own, one
  entry per transport in the pool's order, healthy entries exactly the transports the pool
  would hand out, and removing a tunnel by its id takes exactly the entries with that id. The
  status is 200 for a GET of the three known paths, 405 for them otherwise, 404 for every
  other path, and 500 only when the body cannot be printed.
\<close>

theorem admin_reports_pool:
  "(pl_total (pool_body h p) = pool_len p
    \<and> pl_healthy (pool_body h p) = length (healthy_transports h p)
    \<and> map en_id (pl_tunnels (pool_body h p)) = map (\<lambda>r. transport_id (h r)) (pool_all p)
    \<and> map en_id (filter en_healthy (pl_tunnels (pool_body h p))) = map (\<lambda>r. transport_id (h r)) (healthy_transports h p)
    \<and> pl_tunnels (pool_body h (snd (pool_remove h p i))) = filter (\<lambda>e. en_id e \<noteq> i) (pl_tunnels (pool_body h p)))
   \<and> rs_status (admin_handle_request to_vec version method path h p) \<in>
       (if path \<in> {''/health'', ''/pool'', ''/stats''} then (if method = ''GET'' then {200, 500} else {405, 500}) else {404, 500})"
proof (intro conjI)
  show "map en_id (pl_tunnels (pool_body h p)) = map (\<lambda>r. transport_id (h r)) (pool_all p)"
    by (simp add: pool_body_def entry_of_def Let_def comp_def)
  show "map en_id (filter en_healthy (pl_tunnels (pool_body h p))) = map (\<lambda>r. transport_id (h r)) (healthy_transports h p)"
    by (simp add: pool_body_def entry_of_def pool_defs filter_map comp_def Let_def)
  show "rs_status (admin_handle_request to_vec version method path h p) \<in>
       (if path \<in> {''/health'', ''/pool'', ''/stats''} then (if method = ''GET'' then {200, 500} else {405, 500}) else {404, 500})"
    by (auto simp: admin_handle_request_def json_response_def split: sum.split)
qed (rule pl_total_len pl_healthy_count pl_tunnels_remove)+

end
