(* ===== verification/Admin_Server.thy ===== *)
theory Admin_Server
  imports Admin Accept_Loop
begin

text \<open>
  The admin server (\<open>AdminServer\<close> in \<open>src/src/admin/mod.rs\<close>) under concurrency: hyper reads
  the requests of a connection one after the other and hands each to \<open>handle_request\<close>. The
  pool is shared with tasks that add, remove and close transports (\<open>pool_step\<close>). A request for
  the pool takes the pool's lock only to copy the list of transports; the health flags are then
  loaded one by one, first to count them and again to list them, so that other tasks may close
  transports in between. The requests that do not look at the pool are one step.
\<close>

record 'addr admin_server =
  as_listen_addr :: 'addr
  as_pool :: "theap \<times> pool"

definition admin_server_new :: "'addr \<Rightarrow> theap \<times> pool \<Rightarrow> 'addr admin_server" where
  "admin_server_new listen_addr pool = \<lparr>as_listen_addr = listen_addr, as_pool = pool\<rparr>"

text \<open>A connection, with the responses it has been sent.\<close>

datatype admin_task =
    Idle "response list"
  | Counting "response list" "aref list" "aref list" nat
  | Listing "response list" nat nat "aref list" "tunnel_entry list"
  | Hung_up "response list"

definition admin_server_run ::
  "('addr \<Rightarrow> string + 'l) \<Rightarrow> 'addr admin_server \<Rightarrow> error + (theap \<times> pool, admin_task) server" where
  "admin_server_run bind server =
     and_then (start_loop bind (as_listen_addr server) (as_pool server)) (\<lambda>(listener, s). Inr s)"

inductive admin_step ::
  "(body \<Rightarrow> string + string) \<Rightarrow> string \<Rightarrow> theap \<times> pool \<Rightarrow> admin_task \<Rightarrow> theap \<times> pool \<Rightarrow> admin_task \<Rightarrow> bool"
  for to_vec version where
  answers: "\<not> (method = ''GET'' \<and> path = ''/pool'') \<Longrightarrow>
     admin_step to_vec version (h, p) (Idle rs) (h, p)
       (Idle (rs @ [admin_handle_request to_vec version method path h p]))"
| copies: "admin_step to_vec version (h, p) (Idle rs) (h, p) (Counting rs (pool_all p) (pool_all p) 0)"
| counts: "admin_step to_vec version (h, p) (Counting rs all (r # rest) n) (h, p)
     (Counting rs all rest (if healthy (h r) then n + 1 else n))"
| counted: "admin_step to_vec version (h, p) (Counting rs all [] n) (h, p) (Listing rs (length all) n all [])"
| lists: "admin_step to_vec version (h, p) (Listing rs tot n (r # rest) es) (h, p)
     (Listing rs tot n rest (es @ [entry_of (h r)]))"
| listed: "admin_step to_vec version (h, p) (Listing rs tot n [] es) (h, p)
     (Idle (rs @ [json_response to_vec 200 (Pool_body \<lparr>pl_total = tot, pl_healthy = n, pl_tunnels = es\<rparr>)]))"
| hangs_up: "admin_step to_vec version (h, p) (Idle rs) (h, p) (Hung_up rs)"

inductive_cases admin_step_idleE: "admin_step to_vec version (h, p) (Idle rs) sh t"
inductive_cases admin_step_countingE: "admin_step to_vec version (h, p) (Counting rs all rest n) sh t"
inductive_cases admin_step_listingE: "admin_step to_vec version (h, p) (Listing rs tot n rest es) sh t"
inductive_cases admin_step_hungE: "admin_step to_vec version (h, p) (Hung_up rs) sh t"

lemmas admin_stepE = admin_step_idleE admin_step_countingE admin_step_listingE admin_step_hungE

abbreviation admin_steps where
  "admin_steps to_vec version \<equiv> accept_steps (\<lambda>_ :: unit. Idle []) (admin_step to_vec version) pool_step (\<lambda>_. False)"

section \<open>Undisturbed, the steps are the handler\<close>

lemma counting_alone:
  "(\<lambda>t t'. admin_step to_vec version (h, p) t (h, p) t')\<^sup>*\<^sup>* (Counting rs all rest n)
     (Listing rs (length all) (n + length (filter (\<lambda>r. healthy (h r)) rest)) all [])"
proof (induction rest arbitrary: n)
  case Nil
  show ?case by (auto intro: r_into_rtranclp counted)
next
  case (Cons r rest)
  show ?case
    using counts [of to_vec version h p rs all r rest n] Cons.IH [of "if healthy (h r) then n + 1 else n"]
    by (fastforce intro: converse_rtranclp_into_rtranclp split: if_splits)
qed

lemma listing_alone:
  "(\<lambda>t t'. admin_step to_vec version (h, p) t (h, p) t')\<^sup>*\<^sup>* (Listing rs tot n rest es)
     (Idle (rs @ [json_response to_vec 200
       (Pool_body \<lparr>pl_total = tot, pl_healthy = n, pl_tunnels = es @ map (\<lambda>r. entry_of (h r)) rest\<rparr>)]))"
proof (induction rest arbitrary: es)
  case Nil
  show ?case by (auto intro: r_into_rtranclp listed)
next
  case (Cons r rest)
  show ?case
    using lists [of to_vec version h p rs tot n r rest es] Cons.IH [of "es @ [entry_of (h r)]"]
    by (auto intro: converse_rtranclp_into_rtranclp)
qed

lemma pool_request_alone:
  "(\<lambda>t t'. admin_step to_vec version (h, p) t (h, p) t')\<^sup>*\<^sup>* (Idle rs)
     (Idle (rs @ [admin_handle_request to_vec version ''GET'' ''/pool'' h p]))"
proof -
  have "admin_handle_request to_vec version ''GET'' ''/pool'' h p = json_response to_vec 200
      (Pool_body \<lparr>pl_total = length (pool_all p), pl_healthy = length (filter (\<lambda>r. healthy (h r)) (pool_all p)),
         pl_tunnels = map (\<lambda>r. entry_of (h r)) (pool_all p)\<rparr>)"
    by (simp add: admin_handle_request_def pool_body_def Let_def)
  then show ?thesis
    using copies [of to_vec version h p rs]
      rtranclp_trans [OF counting_alone [of to_vec version h p rs "pool_all p" "pool_all p" 0] listing_alone]
    by (auto intro: converse_rtranclp_into_rtranclp)
qed

section \<open>Consistency of the reports\<close>

definition consistent_report :: "pool_response \<Rightarrow> bool" where
  "consistent_report b =
     (pl_total b = length (pl_tunnels b) \<and> length (filter en_healthy (pl_tunnels b)) \<le> pl_healthy b
      \<and> pl_healthy b \<le> pl_total b)"

fun consistent_body :: "body \<Rightarrow> bool" where
  "consistent_body (Pool_body b) = consistent_report b"
| "consistent_body _ = True"

definition reports_well :: "(body \<Rightarrow> string + string) \<Rightarrow> response list \<Rightarrow> bool" where
  "reports_well to_vec rs = list_all (\<lambda>r. \<exists>status b. r = json_response to_vec status b \<and> consistent_body b) rs"

abbreviation live :: "theap \<Rightarrow> aref list \<Rightarrow> nat" where
  "live h rs \<equiv> length (filter (\<lambda>r. healthy (h r)) rs)"

text \<open>What a task knows: what is still healthy was counted before.\<close>

fun admin_task_ok :: "(body \<Rightarrow> string + string) \<Rightarrow> theap \<Rightarrow> admin_task \<Rightarrow> bool" where
  "admin_task_ok to_vec h (Idle rs) = reports_well to_vec rs"
| "admin_task_ok to_vec h (Counting rs all rest n) =
     (reports_well to_vec rs \<and>
      (\<exists>seen. all = seen @ rest \<and> live h seen \<le> n \<and> n \<le> length seen))"
| "admin_task_ok to_vec h (Listing rs tot n rest es) =
     (reports_well to_vec rs \<and> tot = length es + length rest \<and> n \<le> tot
      \<and> length (filter en_healthy es) + live h rest \<le> n)"
| "admin_task_ok to_vec h (Hung_up rs) = reports_well to_vec rs"

text \<open>A printer that prints no two bodies alike, though it may fail on some.\<close>

definition prints_apart :: "(body \<Rightarrow> string + string) \<Rightarrow> bool" where
  "prints_apart to_vec = (\<forall>b b' txt. to_vec b = Inr txt \<and> to_vec b' = Inr txt \<longrightarrow> b = b')"

lemma json_prints_apart:
  assumes "json_reads from_str to_string"
  shows "prints_apart (\<lambda>b. Inr (to_string (body_json b)))"
proof -
  have "b = b'" if "to_string (body_json b) = to_string (body_json b')" for b b'
  proof -
    have "Inr (body_json b) = from_str (to_string (body_json b'))"
      using assms wf_body_json that by (metis json_reads_def)
    then show ?thesis using assms wf_body_json body_json_inj by (simp add: json_reads_def)
  qed
  then show ?thesis by (simp add: prints_apart_def)
qed

lemma report_read_back:
  assumes "prints_apart to_vec"
    and "reports_well to_vec rs" "r \<in> set rs" "rs_status r = 200" "to_vec (Pool_body rep) = Inr (rs_bytes r)"
  shows "consistent_report rep"
proof -
  obtain status b where b: "r = json_response to_vec status b" "consistent_body b"
    using assms(2,3) by (auto simp: reports_well_def list_all_iff)
  then have "to_vec b = Inr (rs_bytes r)"
    using assms(4) by (auto simp: json_response_def split: sum.splits)
  then have "b = Pool_body rep" using assms(1,5) by (auto simp: prints_apart_def)
  then show ?thesis using b(2) by simp
qed

lemma pool_body_consistent: "consistent_report (pool_body h p)"
  by (simp add: consistent_report_def pool_body_def entry_of_def filter_map comp_def Let_def)

lemma report_ok [intro]:
  "consistent_body b \<Longrightarrow> \<exists>status b'. json_response to_vec st b = json_response to_vec status b' \<and> consistent_body b'"
  by blast

lemma admin_handle_request_consistent:
  "\<exists>status b. admin_handle_request to_vec version method path h p = json_response to_vec status b \<and> consistent_body b"
  unfolding admin_handle_request_def by (auto intro!: report_ok simp: pool_body_consistent)

lemma live_mono: "(\<And>r. healthy (h' r) \<Longrightarrow> healthy (h r)) \<Longrightarrow> live h' rs \<le> live h rs"
  by (induction rs) (auto simp: le_SucI)

lemma reports_well_snoc [simp]:
  "reports_well to_vec (rs @ [r]) \<longleftrightarrow> reports_well to_vec rs \<and> (\<exists>status b. r = json_response to_vec status b \<and> consistent_body b)"
  by (simp add: reports_well_def)

lemma admin_task_ok_mono:
  assumes "\<And>r. healthy (h' r) \<Longrightarrow> healthy (h r)" "admin_task_ok to_vec h t"
  shows "admin_task_ok to_vec h' t"
proof (cases t)
  case (Counting rs all rest n)
  then show ?thesis using assms(2) live_mono [of h' h, OF assms(1)] order_trans by fastforce
next
  case (Listing rs tot n rest es)
  then show ?thesis using assms(2) live_mono [of h' h rest, OF assms(1)] by auto
qed (use assms(2) in simp_all)

lemma admin_step_shared: "admin_step to_vec version sh t sh' t' \<Longrightarrow> sh' = sh"
  by (auto elim: admin_step.cases)

lemma admin_step_ok:
  assumes "admin_step to_vec version (h, p) t sh t'" "admin_task_ok to_vec h t"
  shows "admin_task_ok to_vec h t'"
proof (cases t)
  case (Idle rs)
  with assms show ?thesis using admin_handle_request_consistent by (auto elim!: admin_stepE)
next
  case (Counting rs all rest n)
  then obtain seen where seen: "all = seen @ rest" "live h seen \<le> n" "n \<le> length seen" "reports_well to_vec rs"
    using assms(2) by auto
  show ?thesis
  proof (cases rest)
    case Nil
    then show ?thesis using assms(1) Counting seen by (auto elim!: admin_stepE)
  next
    case (Cons r rest')
    have "\<exists>seen'. all = seen' @ rest' \<and> live h seen' \<le> (if healthy (h r) then n + 1 else n)
        \<and> (if healthy (h r) then n + 1 else n) \<le> length seen'"
      using seen(1-3) Cons by (intro exI [of _ "seen @ [r]"]) auto
    then show ?thesis using assms(1) Counting Cons seen(4) by (auto elim!: admin_stepE)
  qed
next
  case (Listing rs tot n rest es)
  then show ?thesis using assms by (cases rest) (auto elim!: admin_stepE intro!: report_ok simp: entry_of_def consistent_report_def)
next
  case (Hung_up rs)
  then show ?thesis using assms by (auto elim!: admin_stepE)
qed

interpretation admin_tasks: task_system "\<lambda>_ :: unit. Idle []" "admin_step to_vec version" pool_step "\<lambda>_. False"
  "\<lambda>sh ts. pool_steps sh0 sh \<and> list_all (admin_task_ok to_vec (fst sh)) ts" for to_vec version sh0
proof
  fix sh ts i sh' t
  assume good: "pool_steps sh0 sh \<and> list_all (admin_task_ok to_vec (fst sh)) ts" and "i < length ts"
    and step: "admin_step to_vec version sh (ts ! i) sh' t"
  have "sh' = sh" using admin_step_shared [OF step] .
  moreover have "admin_task_ok to_vec (fst sh) t"
    using admin_step_ok [of to_vec version "fst sh" "snd sh"] step good \<open>i < length ts\<close> by (simp add: list_all_length)
  ultimately show "pool_steps sh0 sh' \<and> list_all (admin_task_ok to_vec (fst sh')) (ts[i := t])"
    using good by (auto simp: list_all_iff dest!: subsetD [OF set_update_subset_insert])
next
  fix sh ts sh'
  assume "pool_steps sh0 sh \<and> list_all (admin_task_ok to_vec (fst sh)) ts" "pool_step sh sh'"
  then show "pool_steps sh0 sh' \<and> list_all (admin_task_ok to_vec (fst sh')) ts"
    using pool_step_heap(2) [of sh sh'] admin_task_ok_mono [of "fst sh'" "fst sh"]
    by (auto simp: list_all_iff)
qed (auto simp: reports_well_def)

section \<open>Properties\<close>

fun sent_responses :: "admin_task \<Rightarrow> response list" where
  "sent_responses (Idle rs) = rs"
| "sent_responses (Counting rs all rest n) = rs"
| "sent_responses (Listing rs tot n rest es) = rs"
| "sent_responses (Hung_up rs) = rs"

text \<open>
  C36. The admin API observes and never interferes, and its reports add up also while other
  tasks change the pool: in every run the shared pool is what the other tasks alone have made
  of it, and every response with status 200 whose text is that of a report of the pool lists
  as many tunnels as its total, and marks no more of them healthy than it counts, since a tunnel
  closed in between is counted and then listed as unhealthy, never the other way round. The
  JSON printer prints no two bodies alike.
\<close>

theorem admin_reports_add_up:
  assumes "admin_server_run bind (admin_server_new addr sh0) = Inr s0" "admin_steps to_vec version s0 s"
    and "prints_apart to_vec"
  shows "pool_steps sh0 (sv_shared s)
     \<and> list_all (\<lambda>t. list_all (\<lambda>r. \<forall>rep. rs_status r = 200 \<and> to_vec (Pool_body rep) = Inr (rs_bytes r) \<longrightarrow>
            pl_total rep = length (pl_tunnels rep)
            \<and> length (filter en_healthy (pl_tunnels rep)) \<le> pl_healthy rep \<and> pl_healthy rep \<le> pl_total rep)
          (sent_responses t)) (sv_tasks s)"
proof -
  have "sv_shared s0 = sh0" "sv_tasks s0 = []"
    using assms(1) by (auto simp: admin_server_run_def admin_server_new_def start_loop_def res_simps)
  then have good: "pool_steps sh0 (sv_shared s) \<and> list_all (admin_task_ok to_vec (fst (sv_shared s))) (sv_tasks s)"
    using admin_tasks.steps_good [OF assms(2), of sh0] by simp
  have "reports_well to_vec (sent_responses t)" if "admin_task_ok to_vec h t" for h t
    using that by (cases t) auto
  moreover have "consistent_report rep"
    if "reports_well to_vec rs" "r \<in> set rs" "rs_status r = 200" "to_vec (Pool_body rep) = Inr (rs_bytes r)" for rs r rep
    using that report_read_back [OF assms(3)] by blast
  ultimately show ?thesis using good
    by (fastforce simp: list_all_iff consistent_report_def)
qed

text \<open>
  A run in which the only tunnel is closed after it was counted: the report counts one healthy
  tunnel and lists none.
\<close>

lemma sample_admin_run:
  assumes "h 0 = Socks5 (socks5_new a l)"
  defines "t \<equiv> Socks5 ((socks5_new a l)\<lparr>s5_healthy := False\<rparr>)"
  shows "admin_steps to_vec version \<lparr>sv_error = None, sv_shared = (h, pool_new [0]), sv_tasks = []\<rparr>
     \<lparr>sv_error = None, sv_shared = (h(0 := t), pool_new [0]),
      sv_tasks = [Idle [json_response to_vec 200
        (Pool_body \<lparr>pl_total = 1, pl_healthy = 1, pl_tunnels = [entry_of t]\<rparr>)]]\<rparr>"
proof -
  let ?step = "accept_step (\<lambda>_ :: unit. Idle []) (admin_step to_vec version) pool_step (\<lambda>_. False)"
  let ?s = "\<lambda>h task. \<lparr>sv_error = None, sv_shared = (h, pool_new [0]), sv_tasks = [task]\<rparr>"
  let ?h = "h(0 := t)"
  have run: "?step (?s g x) (?s g y)" if "admin_step to_vec version (g, pool_new [0]) x (g, pool_new [0]) y" for g x y
    using task_runs [of "\<lambda>_. False" "?s g x" 0 "admin_step to_vec version" "(g, pool_new [0])" y] that
    by (simp add: aborted_def list_ex_iff)
  have "?step \<lparr>sv_error = None, sv_shared = (h, pool_new [0]), sv_tasks = []\<rparr> (?s h (Idle []))"
    using accepts [of "\<lambda>_. False" "\<lparr>sv_error = None, sv_shared = (h, pool_new [0]), sv_tasks = []\<rparr>"]
    by (simp add: aborted_def)
  moreover have "?step (?s h (Idle [])) (?s h (Counting [] [0] [0] 0))"
    using run [OF copies] by (simp add: pool_defs)
  moreover have "?step (?s h (Counting [] [0] [0] 0)) (?s h (Counting [] [0] [] 1))"
    using run [OF counts, of h "[]" "[0]" 0 "[]" 0] assms(1) by (simp add: socks5_new_def)
  moreover have "?step (?s h (Counting [] [0] [] 1)) (?s ?h (Counting [] [0] [] 1))"
    using env_runs [of "\<lambda>_. False" "?s h (Counting [] [0] [] 1)" pool_step "(?h, pool_new [0])"]
      step_close [of h 0 t "pool_new [0]"] assms(1)
    by (simp add: aborted_def list_ex_iff t_def)
  moreover have "?step (?s ?h (Counting [] [0] [] 1)) (?s ?h (Listing [] 1 1 [0] []))"
    using run [OF counted, of ?h "[]" "[0]" 1] by simp
  moreover have "?step (?s ?h (Listing [] 1 1 [0] [])) (?s ?h (Listing [] 1 1 [] [entry_of t]))"
    using run [OF lists, of ?h "[]" 1 1 0 "[]" "[]"] by simp
  moreover have "?step (?s ?h (Listing [] 1 1 [] [entry_of t])) (?s ?h (Idle [json_response to_vec 200
        (Pool_body \<lparr>pl_total = 1, pl_healthy = 1, pl_tunnels = [entry_of t]\<rparr>)]))"
    using run [OF listed, of ?h "[]" 1 1 "[entry_of t]"] by simp
  ultimately show ?thesis by (meson converse_rtranclp_into_rtranclp r_into_rtranclp)
qed

theorem admin_reports_add_up_witness:
  "\<exists>h t rep. healthy (h 0) \<and> \<not> healthy t \<and> pool_steps (h, pool_new [0]) (h(0 := t), pool_new [0])
     \<and> rep = \<lparr>pl_total = 1, pl_healthy = 1, pl_tunnels = [entry_of t]\<rparr>
     \<and> length (filter en_healthy (pl_tunnels rep)) \<le> pl_healthy rep"
proof -
  let ?h = "\<lambda>_ :: nat. Socks5 (socks5_new ''a'' ''l'')"
  let ?t = "Socks5 ((socks5_new ''a'' ''l'')\<lparr>s5_healthy := False\<rparr>)"
  let ?rep = "\<lparr>pl_total = 1, pl_healthy = 1, pl_tunnels = [entry_of ?t]\<rparr>"
  let ?v = "\<lambda>b. Inr (print_json (body_json b))"
  have start: "admin_server_run Inr (admin_server_new () (?h, pool_new [0]))
      = Inr \<lparr>sv_error = None, sv_shared = (?h, pool_new [0]), sv_tasks = []\<rparr>"
    by (simp add: admin_server_run_def admin_server_new_def start_loop_def)
  from admin_reports_add_up [OF start sample_admin_run [OF refl, of ?v "''1''"] json_prints_apart [OF read_json_print]]
  show ?thesis
    by (intro exI [of _ ?h] exI [of _ ?t] exI [of _ ?rep]) (auto simp: socks5_new_def json_response_def)
qed

end
