(* ===== verification/Mcp.thy ===== *)
theory Mcp
  imports Pool Line_IO Json
begin

text \<open>
  The MCP server (\<open>src/src/mcp/mod.rs\<close>): JSON-RPC requests over a pool of tunnels, and the
  loop that serves them on standard input and output. The JSON parser and printer are
  parameters; JSON values are those of the theory Json.
\<close>

section \<open>Error codes and tools\<close>

definition parse_error :: int where
  "parse_error = -32700"

definition invalid_request :: int where
  "invalid_request = -32600"

definition method_not_found :: int where
  "method_not_found = -32601"

definition invalid_params :: int where
  "invalid_params = -32602"

definition string_prop :: "string \<Rightarrow> json" where
  "string_prop description = JObj [(''type'', JStr ''string''), (''description'', JStr description)]"

definition tool :: "string \<Rightarrow> string \<Rightarrow> (string \<times> json) list \<Rightarrow> string list \<Rightarrow> json" where
  "tool name description props required =
     JObj [(''name'', JStr name), (''description'', JStr description),
       (''inputSchema'', JObj [(''type'', JStr ''object''), (''properties'', JObj props),
          (''required'', JArr (map JStr required))])]"

definition tool_definitions :: json where
  "tool_definitions =
     JArr
      [tool ''pool_status'' ''Get tunnel pool status (total, healthy, per-tunnel details)'' [] [],
       tool ''pool_add'' ''Add a tunnel to the pool at runtime''
         [(''protocol'', string_prop ''Tunnel protocol (e.g. socks5, wireguard)''),
          (''address'', string_prop ''Tunnel endpoint address''),
          (''label'', string_prop ''Human-readable label'')]
         [''protocol'', ''address'', ''label''],
       tool ''pool_remove'' ''Remove a tunnel from the pool by its ID''
         [(''id'', string_prop ''Tunnel ID to remove'')] [''id''],
       tool ''health_check'' ''Health check returning status, version, and tunnel count'' [] []]"

section \<open>Responses\<close>

definition success_response :: "(json \<Rightarrow> string) \<Rightarrow> json \<Rightarrow> json \<Rightarrow> string" where
  "success_response to_string i result =
     to_string (JObj [(''jsonrpc'', JStr ''2.0''), (''id'', i), (''result'', result)])"

definition error_response :: "(json \<Rightarrow> string) \<Rightarrow> json \<Rightarrow> int \<Rightarrow> string \<Rightarrow> string" where
  "error_response to_string i code message =
     to_string (JObj [(''jsonrpc'', JStr ''2.0''), (''id'', i),
       (''error'', JObj [(''code'', JNum code), (''message'', JStr message)])])"

definition tool_result :: "(json \<Rightarrow> string) \<Rightarrow> json \<Rightarrow> string \<Rightarrow> string" where
  "tool_result to_string i txt =
     success_response to_string i
       (JObj [(''content'', JArr [JObj [(''type'', JStr ''text''), (''text'', JStr txt)]])])"

section \<open>Tools\<close>

definition tool_pool_status :: "(json \<Rightarrow> string) \<Rightarrow> json \<Rightarrow> theap \<Rightarrow> pool \<Rightarrow> string" where
  "tool_pool_status to_string i h p =
     (let all = pool_all p;
          healthy_count = length (filter (\<lambda>r. healthy (h r)) all);
          tunnels = map (\<lambda>r. JObj [(''id'', JStr (transport_id (h r))), (''label'', JStr (transport_label (h r))),
                                   (''protocol'', JStr (protocol (h r))), (''healthy'', JBool (healthy (h r)))]) all
      in tool_result to_string i
           (to_string (JObj [(''total'', JNum (int (length all))), (''healthy'', JNum (int healthy_count)),
                             (''tunnels'', JArr tunnels)])))"

definition tool_pool_add :: "(json \<Rightarrow> string) \<Rightarrow> json \<Rightarrow> json \<Rightarrow> string" where
  "tool_pool_add to_string i arguments =
     (case get_str ''protocol'' arguments of
        None \<Rightarrow> error_response to_string i invalid_params ''Missing required parameter: protocol''
      | Some protocol_name \<Rightarrow>
          (case get_str ''address'' arguments of
             None \<Rightarrow> error_response to_string i invalid_params ''Missing required parameter: address''
           | Some address \<Rightarrow>
               (case get_str ''label'' arguments of
                  None \<Rightarrow> error_response to_string i invalid_params ''Missing required parameter: label''
                | Some label \<Rightarrow>
                    tool_result to_string i
                      (''Tunnel add requested: protocol='' @ protocol_name @ '', address='' @ address
                        @ '', label='' @ label @ ''. Transport creation requires runtime provisioning ''
                        @ em_dash @ '' request queued.''))))"

definition tool_pool_remove :: "(json \<Rightarrow> string) \<Rightarrow> json \<Rightarrow> json \<Rightarrow> theap \<Rightarrow> pool \<Rightarrow> string \<times> pool" where
  "tool_pool_remove to_string i arguments h p =
     (case get_str ''id'' arguments of
        None \<Rightarrow> (error_response to_string i invalid_params ''Missing required parameter: id'', p)
      | Some tunnel_id \<Rightarrow>
          (case Pool.pool_remove h p tunnel_id of
             (removed, p) \<Rightarrow>
               (tool_result to_string i
                  (if removed then ''Tunnel '' @ quoted tunnel_id @ '' removed successfully''
                   else ''Tunnel '' @ quoted tunnel_id @ '' not found in pool''), p)))"

definition tool_health_check :: "(json \<Rightarrow> string) \<Rightarrow> string \<Rightarrow> json \<Rightarrow> theap \<Rightarrow> pool \<Rightarrow> string" where
  "tool_health_check to_string version i h p =
     (let healthy_count = length (filter (\<lambda>r. healthy (h r)) (pool_all p)) in
      tool_result to_string i
        (to_string (JObj [(''status'', JStr ''ok''), (''version'', JStr version),
           (''tunnels_total'', JNum (int (pool_len p))), (''tunnels_healthy'', JNum (int healthy_count))])))"

section \<open>Requests\<close>

definition handle_tools_list :: "(json \<Rightarrow> string) \<Rightarrow> json \<Rightarrow> string" where
  "handle_tools_list to_string i = success_response to_string i (JObj [(''tools'', tool_definitions)])"

definition handle_tools_call ::
  "(json \<Rightarrow> string) \<Rightarrow> string \<Rightarrow> json \<Rightarrow> json \<Rightarrow> theap \<Rightarrow> pool \<Rightarrow> string \<times> pool" where
  "handle_tools_call to_string version i params h p =
     (case get_str ''name'' params of
        None \<Rightarrow> (error_response to_string i invalid_params ''Invalid params: missing tool name'', p)
      | Some tool_name \<Rightarrow>
          let arguments = (case json_get ''arguments'' params of Some a \<Rightarrow> a | None \<Rightarrow> JObj []) in
          if tool_name = ''pool_status'' then (tool_pool_status to_string i h p, p)
          else if tool_name = ''pool_add'' then (tool_pool_add to_string i arguments, p)
          else if tool_name = ''pool_remove'' then tool_pool_remove to_string i arguments h p
          else if tool_name = ''health_check'' then (tool_health_check to_string version i h p, p)
          else (error_response to_string i method_not_found (''Unknown tool: '' @ tool_name), p))"

definition mcp_handle_request ::
  "(string \<Rightarrow> string + json) \<Rightarrow> (json \<Rightarrow> string) \<Rightarrow> string \<Rightarrow> string \<Rightarrow> theap \<Rightarrow> pool \<Rightarrow> string \<times> pool" where
  "mcp_handle_request from_str to_string version request h p =
     (case from_str request of
        Inl _ \<Rightarrow> (error_response to_string JNull parse_error ''Parse error'', p)
      | Inr parsed \<Rightarrow>
          let i = (case json_get ''id'' parsed of Some x \<Rightarrow> x | None \<Rightarrow> JNull) in
          (case get_str ''method'' parsed of
             None \<Rightarrow> (error_response to_string i invalid_request ''Invalid request: missing method'', p)
           | Some method \<Rightarrow>
               let params = (case json_get ''params'' parsed of Some x \<Rightarrow> x | None \<Rightarrow> JObj []) in
               if method = ''tools/list'' then (handle_tools_list to_string i, p)
               else if method = ''tools/call'' then handle_tools_call to_string version i params h p
               else (error_response to_string i method_not_found ''Method not found'', p)))"

text \<open>
  The stdio loop: \<open>serve\<close> answers one request, \<open>emit\<close> writes a line to standard output and
  flushes it.
\<close>

partial_function (option) run_stdio ::
  "('r \<Rightarrow> (string + string) \<times> 'r) \<Rightarrow> ('o \<Rightarrow> string \<Rightarrow> (string + unit) \<times> 'o) \<Rightarrow> (string \<Rightarrow> pool \<Rightarrow> string \<times> pool) \<Rightarrow>
     'r \<Rightarrow> 'o \<Rightarrow> pool \<Rightarrow> ((string + unit) \<times> 'r \<times> 'o \<times> pool) option" where
  "run_stdio rd_line emit serve r out p =
     (case rd_line r of
        (Inl e, r) \<Rightarrow> Some (Inl e, r, out, p)
      | (Inr line, r) \<Rightarrow>
          if line = [] then Some (Inr (), r, out, p)
          else if trim line = [] then run_stdio rd_line emit serve r out p
          else
            (case serve (trim line) p of
               (response, p) \<Rightarrow>
                 (case emit out (response @ [newline]) of
                    (Inl e, out) \<Rightarrow> Some (Inl e, r, out, p)
                  | (Inr _, out) \<Rightarrow> run_stdio rd_line emit serve r out p)))"

section \<open>The shape of a response\<close>

text \<open>A JSON-RPC 2.0 response to the request with id \<open>i\<close>: a result or an error, nothing else.\<close>

definition rpc_response :: "(json \<Rightarrow> string) \<Rightarrow> json \<Rightarrow> string \<Rightarrow> bool" where
  "rpc_response to_string i s =
     (\<exists>key v. (key = ''result'' \<or> key = ''error'')
        \<and> s = to_string (JObj [(''jsonrpc'', JStr ''2.0''), (''id'', i), (key, v)]))"

lemma rpc_success [simp]: "rpc_response to_string i (success_response to_string i v)"
  by (auto simp: rpc_response_def success_response_def)

lemma rpc_error [simp]: "rpc_response to_string i (error_response to_string i code m)"
  by (auto simp: rpc_response_def error_response_def)

lemma rpc_tool_result [simp]: "rpc_response to_string i (tool_result to_string i s)"
  by (simp add: tool_result_def)

lemma rpc_tools_call: "rpc_response to_string i (fst (handle_tools_call to_string version i params h p))"
  by (simp add: handle_tools_call_def tool_pool_status_def tool_pool_add_def tool_pool_remove_def
      tool_health_check_def Let_def split: option.split prod.split)

definition request_id :: "json \<Rightarrow> json" where
  "request_id parsed = (case json_get ''id'' parsed of Some x \<Rightarrow> x | None \<Rightarrow> JNull)"

lemma mcp_response_rpc:
  "rpc_response to_string (case from_str request of Inl _ \<Rightarrow> JNull | Inr parsed \<Rightarrow> request_id parsed)
     (fst (mcp_handle_request from_str to_string version request h p))"
proof (cases "from_str request")
  case (Inr parsed)
  then show ?thesis
    using rpc_tools_call by (simp add: mcp_handle_request_def request_id_def handle_tools_list_def Let_def split: option.split)
qed (simp add: mcp_handle_request_def)

lemma mcp_response_printed: "\<exists>v. fst (mcp_handle_request from_str to_string version request h p) = to_string v"
  using mcp_response_rpc by (fastforce simp: rpc_response_def)

text \<open>The tunnel a request asks to remove, if that is what it asks.\<close>

definition removes :: "json \<Rightarrow> string option" where
  "removes parsed =
     (if get_str ''method'' parsed = Some ''tools/call'' then
        (case json_get ''params'' parsed of
           None \<Rightarrow> None
         | Some params \<Rightarrow>
             if get_str ''name'' params = Some ''pool_remove'' then
               (case json_get ''arguments'' params of None \<Rightarrow> None | Some a \<Rightarrow> get_str ''id'' a)
             else None)
      else None)"

lemma tools_call_pool:
  "snd (handle_tools_call to_string version i params h p) =
     (if get_str ''name'' params = Some ''pool_remove'' then
        (case json_get ''arguments'' params of
           None \<Rightarrow> p
         | Some a \<Rightarrow> (case get_str ''id'' a of None \<Rightarrow> p | Some t \<Rightarrow> snd (Pool.pool_remove h p t)))
      else p)"
  by (simp add: handle_tools_call_def tool_pool_remove_def Let_def split: option.split prod.split)

lemma mcp_pool_effect:
  assumes "from_str request = Inr parsed"
  shows "snd (mcp_handle_request from_str to_string version request h p) =
      (case removes parsed of None \<Rightarrow> p | Some tid \<Rightarrow> snd (Pool.pool_remove h p tid))"
  using assms by (simp add: mcp_handle_request_def removes_def tools_call_pool Let_def split: option.split)

section \<open>The stdio loop\<close>

function input_lines :: "string \<Rightarrow> string list" where
  "input_lines s = (if s = [] then [] else next_line s # input_lines (after_line s))"
  by pat_completeness auto
termination
  by (relation "measure length") (auto intro: after_line_shorter)

declare input_lines.simps [simp del]

definition requests :: "string \<Rightarrow> string list" where
  "requests s = filter (\<lambda>l. l \<noteq> []) (map trim (input_lines s))"

text \<open>The responses to a list of requests, and their text: one line each.\<close>

fun serve_all :: "(string \<Rightarrow> pool \<Rightarrow> string \<times> pool) \<Rightarrow> string list \<Rightarrow> pool \<Rightarrow> string list \<times> pool" where
  "serve_all serve [] p = ([], p)"
| "serve_all serve (q # qs) p =
     (case serve q p of (response, p1) \<Rightarrow>
        (case serve_all serve qs p1 of (rest, p2) \<Rightarrow> (response # rest, p2)))"

definition framed :: "string list \<Rightarrow> string" where
  "framed responses = concat (map (\<lambda>r. r @ [newline]) responses)"

lemma framed_simps [simp]: "framed [] = []" "framed (r # rs) = r @ newline # framed rs"
  by (simp_all add: framed_def)

lemma serve_all_Cons:
  "fst (serve_all serve (q # qs) p) = fst (serve q p) # fst (serve_all serve qs (snd (serve q p)))"
  "snd (serve_all serve (q # qs) p) = snd (serve_all serve qs (snd (serve q p)))"
  by (simp_all split: prod.split)

lemma serve_all_length: "length (fst (serve_all serve qs p)) = length qs"
  by (induction qs arbitrary: p) (simp_all add: serve_all_Cons del: serve_all.simps(2))

lemma serve_all_P: "(\<And>q p. P (fst (serve q p))) \<Longrightarrow> list_all P (fst (serve_all serve qs p))"
  by (induction qs arbitrary: p) (simp_all add: serve_all_Cons del: serve_all.simps(2))

text \<open>A reader of lines finds the responses again.\<close>

lemma input_lines_line: "newline \<notin> set l \<Longrightarrow> input_lines (l @ newline # s) = (l @ [newline]) # input_lines s"
  by (subst input_lines.simps) (simp add: next_line_closed after_line_closed)

lemma framed_lines: "list_all (\<lambda>r. newline \<notin> set r) rs \<Longrightarrow> input_lines (framed rs) = map (\<lambda>r. r @ [newline]) rs"
  by (induction rs) (simp_all add: input_lines_line input_lines.simps [of "[]"])

context line_reader
begin

lemma run_stdio_serves:
  assumes emit: "\<And>out s. \<exists>out'. emit out s = (Inr (), out') \<and> shown out' = shown out @ s"
    and "broken r = None"
  shows "\<exists>r' out'. run_stdio rd_line emit serve r out p =
      Some (Inr (), r', out', snd (serve_all serve (requests (pending r)) p))
    \<and> shown out' = shown out @ framed (fst (serve_all serve (requests (pending r)) p))"
  using assms(2)
proof (induction "length (pending r)" arbitrary: r out p rule: less_induct)
  case less
  obtain r1 where line: "rd_line r = (Inr (next_line (pending r)), r1)"
      "pending r1 = after_line (pending r)" "broken r1 = None"
    using next_line_ok [OF less.prems] by blast
  show ?case
  proof (cases "pending r = []")
    case True
    then show ?thesis
      using line by (simp add: run_stdio.simps [of _ _ _ r] requests_def input_lines.simps [of "[]"])
  next
    case False
    let ?l = "next_line (pending r)"
    have ne: "?l \<noteq> []" using False by (rule next_line_not_Nil)
    have shorter: "length (pending r1) < length (pending r)" using line(2) after_line_shorter [OF False] by simp
    have reqs: "requests (pending r) = (if trim ?l = [] then [] else [trim ?l]) @ requests (pending r1)"
      using False by (simp add: requests_def input_lines.simps [of "pending r"] line(2))
    show ?thesis
    proof (cases "trim ?l = []")
      case True
      then show ?thesis
        using less.hyps [OF shorter line(3), of out p] line(1) ne
        by (simp add: run_stdio.simps [of _ _ _ r] reqs)
    next
      case nonblank: False
      obtain response p1 where srv: "serve (trim ?l) p = (response, p1)" by (cases "serve (trim ?l) p")
      obtain out1 where out1: "emit out (response @ [newline]) = (Inr (), out1)"
          "shown out1 = shown out @ response @ [newline]"
        using emit by blast
      have "run_stdio rd_line emit serve r out p = run_stdio rd_line emit serve r1 out1 p1"
        using line(1) ne nonblank srv out1(1) by (simp add: run_stdio.simps [of _ _ _ r])
      then show ?thesis
        using less.hyps [OF shorter line(3), of out1 p1] nonblank srv out1(2)
        by (auto simp: reqs split: prod.splits)
    qed
  qed
qed

end

section \<open>Properties\<close>

text \<open>
  C34. Every request, malformed ones included, is answered by one JSON-RPC 2.0 response that
  echoes the request's id (null when there is none or the text is not JSON), and the only
  effect a request can have on the pool is to remove the tunnels with the id given to
  \<open>pool_remove\<close>; in particular \<open>pool_add\<close> never adds a tunnel.
\<close>

theorem mcp_request_effect:
  "case from_str request of
     Inl e \<Rightarrow>
       rpc_response to_string JNull (fst (mcp_handle_request from_str to_string version request h p))
       \<and> snd (mcp_handle_request from_str to_string version request h p) = p
   | Inr parsed \<Rightarrow>
       rpc_response to_string (request_id parsed) (fst (mcp_handle_request from_str to_string version request h p))
       \<and> snd (mcp_handle_request from_str to_string version request h p) =
           (case removes parsed of None \<Rightarrow> p | Some tid \<Rightarrow> snd (Pool.pool_remove h p tid))"
proof (cases "from_str request")
  case (Inl e)
  then show ?thesis by (simp add: mcp_handle_request_def)
next
  case (Inr parsed)
  have "rpc_response to_string (request_id parsed) (fst (mcp_handle_request from_str to_string version request h p))"
    using Inr mcp_response_rpc [of to_string from_str request version h p] by simp
  moreover have "snd (mcp_handle_request from_str to_string version request h p) =
      (case removes parsed of None \<Rightarrow> p | Some tid \<Rightarrow> snd (Pool.pool_remove h p tid))"
    by (rule mcp_pool_effect [of from_str, OF Inr])
  ultimately show ?thesis using Inr by simp
qed

text \<open>
  C35. The stdio server answers every request and ends: over an input that ends cleanly and an
  output that accepts what is written, \<open>run_stdio\<close> returns, having written one response per
  non-blank input line, in order, each computed on the pool the earlier requests left. Since
  the JSON printer writes no line feed, the responses are framed: a client that reads the
  output line by line gets each response as one line.
\<close>

theorem run_stdio_answers_all:
  assumes "line_reader rd_line pending broken" "broken r = None"
    and "\<And>out s. \<exists>out'. emit out s = (Inr (), out') \<and> shown out' = shown out @ s"
    and "one_line to_string"
  shows "\<exists>r' out' responses p'.
    run_stdio rd_line emit (\<lambda>q p. mcp_handle_request from_str to_string version q h p) r out p = Some (Inr (), r', out', p')
    \<and> serve_all (\<lambda>q p. mcp_handle_request from_str to_string version q h p) (requests (pending r)) p = (responses, p')
    \<and> length responses = length (requests (pending r))
    \<and> shown out' = shown out @ framed responses
    \<and> input_lines (framed responses) = map (\<lambda>response. response @ [newline]) responses"
proof -
  let ?serve = "\<lambda>q p. mcp_handle_request from_str to_string version q h p"
  obtain responses p' where all: "serve_all ?serve (requests (pending r)) p = (responses, p')"
    by (cases "serve_all ?serve (requests (pending r)) p")
  have "newline \<notin> set (fst (?serve q p))" for q p
    using mcp_response_printed [of from_str to_string version q h p] assms(4) by (auto simp: one_line_def)
  then have "list_all (\<lambda>response. newline \<notin> set response) responses"
    using serve_all_P [of "\<lambda>response. newline \<notin> set response" ?serve] all by (metis fst_conv)
  then show ?thesis
    using line_reader.run_stdio_serves [OF assms(1,3,2), of ?serve out p] serve_all_length [of ?serve "requests (pending r)" p]
    by (auto simp: all framed_lines)
qed

theorem run_stdio_answers_all_witness:
  "\<exists>r' out' responses. run_stdio br_read_line (\<lambda>out s. (Inr (), out @ s))
       (\<lambda>q p. mcp_handle_request read_json print_json ''1'' q sample_heap p)
       (br_new \<lparr>cn_chunks = [''a'', [newline], '' '', [newline], ''b''], cn_broken = None, cn_sent = []\<rparr>) [] (pool_new [])
     = Some (Inr (), r', out', pool_new []) \<and> length responses = 2 \<and> out' = framed responses"
proof -
  let ?r = "br_new \<lparr>cn_chunks = [''a'', [newline], '' '', [newline], ''b''], cn_broken = None, cn_sent = []\<rparr>"
  let ?serve = "\<lambda>q p. mcp_handle_request read_json print_json ''1'' q sample_heap p"
  have reqs: "requests (br_pending ?r) = [''a'', ''b'']"
    by (simp add: br_new_def br_pending_def requests_def input_lines.simps next_line_def after_line_def
        trim_def trim_end_def trim_start_def is_ws_def)
  moreover have "read_json ''a'' = Inl ''invalid JSON''" "read_json ''b'' = Inl ''invalid JSON''" by code_simp+
  ultimately have responses: "serve_all ?serve (requests (br_pending ?r)) (pool_new [])
      = ([error_response print_json JNull parse_error ''Parse error'', error_response print_json JNull parse_error ''Parse error''], pool_new [])"
    by (simp add: mcp_handle_request_def)
  have "br_broken ?r = None" by (simp add: br_new_def br_broken_def)
  then have "\<exists>r' out' rs p'. run_stdio br_read_line (\<lambda>out s. (Inr (), out @ s)) ?serve ?r [] (pool_new []) = Some (Inr (), r', out', p')
      \<and> serve_all ?serve (requests (br_pending ?r)) (pool_new []) = (rs, p')
      \<and> length rs = length (requests (br_pending ?r)) \<and> id out' = id [] @ framed rs
      \<and> input_lines (framed rs) = map (\<lambda>r. r @ [newline]) rs"
    by (intro run_stdio_answers_all [where broken = br_broken] br.line_reader_axioms print_one_line) auto
  then obtain r' out' rs p' where run: "run_stdio br_read_line (\<lambda>out s. (Inr (), out @ s)) ?serve ?r [] (pool_new []) = Some (Inr (), r', out', p')"
    "serve_all ?serve (requests (br_pending ?r)) (pool_new []) = (rs, p')" "out' = framed rs"
    by auto
  show ?thesis
    using run unfolding responses by (intro exI [of _ r'] exI [of _ out'] exI [of _ rs]) auto
qed

end
