(* ===== verification/Control.thy ===== *)
theory Control
  imports Admin Mcp
begin

text \<open>
  The two control interfaces, the admin API (\<open>src/src/admin/mod.rs\<close>) and the MCP server
  (\<open>src/src/mcp/mod.rs\<close>), over one pool.
\<close>

lemma status_value:
  "tool_pool_status to_string i h p = tool_result to_string i (to_string (pool_json (pool_body h p)))"
  by (simp add: tool_pool_status_def pool_json_def pool_body_def entry_json_def entry_of_def Let_def comp_def)

lemma health_value:
  "tool_health_check to_string version i h p = tool_result to_string i (to_string (JObj
     [(''status'', JStr (hr_status_text (health_body version))), (''version'', JStr (hr_version (health_body version))),
      (''tunnels_total'', JNum (int (pl_total (pool_body h p)))), (''tunnels_healthy'', JNum (int (pl_healthy (pool_body h p))))]))"
  by (simp add: tool_health_check_def health_body_def pool_body_def pool_len_def pool_all_def Let_def)

definition calls :: "json \<Rightarrow> string \<Rightarrow> bool" where
  "calls parsed tool_name =
     (get_str ''method'' parsed = Some ''tools/call''
      \<and> (\<exists>params. json_get ''params'' parsed = Some params \<and> get_str ''name'' params = Some tool_name))"

lemma call_answers:
  assumes "from_str request = Inr parsed"
  shows "calls parsed ''pool_status'' \<Longrightarrow> fst (mcp_handle_request from_str to_string version request h p)
      = tool_pool_status to_string (request_id parsed) h p"
    and "calls parsed ''health_check'' \<Longrightarrow> fst (mcp_handle_request from_str to_string version request h p)
      = tool_health_check to_string version (request_id parsed) h p"
  using assms by (auto simp: calls_def mcp_handle_request_def handle_tools_call_def request_id_def Let_def)

text \<open>
  C18. The admin API and the MCP server agree on the pool. The value that the \<open>pool_status\<close> tool
  prints is the value that the admin API prints for \<open>/pool\<close>, and the \<open>health_check\<close> tool gives
  the status and version of \<open>/health\<close> and the counts of \<open>/pool\<close>; and whatever request the MCP
  server has served, the report of the admin API afterwards is the one before it without the
  entries of the tunnel that the request removed. The two print their values on their own
  (\<open>to_string\<close> a value, \<open>print\<close> a struct), so the members of an object may come in another order.
\<close>

theorem control_interfaces_agree:
  assumes "from_str request = Inr parsed"
  shows "(calls parsed ''pool_status'' \<longrightarrow>
       (\<exists>v. fst (mcp_handle_request from_str to_string version request h p) = tool_result to_string (request_id parsed) (to_string v)
          \<and> rs_bytes (admin_handle_request (\<lambda>b. Inr (print (body_json b))) version ''GET'' ''/pool'' h p) = print v))
   \<and> (calls parsed ''health_check'' \<longrightarrow>
       (\<exists>v rep. fst (mcp_handle_request from_str to_string version request h p) = tool_result to_string (request_id parsed) (to_string v)
          \<and> rs_bytes (admin_handle_request (\<lambda>b. Inr (print (body_json b))) version ''GET'' ''/health'' h p)
              = print (JObj [(''status'', the (json_get ''status'' v)), (''version'', the (json_get ''version'' v))])
          \<and> rs_bytes (admin_handle_request (\<lambda>b. Inr (print (body_json b))) version ''GET'' ''/pool'' h p) = print (pool_json rep)
          \<and> json_get ''tunnels_total'' v = Some (JNum (int (pl_total rep)))
          \<and> json_get ''tunnels_healthy'' v = Some (JNum (int (pl_healthy rep)))))
   \<and> pl_tunnels (pool_body h (snd (mcp_handle_request from_str to_string version request h p)))
       = (case removes parsed of
            None \<Rightarrow> pl_tunnels (pool_body h p)
          | Some tid \<Rightarrow> filter (\<lambda>e. en_id e \<noteq> tid) (pl_tunnels (pool_body h p)))"
proof (intro conjI impI)
  assume "calls parsed ''pool_status''"
  then show "\<exists>v. fst (mcp_handle_request from_str to_string version request h p) = tool_result to_string (request_id parsed) (to_string v)
      \<and> rs_bytes (admin_handle_request (\<lambda>b. Inr (print (body_json b))) version ''GET'' ''/pool'' h p) = print v"
    by (intro exI [of _ "pool_json (pool_body h p)"])
      (simp add: call_answers(1) [of from_str, OF assms] status_value admin_handle_request_def json_response_def)
next
  assume "calls parsed ''health_check''"
  then show "\<exists>v rep. fst (mcp_handle_request from_str to_string version request h p) = tool_result to_string (request_id parsed) (to_string v)
      \<and> rs_bytes (admin_handle_request (\<lambda>b. Inr (print (body_json b))) version ''GET'' ''/health'' h p)
          = print (JObj [(''status'', the (json_get ''status'' v)), (''version'', the (json_get ''version'' v))])
      \<and> rs_bytes (admin_handle_request (\<lambda>b. Inr (print (body_json b))) version ''GET'' ''/pool'' h p) = print (pool_json rep)
      \<and> json_get ''tunnels_total'' v = Some (JNum (int (pl_total rep)))
      \<and> json_get ''tunnels_healthy'' v = Some (JNum (int (pl_healthy rep)))"
    by (intro exI [of _ "pool_body h p"] exI [of _ "JObj
        [(''status'', JStr (hr_status_text (health_body version))), (''version'', JStr (hr_version (health_body version))),
         (''tunnels_total'', JNum (int (pl_total (pool_body h p)))), (''tunnels_healthy'', JNum (int (pl_healthy (pool_body h p))))]"])
      (simp add: call_answers(2) [of from_str, OF assms] health_value admin_handle_request_def json_response_def health_json_def)
next
  show "pl_tunnels (pool_body h (snd (mcp_handle_request from_str to_string version request h p)))
      = (case removes parsed of
           None \<Rightarrow> pl_tunnels (pool_body h p)
         | Some tid \<Rightarrow> filter (\<lambda>e. en_id e \<noteq> tid) (pl_tunnels (pool_body h p)))"
    using assms by (simp add: mcp_pool_effect [of from_str] pl_tunnels_remove split: option.split)
qed

definition status_request :: json where
  "status_request =
     JObj [(''jsonrpc'', JStr ''2.0''), (''id'', JNum 1), (''method'', JStr ''tools/call''),
           (''params'', JObj [(''name'', JStr ''pool_status'')])]"

theorem control_interfaces_agree_witness:
  "\<exists>v. fst (mcp_handle_request read_json print_json ''1'' (print_json status_request) sample_heap (pool_new [0]))
          = tool_result print_json (JNum 1) (print_json v)
     \<and> rs_bytes (admin_handle_request (\<lambda>b. Inr (print_json (body_json b))) ''1'' ''GET'' ''/pool'' sample_heap (pool_new [0]))
          = print_json v"
proof -
  have read: "read_json (print_json status_request) = Inr status_request"
  proof -
    have "wf_json status_request" by (simp add: status_request_def)
    then show ?thesis using read_json_print unfolding json_reads_def by blast
  qed
  have "calls status_request ''pool_status''" "request_id status_request = JNum 1"
    by (simp_all add: calls_def get_str_def request_id_def status_request_def)
  then show ?thesis
    using control_interfaces_agree [of read_json, OF read, of print_json "''1''" sample_heap "pool_new [0]" print_json] by simp
qed

end
