(* ===== verification/Chain.thy ===== *)
theory Chain
  imports Proxy_Server
begin

text \<open>
  Two instances of the program in a chain: the HTTP CONNECT transport of one
  (\<open>src/src/transport/http_proxy.rs\<close>) has the front door of the other
  (\<open>src/src/proxy/mod.rs\<close>) as its proxy. What the one writes is what the other reads, and
  conversely; the lemmas say that the two formats fit.
\<close>

section \<open>The request\<close>

lemma ascii_upper_connect: "map ascii_upper ''CONNECT '' = ''CONNECT ''"
  by (simp add: ascii_upper_def)

lemma no_ws_no_newline: "list_all (\<lambda>c. \<not> is_ws c) s \<Longrightarrow> newline \<notin> set s"
  by (auto simp: list_all_iff is_ws_def)

text \<open>A destination is a part of a word of the request line.\<close>

lemma ipv6_authority_no_ws:
  "parse_ipv6_authority a d = Inr (h, p) \<Longrightarrow> list_all P a \<Longrightarrow> h \<noteq> [] \<and> list_all P h"
  by (auto simp: parse_ipv6_authority_def res_simps Let_def list_all_iff
      split: option.splits if_splits dest!: in_set_dropD in_set_takeD)

lemma host_port_no_ws: "parse_host_port a = Inr (h, p) \<Longrightarrow> list_all P a \<Longrightarrow> h \<noteq> [] \<and> list_all P h"
  using ipv6_authority_no_ws [of a 0 h p P]
  by (auto simp: parse_host_port_def res_simps rsplit_once_Some_iff split: if_splits option.splits)

lemma second_word:
  "\<not> length (split_whitespace l) < 2 \<Longrightarrow> list_all (\<lambda>c. \<not> is_ws c) (split_whitespace l ! 1)"
  using split_whitespace_words [of "split_whitespace l ! 1" l] by simp

lemma connect_host:
  "parse_connect l = Inr (h, p) \<Longrightarrow> h \<noteq> [] \<and> list_all (\<lambda>c. \<not> is_ws c) h"
  using host_port_no_ws [of "split_whitespace l ! 1" h p] second_word [of l]
  by (auto simp: parse_connect_def Let_def split: if_splits)

lemma list_all_strip: "strip_prefix q s = Some r \<Longrightarrow> list_all P s \<Longrightarrow> list_all P r"
  by (simp add: strip_prefix_iff)

lemma plain_host:
  assumes "parse_http_request l = Inr (m, h, p, path)"
  shows "h \<noteq> [] \<and> list_all (\<lambda>c. \<not> is_ws c) h"
proof -
  let ?ok = "list_all (\<lambda>c. \<not> is_ws c)"
  let ?url = "split_whitespace l ! 1"
  from assms have two: "\<not> length (split_whitespace l) < 2" by (auto simp: parse_http_request_def Let_def)
  have url: "?ok ?url" by (rule second_word [OF two])
  define scheme :: "error + string \<times> u16" where "scheme = (case strip_prefix ''https://'' ?url of
     Some rest \<Rightarrow> Inr (rest, 443)
   | None \<Rightarrow> (case strip_prefix ''http://'' ?url of
        Some rest \<Rightarrow> Inr (rest, 80)
      | None \<Rightarrow> Inl (Proxy (''expected absolute URL (http:// or https://), got: '' @ ?url))))"
  obtain rest d where scheme: "scheme = Inr (rest, d :: u16)"
    using assms two by (cases scheme) (auto simp: parse_http_request_def Let_def scheme_def [symmetric] simp del: One_nat_def)
  then have rest: "?ok rest" using url by (auto simp: scheme_def split: option.splits dest: list_all_strip)
  define a where "a = fst (case str_find (CHR ''/'') rest of Some idx \<Rightarrow> (take idx rest, drop idx rest) | None \<Rightarrow> (rest, ''/''))"
  have a: "?ok a" using rest by (auto simp: a_def list_all_iff split: option.split dest: in_set_takeD)
  have "(starts_with a ''['' \<and> parse_ipv6_authority a d = Inr (h, p)
      \<or> (\<exists>q. rsplit_once (CHR '':'') a = Some (h, q)) \<or> h = a) \<and> h \<noteq> []"
    using assms two scheme
    by (auto simp: parse_http_request_def Let_def res_simps scheme_def [symmetric] a_def case_prod_beta simp del: One_nat_def split: if_splits option.splits)
  then show ?thesis using a ipv6_authority_no_ws [of a d h p "\<lambda>c. \<not> is_ws c"]
    by (auto simp: rsplit_once_Some_iff)
qed

lemma requested_host: "requested l = Inr (h, p) \<Longrightarrow> h \<noteq> [] \<and> list_all (\<lambda>c. \<not> is_ws c) h"
  using connect_host [of l h p] plain_host [of l _ h p] by (auto simp: requested_def res_simps split: if_splits)


text \<open>Lines as the transport ends them.\<close>

lemma crlf_line:
  assumes "newline \<notin> set x"
  shows "next_line (x @ crlf @ s) = x @ crlf" "after_line (x @ crlf @ s) = s"
proof -
  have eq: "x @ crlf @ s = (x @ [CHR 0x0D]) @ newline # s" and nl: "newline \<notin> set (x @ [CHR 0x0D])"
    using assms by (simp_all add: crlf_def)
  show "next_line (x @ crlf @ s) = x @ crlf" "after_line (x @ crlf @ s) = s"
    unfolding eq next_line_closed [OF nl] after_line_closed [OF nl] by (simp_all add: crlf_def)
qed

abbreviation authority :: "string \<Rightarrow> u16 \<Rightarrow> string" where
  "authority host port \<equiv> host @ '':'' @ show_word port"

lemma authority_parses:
  assumes "host \<noteq> []" "\<not> starts_with host ''[''"
  shows "parse_host_port (authority host port) = Inr (host, port)"
proof -
  have "\<not> starts_with (authority host port) ''[''" using assms by (cases host) auto
  moreover have "CHR '':'' \<notin> set (show_word port)" by (simp add: show_nat_no_char digit_val_def)
  ultimately show ?thesis using assms(1) by (auto simp: parse_host_port_name)
qed

lemma authority_no_ws: "list_all (\<lambda>c. \<not> is_ws c) host \<Longrightarrow> list_all (\<lambda>c. \<not> is_ws c) (authority host port)"
  using show_nat_no_ws [of "unat port"] by (simp add: is_ws_def)

text \<open>What the encoder is relied on for: a line of text stays one line.\<close>

definition clean_base64 :: "'s net_ops \<Rightarrow> bool" where
  "clean_base64 net = (\<forall>s. newline \<notin> set (base64_encode net s))"

text \<open>The request line as the front door takes it: without its line end, and parsed.\<close>

lemma connect_line:
  fixes port :: u16
  assumes "host \<noteq> []" "list_all (\<lambda>c. \<not> is_ws c) host" "\<not> starts_with host ''[''"
  defines "line \<equiv> ''CONNECT '' @ authority host port @ '' HTTP/1.1''"
  shows "trim_end (line @ crlf) = line" "parse_connect line = Inr (host, port)"
proof -
  have "list_all is_ws crlf" by (simp add: crlf_def is_ws_def)
  then have "trim_end (line @ crlf) = trim_end line" by (rule trim_end_append_ws)
  also have "\<dots> = line" unfolding line_def by (rule trim_end_id) (simp add: is_ws_def)
  finally show "trim_end (line @ crlf) = line" .
  have "list_all (\<lambda>c. \<not> is_ws c) (authority host port)" "authority host port \<noteq> []"
    using authority_no_ws [OF assms(2)] by simp_all
  then obtain ws where "split_whitespace line = ''CONNECT'' # authority host port # ws"
    using split_whitespace_two [of "''CONNECT''" "authority host port"] by (auto simp: is_ws_def line_def)
  then show "parse_connect line = Inr (host, port)"
    using authority_parses [OF assms(1,3)] by (simp add: parse_connect_def eq_ignore_ascii_case_def)
qed

section \<open>The reply\<close>

lemma established_head: "response_head established" "status_code (first_or_empty (str_lines established)) = 200"
  subgoal by code_simp
  subgoal
    by (simp add: established_def crlf_def status_code_def first_or_empty_def strip_cr_def
        split_whitespace.simps is_ws_def digit_val_def parse_u16_def Let_def)
  done

lemma established_accepted:
  assumes "reads_bytes net unread" "tcp_connect net (hp_proxy_addr t) = Inr s0"
    "stream_write_all net s0 (connect_req net t host port) = Inr s1" "unread s1 = established @ rest"
  shows "\<exists>s. http_proxy_connect net t host port = Inr s \<and> unread s = rest"
proof -
  obtain s where "read_response net (hp_proxy_addr t) s1 [] = Inr (established, s)" "unread s = rest"
    using read_response_iff [OF assms(1), of "hp_proxy_addr t" s1 established rest] assms(4) established_head(1) by auto
  then show ?thesis using assms(2,3) established_head(2) by (simp add: http_proxy_connect_def Let_def)
qed

section \<open>The segments of the request\<close>

text \<open>
  The buffered reader \<open>r\<close> over the socket \<open>c\<close> has \<open>unread\<close> before it up to a boundary between two
  segments, behind which the segments \<open>later\<close> are still in the socket.
\<close>

definition up_to_boundary :: "conn \<Rightarrow> string list \<Rightarrow> string \<Rightarrow> bufreader \<Rightarrow> bool" where
  "up_to_boundary c later unread r =
     (\<exists>segs. br_inner r = c\<lparr>cn_chunks := segs @ later\<rparr> \<and> [] \<notin> set segs \<and> br_buf r @ concat segs = unread)"

lemma boundary_new:
  "cn_chunks c = segs @ later \<Longrightarrow> [] \<notin> set segs \<Longrightarrow> up_to_boundary c later (concat segs) (br_new c)"
  by (auto simp: up_to_boundary_def br_new_def intro!: exI [of _ segs])

lemma boundary_end: "up_to_boundary c later [] r \<Longrightarrow> br_buf r = [] \<and> br_inner r = c\<lparr>cn_chunks := later\<rparr>"
proof -
  have "concat segs = [] \<Longrightarrow> [] \<notin> set segs \<Longrightarrow> segs = []" for segs :: "string list" by (cases segs) auto
  then show "up_to_boundary c later [] r \<Longrightarrow> br_buf r = [] \<and> br_inner r = c\<lparr>cn_chunks := later\<rparr>"
    by (auto simp: up_to_boundary_def)
qed

lemma boundary_fill:
  assumes "up_to_boundary c later unread r" "unread \<noteq> []"
  shows "\<exists>r'. br_fill r = (Inr (), r') \<and> br_buf r' \<noteq> [] \<and> up_to_boundary c later unread r'"
proof (cases "br_buf r")
  case Nil
  obtain segs where segs: "br_inner r = c\<lparr>cn_chunks := segs @ later\<rparr>" "[] \<notin> set segs" "concat segs = unread"
    using assms(1) Nil by (auto simp: up_to_boundary_def)
  then obtain seg rest where s: "segs = seg # rest" "seg \<noteq> []" using assms(2) by (cases segs) auto
  show ?thesis
  proof (cases "length seg \<le> 8192")
    case True
    then show ?thesis using Nil segs s by (auto simp: br_fill_def conn_read_def up_to_boundary_def)
  next
    case False
    then show ?thesis using Nil segs s
      by (auto simp: br_fill_def conn_read_def up_to_boundary_def intro!: exI [of _ "drop 8192 seg # rest"])
  qed
qed (use assms in \<open>simp add: br_fill_def\<close>)

text \<open>A line is read across segments, but never across the boundary.\<close>

lemma boundary_line_loop:
  assumes "up_to_boundary c later unread r" "newline \<in> set unread"
  shows "\<exists>r'. br_line_loop r acc = (Inr (acc @ next_line unread), r') \<and> up_to_boundary c later (after_line unread) r'"
  using assms
proof (induction "length unread" arbitrary: unread r acc rule: less_induct)
  case less
  have "unread \<noteq> []" using less.prems(2) by auto
  then obtain r1 where fill: "br_fill r = (Inr (), r1)" "br_buf r1 \<noteq> []" "up_to_boundary c later unread r1"
    using boundary_fill [OF less.prems(1)] by blast
  then obtain segs where segs: "br_inner r1 = c\<lparr>cn_chunks := segs @ later\<rparr>" "[] \<notin> set segs" "unread = br_buf r1 @ concat segs"
    by (auto simp: up_to_boundary_def)
  show ?case
  proof (cases "str_find newline (br_buf r1)")
    case (Some i)
    then show ?thesis
      using fill(1) segs line_in_buffer(1,2) [OF Some, of "concat segs"]
      by (auto simp: br_line_loop.simps [of r] up_to_boundary_def)
  next
    case None
    let ?r = "r1\<lparr>br_buf := []\<rparr>"
    have nb: "newline \<notin> set (br_buf r1)" using None by (simp add: str_find_None_iff)
    have step: "br_line_loop r acc = br_line_loop ?r (acc @ br_buf r1)"
      using fill(1,2) None by (simp add: br_line_loop.simps [of r])
    have "length (concat segs) < length unread" using fill(2) segs(3) by simp
    moreover have "up_to_boundary c later (concat segs) ?r" using segs by (auto simp: up_to_boundary_def)
    moreover have "newline \<in> set (concat segs)" using less.prems(2) nb segs(3) by auto
    ultimately show ?thesis
      using less.hyps [of "concat segs" ?r "acc @ br_buf r1"] line_past_buffer [OF nb, of "concat segs"]
      by (simp add: step segs(3))
  qed
qed

lemma boundary_line:
  assumes "up_to_boundary c later (x @ crlf @ s) r" "newline \<notin> set x"
  shows "\<exists>r'. br_read_line r = (Inr (x @ crlf), r') \<and> up_to_boundary c later s r'"
  using boundary_line_loop [OF assms(1), of "[]"] crlf_line [OF assms(2), of s]
  by (simp add: br_read_line_def crlf_def)

text \<open>Headers are discarded up to the boundary: a line that is not blank, and the blank one.\<close>

lemma boundary_header:
  assumes "up_to_boundary c later (x @ crlf @ s) r" "newline \<notin> set x" "\<not> list_all is_ws x"
  shows "\<exists>r'. discard_headers br_read_line r = discard_headers br_read_line r' \<and> up_to_boundary c later s r'"
proof -
  obtain r' where "br_read_line r = (Inr (x @ crlf), r')" "up_to_boundary c later s r'"
    using boundary_line [OF assms(1,2)] by blast
  moreover have "trim (x @ crlf) \<noteq> []" using assms(3) by (simp add: trim_ws_only)
  ultimately show ?thesis by (intro exI [of _ r']) (simp add: discard_headers.simps [of _ r])
qed

lemma boundary_blank:
  assumes "up_to_boundary c later crlf r"
  shows "\<exists>r'. discard_headers br_read_line r = Some (Inr (), r') \<and> up_to_boundary c later [] r'"
proof -
  obtain r' where "br_read_line r = (Inr crlf, r')" "up_to_boundary c later [] r'"
    using boundary_line [of c later "[]" "[]" r] assms by auto
  moreover have "trim crlf = []" by (simp add: trim_ws_only crlf_def is_ws_def)
  ultimately show ?thesis by (simp add: discard_headers.simps [of _ r])
qed

lemma connect_req_boundary:
  assumes "clean_base64 net" "list_all (\<lambda>c. \<not> is_ws c) host"
    and "up_to_boundary c later (connect_req net t host port) r"
  shows "\<exists>r1 r2. br_read_line r = (Inr (''CONNECT '' @ authority host port @ '' HTTP/1.1'' @ crlf), r1)
    \<and> discard_headers br_read_line r1 = Some (Inr (), r2) \<and> br_inner r2 = c\<lparr>cn_chunks := later\<rparr>"
proof -
  let ?line = "''CONNECT '' @ authority host port @ '' HTTP/1.1''" and ?host = "''Host: '' @ authority host port"
  have nl: "newline \<notin> set ?line" "newline \<notin> set ?host" using no_ws_no_newline [OF authority_no_ws [OF assms(2)]] by simp_all
  have "up_to_boundary c later (?line @ crlf @ ?host @ crlf @ auth_header net t @ crlf) r"
    using assms(3) by (simp add: connect_req_def)
  then obtain r1 where r1: "br_read_line r = (Inr (?line @ crlf), r1)"
    "up_to_boundary c later (?host @ crlf @ auth_header net t @ crlf) r1"
    using boundary_line [OF _ nl(1)] by blast
  have "\<not> list_all is_ws ?host" by (simp add: is_ws_def)
  then obtain r2 where r2: "discard_headers br_read_line r1 = discard_headers br_read_line r2"
    "up_to_boundary c later (auth_header net t @ crlf) r2"
    using boundary_header [OF r1(2) nl(2)] by blast
  have "\<exists>r3. discard_headers br_read_line r2 = discard_headers br_read_line r3 \<and> up_to_boundary c later crlf r3"
  proof (cases "hp_auth t")
    case None
    then show ?thesis using r2(2) by (auto simp: auth_header_def)
  next
    case (Some up)
    obtain user pass where up: "up = (user, pass)" by (cases up)
    let ?h = "''Proxy-Authorization: Basic '' @ base64_encode net (user @ '':'' @ pass)"
    have eq: "auth_header net t @ crlf = ?h @ crlf @ crlf" by (simp add: auth_header_def Some up crlf_def)
    have h: "newline \<notin> set ?h" "\<not> list_all is_ws ?h" using assms(1) by (simp_all add: clean_base64_def is_ws_def)
    from boundary_header [OF r2(2) [unfolded eq] h] show ?thesis .
  qed
  then obtain r3 where r3: "discard_headers br_read_line r2 = discard_headers br_read_line r3" "up_to_boundary c later crlf r3" by blast
  obtain r4 where "discard_headers br_read_line r3 = Some (Inr (), r4)" "up_to_boundary c later [] r4"
    using boundary_blank [OF r3(2)] by blast
  moreover from this(2) have "br_inner r4 = c\<lparr>cn_chunks := later\<rparr>" using boundary_end by blast
  ultimately have "discard_headers br_read_line r1 = Some (Inr (), r4)" "br_inner r4 = c\<lparr>cn_chunks := later\<rparr>"
    by (simp_all only: r2(1) r3(1))
  then show ?thesis using r1(1) by (metis append_assoc)
qed

section \<open>Properties\<close>

text \<open>
  C16. Two instances can be chained without losing a byte. Whatever destination an agent's
  request line asks of the one (unless its host itself begins with a bracket), the CONNECT
  request that its HTTP-proxy transport sends is read by the front door of the other as a CONNECT
  for that very host and port, credentials and all. The transport sends nothing behind its
  request before it has the reply, so the request ends where a segment ends; however it is cut
  into segments before that, the other instance picks a transport, dials there, writes its reply,
  and joins the tunnel with a socket whose unread segments are exactly those that came later. The
  reply is accepted by the transport of the first, whose stream starts with the first byte that
  follows it.
\<close>

theorem chained_proxies:
  assumes "requested line = Inr (host, port)" "\<not> starts_with host ''[''" "clean_base64 net"
    and "cn_chunks stream = segs @ later" "[] \<notin> set segs" "concat segs = connect_req net t host port"
    and "picker st host port = (Inr t', st')" "connect net' t' host port = Inr tunnel"
    and "reads_bytes net unread" "tcp_connect net (hp_proxy_addr t) = Inr s0"
    and "stream_write_all net s0 (connect_req net t host port) = Inr s1" "unread s1 = established @ data"
  shows "handle_connection (br_io\<lparr>copy_bidirectional := copy\<rparr>) net' picker st stream =
      Some (case copy (stream\<lparr>cn_chunks := later, cn_sent := cn_sent stream @ established\<rparr>) tunnel of
              (_, agent, tunnel') \<Rightarrow> (Finished agent tunnel', st'))
    \<and> (\<exists>s. connect net (HttpProxy t) host port = Inr s \<and> unread s = data)"
proof
  let ?line = "''CONNECT '' @ authority host port @ '' HTTP/1.1''" and ?io = "br_io\<lparr>copy_bidirectional := copy\<rparr>"
  have host: "host \<noteq> []" "list_all (\<lambda>c. \<not> is_ws c) host" using requested_host [OF assms(1)] by simp_all
  have "up_to_boundary stream later (connect_req net t host port) (br_new stream)"
    using boundary_new [OF assms(4,5)] by (simp add: assms(6))
  then obtain r1 r2 where read: "br_read_line (br_new stream) = (Inr (?line @ crlf), r1)"
    "discard_headers br_read_line r1 = Some (Inr (), r2)" "br_inner r2 = stream\<lparr>cn_chunks := later\<rparr>"
    using connect_req_boundary [OF assms(3) host(2)] by (metis append_assoc)
  have line: "trim_end (?line @ crlf) = ?line" by (rule connect_line(1) [OF host assms(2)])
  have "starts_with (to_uppercase ?line) ''CONNECT ''" by (simp add: ascii_upper_def)
  moreover have "parse_connect ?line = Inr (host, port)" by (rule connect_line(2) [OF host assms(2)])
  moreover have "?line \<noteq> []" by simp
  moreover have io: "rd_read_line ?io = br_read_line" "rd_new ?io = br_new" by (simp_all add: br_io_def)
  ultimately show "handle_connection ?io net' picker st stream =
      Some (case copy (stream\<lparr>cn_chunks := later, cn_sent := cn_sent stream @ established\<rparr>) tunnel of
              (_, agent, tunnel') \<Rightarrow> (Finished agent tunnel', st'))"
    unfolding handle_connection_def io read(1) prod.case sum.case line Let_def
    by (simp add: handle_connect_def read(2,3) assms(7,8) io del: append_Cons append_Nil)
      (simp add: br_io_def br_into_inner_def conn_write_def read(3))
  show "\<exists>s. connect net (HttpProxy t) host port = Inr s \<and> unread s = data"
    using established_accepted [OF assms(9-12)] by simp
qed

text \<open>
  The other instance on a socket that delivers the request in two segments and, later, the
  agent's first bytes; the first on a proxy that answers as the other does.
\<close>

definition sample_upstream :: "string net_ops" where
  "sample_upstream = (list_net (established @ ''tls''))\<lparr>base64_encode := filter (\<lambda>c. c \<noteq> newline)\<rparr>"

definition sample_hop :: http_proxy_transport where
  "sample_hop = http_proxy_new ''p:1'' (Some (''u'', ''pw'')) ''up''"

definition sample_hop_request :: string where
  "sample_hop_request = connect_req sample_upstream sample_hop ''h.example'' 443"

theorem chained_proxies_witness:
  "handle_connection (br_io\<lparr>copy_bidirectional := copy_bidirectional br_io\<rparr>) sink_net sample_pick ()
      (sample_conn [take 9 sample_hop_request, drop 9 sample_hop_request, ''hello''])
     = Some (Finished ((sample_conn [])\<lparr>cn_sent := established\<rparr>) ''hello'', ())
    \<and> (\<exists>s. connect sample_upstream (HttpProxy sample_hop) ''h.example'' 443 = Inr s \<and> s = ''tls'')"
proof -
  let ?segs = "[take 9 sample_hop_request, drop 9 sample_hop_request]"
  have line: "requested ''CONNECT h.example:443'' = Inr (''h.example'', 443)"
    by (simp add: requested_def parse_connect_def parse_host_port_def eq_ignore_ascii_case_def ascii_upper_def text_eval)
  have b64: "clean_base64 sample_upstream" by (simp add: clean_base64_def sample_upstream_def)
  have segs: "cn_chunks (sample_conn (?segs @ [''hello''])) = ?segs @ [''hello'']" "[] \<notin> set ?segs"
    "concat ?segs = connect_req sample_upstream sample_hop ''h.example'' 443"
    by (simp_all add: sample_conn_def sample_hop_request_def connect_req_def)
  have reads: "reads_bytes sample_upstream (\<lambda>s. s)"
    by (auto simp: reads_bytes_def sample_upstream_def list_net_def split: list.split)
  have ends: "tcp_connect sample_upstream (hp_proxy_addr sample_hop) = Inr (established @ ''tls'')"
    "stream_write_all sample_upstream (established @ ''tls'') (connect_req sample_upstream sample_hop ''h.example'' 443)
      = Inr (established @ ''tls'')"
    by (simp_all add: sample_upstream_def list_net_def)
  have no_bracket: "\<not> starts_with ''h.example'' ''[''" by simp
  have pick: "sample_pick () ''h.example'' 443 = (Inr (Socks5 (socks5_new ''p:1'' ''l'')), ())" by (simp add: sample_pick_def)
  note run = chained_proxies [where picker = sample_pick, OF line no_bracket b64 segs pick sink_connect reads ends refl]
  show ?thesis using run [of "copy_bidirectional br_io"]
    by (simp add: br_io_def sample_conn_def)
qed

end
