(* ===== verification/Nord_Api.thy ===== *)
theory Nord_Api
  imports Import_Cfg Json "HOL-Library.Monad_Syntax"
begin

text \<open>
  The exchange of \<open>import nord\<close> with the NordVPN service (\<open>src/src/import/nord.rs\<close>): the
  decoders that serde derives for the response types, and which requests are sent with which
  secrets.
\<close>

section \<open>The response types\<close>

definition decode_country :: "json \<Rightarrow> country option" where
  "decode_country v = do {
     fs \<leftarrow> struct_fields [''code'', ''name''] v;
     code \<leftarrow> field ''code'' as_str fs;
     name \<leftarrow> field ''name'' as_str fs;
     Some \<lparr>co_code = code, co_name = name\<rparr>
   }"

definition decode_location :: "json \<Rightarrow> location option" where
  "decode_location v = do {
     fs \<leftarrow> struct_fields [''country''] v;
     country \<leftarrow> field ''country'' decode_country fs;
     Some \<lparr>lo_country = country\<rparr>
   }"

definition decode_metadata :: "json \<Rightarrow> tech_metadata option" where
  "decode_metadata v = do {
     fs \<leftarrow> struct_fields [''name'', ''value''] v;
     name \<leftarrow> field ''name'' as_str fs;
     val \<leftarrow> field ''value'' as_str fs;
     Some \<lparr>tm_name = name, tm_value = val\<rparr>
   }"

text \<open>A pivot is its status.\<close>

definition decode_pivot :: "json \<Rightarrow> string option" where
  "decode_pivot v = do {
     fs \<leftarrow> struct_fields [''status''] v;
     field ''status'' as_str fs
   }"

definition decode_technology :: "json \<Rightarrow> technology option" where
  "decode_technology v = do {
     fs \<leftarrow> struct_fields [''identifier'', ''metadata'', ''pivot''] v;
     identifier \<leftarrow> field ''identifier'' as_str fs;
     metadata \<leftarrow> field ''metadata'' (as_vec decode_metadata) fs;
     pivot \<leftarrow> opt_field ''pivot'' decode_pivot fs;
     Some \<lparr>te_identifier = identifier, te_metadata = metadata, te_pivot_status = pivot\<rparr>
   }"

definition decode_server :: "json \<Rightarrow> server_entry option" where
  "decode_server v = do {
     fs \<leftarrow> struct_fields [''id'', ''name'', ''hostname'', ''station'', ''technologies'', ''locations''] v;
     i \<leftarrow> field ''id'' as_u64 fs;
     name \<leftarrow> field ''name'' as_str fs;
     hostname \<leftarrow> field ''hostname'' as_str fs;
     station \<leftarrow> field ''station'' as_str fs;
     technologies \<leftarrow> field ''technologies'' (as_vec decode_technology) fs;
     locations \<leftarrow> field ''locations'' (as_vec decode_location) fs;
     Some \<lparr>se_id = i, se_name = name, se_hostname = hostname, se_station = station,
       se_technologies = technologies, se_locations = locations\<rparr>
   }"

definition decode_credentials :: "json \<Rightarrow> credentials_response option" where
  "decode_credentials v = do {
     fs \<leftarrow> struct_fields [''nordlynx_private_key''] v;
     key \<leftarrow> field ''nordlynx_private_key'' as_str fs;
     Some \<lparr>nordlynx_private_key = key\<rparr>
   }"

text \<open>A body is decoded as text and then as a type.\<close>

definition decode_body :: "(string \<Rightarrow> string + json) \<Rightarrow> (json \<Rightarrow> 'a option) \<Rightarrow> string \<Rightarrow> string + 'a" where
  "decode_body from_str decode txt = and_then (from_str txt) (\<lambda>v. ok_or (decode v) ''invalid type or missing field'')"

definition json_io :: "(string \<Rightarrow> string + json) \<Rightarrow> 'w import_ops \<Rightarrow> 'w import_ops" where
  "json_io from_str io =
     io\<lparr>json_credentials := decode_body from_str decode_credentials,
        json_servers := decode_body from_str (as_vec decode_server)\<rparr>"

section \<open>The requests\<close>

text \<open>
  The operations with a record of the requests sent: each URL with the user and password of
  its basic authentication, if it has one. Nothing else changes.
\<close>

type_synonym request_log = "(string \<times> (string \<times> string) option) list"

definition with_log :: "request_log \<Rightarrow> 'a \<times> 'w \<Rightarrow> 'a \<times> 'w \<times> request_log" where
  "with_log log r = (fst r, snd r, log)"

definition traced :: "'w import_ops \<Rightarrow> ('w \<times> request_log) import_ops" where
  "traced io =
     \<lparr>http_get = (\<lambda>(w, log) url auth. with_log (log @ [(url, auth)]) (http_get io w url auth)),
      show_status = show_status io, json_credentials = json_credentials io, json_servers = json_servers io,
      file_exists = (\<lambda>(w, log). file_exists io w), open_append = (\<lambda>(w, log). open_append io w),
      append_text = (\<lambda>(w, log) p t. with_log log (append_text io w p t)),
      write_text = (\<lambda>(w, log) p t. with_log log (write_text io w p t)),
      ssh_status = (\<lambda>(w, log) args. with_log log (ssh_status io w args))\<rparr>"

definition credentials_url :: string where
  "credentials_url = ''https://api.nordvpn.com/v1/users/services/credentials''"

text \<open>A request to the server list without authentication.\<close>

definition anonymous :: "string \<times> (string \<times> string) option \<Rightarrow> bool" where
  "anonymous q = (starts_with (fst q) nord_base \<and> snd q = None)"

lemma traced_credentials:
  "fetch_credentials (traced io) (w, log) token =
     with_log (log @ [(credentials_url, Some (''token'', token))]) (fetch_credentials io w token)"
  by (auto simp: fetch_credentials_def traced_def with_log_def credentials_url_def split: sum.split prod.split)

lemma traced_server_list:
  "fetch_server_list (traced io) (w, log) url = with_log (log @ [(url, None)]) (fetch_server_list io w url)"
  by (auto simp: fetch_server_list_def traced_def with_log_def split: sum.split prod.split)

lemma anonymous_urls: "anonymous (country_url i n, None)" "anonymous (any_url n, None)"
  by (simp_all add: anonymous_def country_url_def any_url_def)

lemma traced_countries:
  "\<exists>reqs. fetch_countries (traced io) (w, log) n codes acc = with_log (log @ reqs) (fetch_countries io w n codes acc)
     \<and> list_all anonymous reqs \<and> length reqs \<le> length codes"
proof (induction io w n codes acc arbitrary: log rule: fetch_countries.induct)
  case (1 io w n acc)
  show ?case by (simp add: with_log_def)
next
  case (2 io w n code codes acc)
  show ?case
  proof (cases "country_code_to_id code")
    case None
    then show ?thesis using "2.IH"(1) [OF None, of log] by (auto intro: exI)
  next
    case (Some i)
    obtain r w1 where r: "fetch_server_list io w (country_url i n) = (r, w1)" by (cases "fetch_server_list io w (country_url i n)")
    show ?thesis
    proof (cases r)
      case (Inl e)
      then show ?thesis using Some r anonymous_urls(1)
        by (intro exI [of _ "[(country_url i n, None)]"]) (simp add: traced_server_list with_log_def)
    next
      case (Inr servers)
      obtain reqs where "fetch_countries (traced io) (w1, log @ [(country_url i n, None)]) n codes (acc @ servers)
          = with_log ((log @ [(country_url i n, None)]) @ reqs) (fetch_countries io w1 n codes (acc @ servers))"
        "list_all anonymous reqs" "length reqs \<le> length codes"
        using "2.IH"(2) [OF Some r [symmetric] Inr] by blast
      then show ?thesis using Some r Inr anonymous_urls(1)
        by (intro exI [of _ "(country_url i n, None) # reqs"]) (simp add: traced_server_list with_log_def)
    qed
  qed
qed

definition list_requests :: "string list option \<Rightarrow> nat" where
  "list_requests countries = (case countries of Some (c # cs) \<Rightarrow> length (c # cs) | _ \<Rightarrow> 1)"

lemma fetch_servers_any:
  assumes "\<nexists>c cs. countries = Some (c # cs)"
  shows "fetch_servers io w n countries = truncate_servers n (fetch_server_list io w (any_url n))"
  using assms by (auto simp: fetch_servers_def split: option.split list.split)

lemma traced_servers:
  "\<exists>reqs. fetch_servers (traced io) (w, log) n countries = with_log (log @ reqs) (fetch_servers io w n countries)
     \<and> list_all anonymous reqs \<and> length reqs \<le> list_requests countries"
proof (cases "\<exists>c cs. countries = Some (c # cs)")
  case True
  then obtain c cs where "countries = Some (c # cs)" by blast
  then show ?thesis
    using traced_countries [of io w log "max 1 (n div length (c # cs))" "c # cs" "[]"]
    by (auto simp: fetch_servers_def list_requests_def truncate_servers_def with_log_def)
next
  case False
  then have "list_requests countries = 1" by (auto simp: list_requests_def split: option.split list.split)
  then show ?thesis
    using anonymous_urls(2)
    by (intro exI [of _ "[(any_url n, None)]"])
      (simp add: fetch_servers_any [OF False] traced_server_list truncate_servers_def with_log_def)
qed

lemma traced_write: "write_config (traced io) (w, log) tool output block = with_log log (write_config io w tool output block)"
  by (auto simp: write_config_def traced_def with_log_def split: sum.split prod.split)

lemma fetch_credentials_uniform:
  assumes "\<forall>w url. http_get io w url (Some (''token'', a)) = http_get io w url (Some (''token'', b))"
  shows "fetch_credentials io w a = fetch_credentials io w b"
  using assms by (simp add: fetch_credentials_def)

section \<open>Properties\<close>

text \<open>
  C17. An import leaks its access token to no one: it sends the token once, as the password of
  the basic authentication of its first request, which goes to the credentials address; every
  other request goes to the server list without authentication, at most one for each country
  asked for. Nor does the token enter the configuration file or a message: a service that does
  not tell two tokens apart leads to the same result and the same files with either.
\<close>

theorem token_secrecy:
  assumes run: "import_nord (traced io) (w, []) token n countries output = (res, w', log)"
  shows "import_nord io w token n countries output = (res, w')
    \<and> (\<exists>others. log = (credentials_url, Some (''token'', token)) # others
         \<and> list_all anonymous others \<and> length others \<le> list_requests countries)
    \<and> ((\<forall>w url. http_get io w url (Some (''token'', token)) = http_get io w url (Some (''token'', token')))
         \<longrightarrow> import_nord io w token' n countries output = (res, w'))"
proof -
  let ?key = "(credentials_url, Some (''token'', token))"
  obtain r1 w1 where creds: "fetch_credentials io w token = (r1, w1)" by (cases "fetch_credentials io w token")
  obtain r2 w2 where list: "fetch_servers io w1 n countries = (r2, w2)" by (cases "fetch_servers io w1 n countries")
  obtain reqs where servers: "fetch_servers (traced io) (w1, [?key]) n countries = with_log ([?key] @ reqs) (r2, w2)"
    and reqs: "list_all anonymous reqs" "length reqs \<le> list_requests countries"
    using traced_servers [of io w1 "[?key]" n countries] list by auto
  have same: "import_nord io w token n countries output = (res, w')"
    and log: "log = [?key] \<or> log = ?key # reqs"
    using run creds list servers traced_credentials [of io w "[]" token]
    by (auto simp: import_nord_def with_log_def traced_write split: sum.splits if_splits prod.splits)
  have "(\<forall>w url. http_get io w url (Some (''token'', token)) = http_get io w url (Some (''token'', token')))
      \<Longrightarrow> import_nord io w token' n countries output = (res, w')"
    using same fetch_credentials_uniform [of io token token' w] by (simp add: import_nord_def)
  then show ?thesis using same log reqs by auto
qed

theorem token_secrecy_witness:
  "let io = map_io \<lparr>nordlynx_private_key = ''k''\<rparr> [sample_server];
       r = import_nord (traced io) (Map.empty, []) ''s3cret'' 1 (Some [''US'', ''DE'']) ''houdinny.toml''
   in fst r = Inr () \<and> length (snd (snd r)) = 3
      \<and> import_nord io Map.empty ''other'' 1 (Some [''US'', ''DE'']) ''houdinny.toml'' = (fst r, fst (snd r))"
proof -
  let ?io = "map_io \<lparr>nordlynx_private_key = ''k''\<rparr> [sample_server]"
  let ?r = "import_nord (traced ?io) (Map.empty, []) ''s3cret'' 1 (Some [''US'', ''DE'']) ''houdinny.toml''"
  have run: "?r = (fst ?r, fst (snd ?r), snd (snd ?r))" by simp
  have "fst ?r = Inr ()" "length (snd (snd ?r)) = 3" by code_simp+
  moreover have "http_get ?io w url x = http_get ?io w url y" for w url x y by (simp add: map_io_def)
  ultimately show ?thesis using token_secrecy [OF run, of "''other''"] by (simp add: Let_def)
qed

end
