(* ===== verification/Server_Laws.thy ===== *)
theory Server_Laws
  imports Server
begin

text \<open>
  What the running server of \<open>Server\<close> guarantees over a whole run, beyond the order of its
  connections: round robin stays fair under concurrency. A run is observed through the transports its picks hand out (\<open>proxy_trace\<close>); the trace
  adds nothing to the steps of \<open>Server\<close>, it only records them.
\<close>

section \<open>Runs with the transports they hand out\<close>

fun picked_by :: "('a, 'r, 's) conn_task \<Rightarrow> ('a, 'r, 's) conn_task \<Rightarrow> transport list" where
  "picked_by (Reading c) (Serving c' t q reader) = [t]"
| "picked_by _ _ = []"

definition picked_in ::
  "(router, ('a, 'r, 's) conn_task) server \<Rightarrow> (router, ('a, 'r, 's) conn_task) server \<Rightarrow> transport list" where
  "picked_in s s' = concat (map2 picked_by (sv_tasks s) (sv_tasks s'))"

inductive proxy_trace ::
  "('a, 'r, 's) proxy_io \<Rightarrow> 's net_ops \<Rightarrow> theap \<Rightarrow> pool \<Rightarrow> (router, ('a, 'r, 's) conn_task) server \<Rightarrow>
     transport list \<Rightarrow> (router, ('a, 'r, 's) conn_task) server \<Rightarrow> bool"
  for io net h p s0 where
  at_start: "proxy_trace io net h p s0 [] s0"
| one_more: "proxy_trace io net h p s0 ts s \<Longrightarrow>
     accept_step Reading (conn_step io net h p) (\<lambda>_ _. False) task_aborts s s' \<Longrightarrow>
     proxy_trace io net h p s0 (ts @ picked_in s s') s'"

lemma proxy_trace_exists: "proxy_steps io net h p s0 s \<Longrightarrow> \<exists>ts. proxy_trace io net h p s0 ts s"
  by (induction rule: rtranclp_induct) (auto intro: proxy_trace.intros)

lemma proxy_trace_steps: "proxy_trace io net h p s0 ts s \<Longrightarrow> proxy_steps io net h p s0 s"
  by (induction rule: proxy_trace.induct) auto

lemma picked_by_self [simp]: "picked_by t t = []"
  by (cases t) auto

lemma picked_by_same [simp]: "concat (map2 picked_by ts ts) = []"
  by (induction ts) auto

lemma picked_by_update:
  "i < length ts \<Longrightarrow> concat (map2 picked_by ts (ts[i := t])) = picked_by (ts ! i) t"
  by (induction ts arbitrary: i) (auto split: nat.split)

lemma picked_by_append [simp]: "concat (map2 picked_by ts (ts @ [t])) = []"
  by (induction ts) auto

lemma picked_in_accept [simp]:
  "picked_in s (s\<lparr>sv_tasks := sv_tasks s @ [t]\<rparr>) = []"
  "picked_in s (s\<lparr>sv_error := e\<rparr>) = []"
  "picked_in s (s\<lparr>sv_shared := sh\<rparr>) = []"
  "i < length (sv_tasks s) \<Longrightarrow>
     picked_in s (s\<lparr>sv_shared := sh, sv_tasks := (sv_tasks s)[i := t]\<rparr>) = picked_by (sv_tasks s ! i) t"
  by (simp_all add: picked_in_def picked_by_update)

lemma proxy_trace_serving:
  assumes "proxy_trace io net h p s0 ts s" "t \<in> set ts"
  shows "\<exists>r \<in> set (pool_all p). healthy (h r) \<and> t = h r"
  using assms
proof (induction rule: proxy_trace.induct)
  case (one_more ts s s')
  show ?case
  proof (cases "t \<in> set ts")
    case False
    then have "t \<in> set (picked_in s s')" using one_more.prems by simp
    with one_more.hyps(2) show ?thesis
    proof cases
      case (task_runs i sh t')
      then have "t \<in> set (picked_by (sv_tasks s ! i) t')" using \<open>t \<in> set (picked_in s s')\<close> by simp
      then have "serving_ok h p t'" "picked_by (sv_tasks s ! i) t' = [t]" "\<exists>c q reader. t' = Serving c t q reader"
        using conn_step_serving_ok [OF task_runs(4)] by (cases "sv_tasks s ! i"; cases t'; auto)+
      then show ?thesis by auto
    qed auto
  qed (rule one_more.IH)
qed simp

section \<open>Round robin in a running server\<close>

definition turn :: "theap \<Rightarrow> pool \<Rightarrow> nat \<Rightarrow> transport" where
  "turn h p i = (let live = healthy_transports h p in h (live ! (unat (of_nat i :: usize) mod length live)))"

lemma main_picker_turn:
  "main_picker chooser contended h p (RoundRobinRouter (of_nat n)) host port = (res, st) \<Longrightarrow>
     (case res of Inl e \<Rightarrow> st = RoundRobinRouter (of_nat n)
      | Inr t \<Rightarrow> t = turn h p n \<and> st = RoundRobinRouter (of_nat (Suc n)))"
  by (auto simp: main_picker_def picker_def round_robin_pick_def turn_def Let_def pool_defs router_healthy_def
      add.commute split: if_splits sum.splits prod.splits)

lemma conn_step_turn:
  assumes "conn_step io net h p (RoundRobinRouter (of_nat n)) t st' t'"
  shows "picked_by t t' = map (turn h p) [n..<n + length (picked_by t t')]
     \<and> st' = RoundRobinRouter (of_nat (n + length (picked_by t t')))"
  using assms by cases (auto dest!: main_picker_turn)

lemma proxy_trace_turns:
  assumes "proxy_trace io net h p s0 ts s" "sv_shared s0 = RoundRobinRouter 0"
  shows "ts = map (turn h p) [0..<length ts] \<and> sv_shared s = RoundRobinRouter (of_nat (length ts))"
  using assms(1)
proof (induction rule: proxy_trace.induct)
  case at_start
  show ?case using assms(2) by simp
next
  case (one_more ts s s')
  have "picked_in s s' = map (turn h p) [length ts..<length ts + length (picked_in s s')]
     \<and> sv_shared s' = RoundRobinRouter (of_nat (length ts + length (picked_in s s')))"
    using one_more.hyps(2)
  proof cases
    case (task_runs i sh t)
    then show ?thesis using one_more.IH conn_step_turn [of io net h p "length ts" "sv_tasks s ! i" sh t] by simp
  qed (use one_more.IH in auto)
  moreover have "map (turn h p) [0..<length ts + k] = ts @ map (turn h p) [length ts..<length ts + k]" for k
    using one_more.IH by (simp add: upt_add_eq_append [of 0, simplified] del: upt_Suc)
  ultimately show ?case by (metis length_append)
qed

text \<open>
  C19. The running server rotates fairly: in every run of a proxy that \<open>main\<close> set up with the
  round-robin strategy, whatever the interleaving of its connections and however many of them
  fail, the \<open>i\<close>-th transport handed out is the \<open>i\<close>-th of the healthy transports of the pool in
  turn; so after \<open>n\<close> picks, as long as the 64-bit counter has not wrapped, each of the \<open>k\<close>
  healthy transports has been handed out \<open>n div k\<close> times or once more.
\<close>

theorem server_rotates_fairly:
  assumes "prepare_proxy ft tor parse_addr config = Inr prx" "pc_strategy (cfg_proxy config) = RoundRobin"
    and "proxy_server_run bind local_addr (proxy_server_new (rn_addr prx)) (rn_router prx) = Inr s0"
    and "proxy_trace io net (rn_heap prx) (rn_pool prx) s0 ts s" "length ts \<le> 2 ^ 64"
  defines "live \<equiv> map (rn_heap prx) (healthy_transports (rn_heap prx) (rn_pool prx))"
  shows "ts = map (\<lambda>i. live ! (i mod length live)) [0..<length ts]
     \<and> repeat_mset (length ts div length live) (mset live) \<subseteq># mset ts
     \<and> mset ts \<subseteq># repeat_mset (length ts div length live + 1) (mset live)"
proof -
  let ?h = "rn_heap prx" and ?p = "rn_pool prx"
  have "sv_shared s0 = RoundRobinRouter 0"
    using proxy_server_run_init [OF assms(3)] prepare_proxy_Inr(4) [OF assms(1)] assms(2)
    by (simp add: round_robin_new_def)
  then have ts: "ts = map (turn ?h ?p) [0..<length ts]" using proxy_trace_turns [OF assms(4)] by blast
  show ?thesis
  proof (cases "live = []")
    case True
    moreover have "ts = []" 
      using True proxy_trace_serving [OF assms(4)]
      by (cases ts) (fastforce simp: live_def pool_defs filter_empty_conv)+
    ultimately show ?thesis by simp
  next
    case False
    have "turn ?h ?p i = live ! (i mod length live)" if "i < length ts" for i
      using that False assms(5) by (simp add: turn_def Let_def live_def unat_of_nat)
    then have turns: "ts = map (\<lambda>i. live ! (i mod length live)) [0..<length ts]"
      by (subst ts) simp
    show ?thesis using rotation_fair [OF False, of "length ts" 0] turns by simp
  qed
qed

definition two_tunnels :: config where
  "two_tunnels = (from_tunnel_urls [''socks5://a:1'', ''socks5://b:2''])
     \<lparr>cfg_proxy := proxy_config_default\<lparr>pc_strategy := RoundRobin\<rparr>\<rparr>"

definition two_socks :: theap where
  "two_socks r = [Socks5 (socks5_new ''a:1'' ''cli-0''), Socks5 (socks5_new ''b:2'' ''cli-1'')] ! r"

lemma two_tunnels_prepare:
  "prepare_proxy sample_features sample_tor Some two_tunnels
     = Inr \<lparr>rn_addr = default_listen, rn_heap = two_socks, rn_pool = pool_new [0, 1], rn_router = round_robin_new\<rparr>"
  by (simp add: prepare_proxy_def build_transports_concat two_tunnels_def from_tunnel_urls_def tunnel_of_url_def
      parse_tunnel_url_def build_transport_def label_of_def sample_features_def proxy_config_default_def
      strategy_default_def show_nat.simps two_socks_def fun_eq_iff Let_def)

text \<open>Two agents ask at the same time; the second one's pick comes first.\<close>

lemma two_agents_run:
  "\<exists>s. proxy_trace br_io sink_net two_socks (pool_new [0, 1]) (idle_server\<lparr>sv_shared := round_robin_new\<rparr>)
     [two_socks 0, two_socks 1] s"
proof -
  let ?first = "\<lambda>xs. case xs of [] \<Rightarrow> None | x # _ \<Rightarrow> Some x" and ?p = "pool_new [0, 1]"
  let ?s = "\<lambda>n ts. idle_server\<lparr>sv_shared := RoundRobinRouter n, sv_tasks := ts\<rparr>"
  obtain reader where req: "request_phase br_io short_conn = Some (Inr (Tunnel ''h'' 443, reader))"
    using sample_request by blast
  let ?run = "\<lambda>t. Serving short_conn t (Tunnel ''h'' 443) reader" and ?new = "Reading short_conn"
  let ?trace = "proxy_trace br_io sink_net two_socks ?p (?s 0 [])"
  let ?step = "accept_step Reading (conn_step br_io sink_net two_socks ?p) (\<lambda>_ _. False) task_aborts"
  have turn: "[0::nat, 1] ! (m mod 2) = m mod 2" for m by (cases "even m") (simp_all add: mod_2_eq_odd)
  have live: "healthy (two_socks 0)" "healthy (two_socks 1)" by (simp_all add: two_socks_def socks5_new_def)
  have picks: "conn_step br_io sink_net two_socks ?p (RoundRobinRouter n) ?new (RoundRobinRouter (n + 1)) (?run (two_socks (unat n mod 2)))" for n
    by (rule conn_step.picks [OF req choose_ok_exists, of False])
      (use live turn [of "unat n"] in \<open>simp add: main_picker_def picker_def pool_defs round_robin_pick_def
         router_healthy_def Let_def numeral_2_eq_2\<close>)
  have "?trace [] (?s 0 [])" by (rule at_start)
  moreover have "?step (?s 0 []) (?s 0 [?new])" "?step (?s 0 [?new]) (?s 0 [?new, ?new])"
    using accepts [of task_aborts "?s 0 []"] accepts [of task_aborts "?s 0 [?new]"] by (simp_all add: aborted_def idle_server_def)
  moreover have "?step (?s 0 [?new, ?new]) (?s 1 [?new, ?run (two_socks 0)])"
    using task_runs [of task_aborts "?s 0 [?new, ?new]" 1 "conn_step br_io sink_net two_socks ?p"
        "RoundRobinRouter 1" "?run (two_socks 0)"] picks [of 0] by (simp add: aborted_def idle_server_def)
  moreover have "?step (?s 1 [?new, ?run (two_socks 0)]) (?s 2 [?run (two_socks 1), ?run (two_socks 0)])"
    using task_runs [of task_aborts "?s 1 [?new, ?run (two_socks 0)]" 0 "conn_step br_io sink_net two_socks ?p"
        "RoundRobinRouter 2" "?run (two_socks 1)"] picks [of 1] by (simp add: aborted_def idle_server_def)
  ultimately have "?trace ((([] @ picked_in (?s 0 []) (?s 0 [?new])) @ picked_in (?s 0 [?new]) (?s 0 [?new, ?new]))
      @ picked_in (?s 0 [?new, ?new]) (?s 1 [?new, ?run (two_socks 0)]) @ picked_in (?s 1 [?new, ?run (two_socks 0)]) (?s 2 [?run (two_socks 1), ?run (two_socks 0)]))
      (?s 2 [?run (two_socks 1), ?run (two_socks 0)])"
    unfolding append_assoc [symmetric] by (intro one_more)
  then show ?thesis by (auto simp: picked_in_def idle_server_def round_robin_new_def)
qed

theorem server_rotates_fairly_witness:
  "\<exists>ts s. proxy_trace br_io sink_net two_socks (pool_new [0, 1]) (idle_server\<lparr>sv_shared := round_robin_new\<rparr>) ts s
     \<and> ts = [two_socks 0, two_socks 1] \<and> repeat_mset (2 div 2) {#two_socks 0, two_socks 1#} \<subseteq># mset ts"
proof -
  obtain s where s: "proxy_trace br_io sink_net two_socks (pool_new [0, 1]) (idle_server\<lparr>sv_shared := round_robin_new\<rparr>)
     [two_socks 0, two_socks 1] s" using two_agents_run by blast
  have live: "map two_socks (healthy_transports two_socks (pool_new [0, 1])) = [two_socks 0, two_socks 1]"
    by (simp add: pool_defs two_socks_def socks5_new_def)
  have run: "proxy_server_run Inr Inr (proxy_server_new default_listen) round_robin_new
      = Inr (idle_server\<lparr>sv_shared := round_robin_new\<rparr>)"
    by (simp add: proxy_server_run_def proxy_server_new_def start_loop_def idle_server_def)
  have "pc_strategy (cfg_proxy two_tunnels) = RoundRobin" by (simp add: two_tunnels_def)
  from server_rotates_fairly [OF two_tunnels_prepare this, of Inr Inr "idle_server\<lparr>sv_shared := round_robin_new\<rparr>" br_io sink_net
      "[two_socks 0, two_socks 1]" s] run s live show ?thesis by auto
qed

end
