(* ===== verification/Live_Pool.thy ===== *)
theory Live_Pool
  imports Server Mcp
begin

text \<open>
  The proxy and an MCP server over one pool. Both take a handle to the pool
  (\<open>ProxyServer::run\<close> through its picker, \<open>McpServer::new\<close>); the program \<open>main\<close> starts only the
  proxy, a program that uses the library may start both. The picker closure of \<open>main\<close> holds the
  pool's lock only while it copies the healthy transports; the router then picks from the copy.
  So the two halves of a pick are separate steps here, and a request of the MCP server, or the
  closing of a transport through another handle, may come between them.
\<close>

section \<open>The shared pool\<close>

text \<open>A task of \<open>Server\<close>, or one between the two halves of its pick, with its copy.\<close>

datatype ('a, 'r, 's) live_task =
    Live "('a, 'r, 's) conn_task"
  | Copied 'a request 'r "aref list"

fun live_aborts :: "('a, 'r, 's) live_task \<Rightarrow> bool" where
  "live_aborts (Live t) = task_aborts t"
| "live_aborts (Copied c q reader healthy_refs) = False"

text \<open>The shared state: the transports, the pool, and the router's own state.\<close>

type_synonym live_state = "theap \<times> pool \<times> router"

inductive live_step ::
  "('a, 'r, 's) proxy_io \<Rightarrow> 's net_ops \<Rightarrow>
     live_state \<Rightarrow> ('a, 'r, 's) live_task \<Rightarrow> live_state \<Rightarrow> ('a, 'r, 's) live_task \<Rightarrow> bool"
  for io net where
  live_request_fails: "request_phase io c = Some (Inl (e, reader)) \<Longrightarrow>
     live_step io net (h, p, st) (Live (Reading c)) (h, p, st) (Live (Done c (Failed e reader)))"
| live_copies: "request_phase io c = Some (Inr (q, reader)) \<Longrightarrow>
     live_step io net (h, p, st) (Live (Reading c)) (h, p, st)
       (Copied c q reader (healthy_transports_sync h p contended))"
| live_picks: "choose_ok chooser \<Longrightarrow> pick chooser st h xs = (Inr r, st') \<Longrightarrow>
     live_step io net (h, p, st) (Copied c q reader xs) (h, p, st') (Live (Serving c (h r) q reader))"
| live_pick_fails: "choose_ok chooser \<Longrightarrow> pick chooser st h xs = (Inl e, st') \<Longrightarrow>
     live_step io net (h, p, st) (Copied c q reader xs) (h, p, st') (Live (Done c (Failed e reader)))"
| live_serves: "live_step io net sh (Live (Serving c t q reader)) sh (Live (Done c (serve_phase io net t q reader)))"

inductive_cases live_stepE: "live_step io net sh t sh' t'"

inductive pool_env ::
  "(string \<Rightarrow> string + json) \<Rightarrow> (json \<Rightarrow> string) \<Rightarrow> string \<Rightarrow> live_state \<Rightarrow> live_state \<Rightarrow> bool"
  for from_str to_string version where
  request_served: "mcp_handle_request from_str to_string version request h p = (response, p') \<Longrightarrow>
     pool_env from_str to_string version (h, p, st) (h, p', st)"
| transport_closed: "close (h r) = Inr t \<Longrightarrow> pool_env from_str to_string version (h, p, st) (h(r := t), p, st)"

inductive_cases pool_envE: "pool_env from_str to_string version sh sh'"

abbreviation live_steps where
  "live_steps io net from_str to_string version \<equiv>
     accept_steps (\<lambda>c. Live (Reading c)) (live_step io net) (pool_env from_str to_string version) live_aborts"

text \<open>Nothing in between: the two halves together are the atomic pick of \<open>Server\<close>.\<close>

lemma live_pick_atomic:
  assumes "live_step io net (h, p, st) (Live (Reading c)) sh1 (Copied c q reader xs)"
    and "live_step io net sh1 (Copied c q reader xs) (h2, p2, st2) (Live t)"
  shows "h2 = h \<and> p2 = p \<and> conn_step io net h p st (Reading c) st2 t"
proof -
  obtain contended where copy: "request_phase io c = Some (Inr (q, reader))" "sh1 = (h, p, st)"
    "xs = healthy_transports_sync h p contended"
    using assms(1) by (auto elim: live_stepE)
  consider (given) chooser r where "choose_ok chooser" "pick chooser st h xs = (Inr r, st2)" "t = Serving c (h r) q reader" "h2 = h" "p2 = p"
    | (none) chooser e where "choose_ok chooser" "pick chooser st h xs = (Inl e, st2)" "t = Done c (Failed e reader)" "h2 = h" "p2 = p"
    using assms(2) unfolding copy(2) by (auto elim: live_stepE)
  then show ?thesis
  proof cases
    case given
    then show ?thesis using conn_step.picks [OF copy(1) given(1), of contended h p st "h r" st2]
      by (simp add: main_picker_def picker_def copy(3))
  next
    case none
    then show ?thesis using conn_step.pick_fails [OF copy(1) none(1), of contended h p st e st2]
      by (simp add: main_picker_def picker_def copy(3))
  qed
qed

section \<open>Draining\<close>

definition lacks :: "theap \<Rightarrow> string \<Rightarrow> pool \<Rightarrow> bool" where
  "lacks h i p = (\<forall>r \<in> set (pool_all p). transport_id (h r) \<noteq> i)"

lemma lacks_after_remove: "lacks h i (snd (Pool.pool_remove h p i))"
  by (simp add: lacks_def vec.all_remove)

lemma lacks_remove: "lacks h i p \<Longrightarrow> lacks h i (snd (Pool.pool_remove h p k))"
  by (simp add: lacks_def vec.all_remove)

lemma request_lacks:
  assumes "mcp_handle_request from_str to_string version request h p = (response, p')" "lacks h i p"
  shows "lacks h i p'"
proof (cases "from_str request")
  case (Inl e)
  then show ?thesis using assms by (simp add: mcp_handle_request_def)
next
  case (Inr parsed)
  then show ?thesis
    using assms mcp_pool_effect [where from_str = from_str and request = request and parsed = parsed, OF Inr, of to_string version h p]
    by (auto simp: lacks_remove split: option.splits)
qed

lemma pool_env_keeps:
  assumes "pool_env from_str to_string version (h, p, st) (h', p', st')"
  shows "(\<forall>r. transport_id (h' r) = transport_id (h r)) \<and> (lacks h i p \<longrightarrow> lacks h' i p')"
  using assms
proof cases
  case (request_served request response)
  then show ?thesis using request_lacks by metis
next
  case (transport_closed r t)
  then have "transport_id (h' r') = transport_id (h r')" for r' using dyn.close_id [of "h r" t] by simp
  then show ?thesis using transport_closed by (simp add: lacks_def)
qed

text \<open>
  The tasks that have the transport with the id \<open>i\<close> or may still be given it; \<open>ids\<close> are the ids.
\<close>

fun may_use :: "(aref \<Rightarrow> string) \<Rightarrow> string \<Rightarrow> ('a, 'r, 's) live_task \<Rightarrow> bool" where
  "may_use ids i (Live (Serving c t q reader)) = (transport_id t = i)"
| "may_use ids i (Copied c q reader xs) = (\<exists>r \<in> set xs. ids r = i)"
| "may_use ids i _ = False"

text \<open>How a task that may use the transport has come from what it was before.\<close>

fun comes_from :: "(aref \<Rightarrow> string) \<Rightarrow> string \<Rightarrow> ('a, 'r, 's) live_task \<Rightarrow> ('a, 'r, 's) live_task \<Rightarrow> bool" where
  "comes_from ids i before (Live (Serving c t q reader)) =
     (before = Live (Serving c t q reader) \<or> (\<exists>xs. before = Copied c q reader xs \<and> (\<exists>r \<in> set xs. ids r = i)))"
| "comes_from ids i before now = (before = now)"

definition drains ::
  "(aref \<Rightarrow> string) \<Rightarrow> string \<Rightarrow> ('a, 'r, 's) live_task list \<Rightarrow> live_state \<Rightarrow> ('a, 'r, 's) live_task list \<Rightarrow> bool" where
  "drains ids i before sh ts =
     ((\<forall>r. transport_id (fst sh r) = ids r) \<and> lacks (fst sh) i (fst (snd sh)) \<and> length before \<le> length ts
      \<and> (\<forall>j < length ts. may_use ids i (ts ! j) \<longrightarrow> j < length before \<and> comes_from ids i (before ! j) (ts ! j)))"

lemma live_step_keeps: "live_step io net (h, p, st) t (h', p', st') t' \<Longrightarrow> h' = h \<and> p' = p"
  by (auto elim: live_stepE)

lemma live_step_may_use:
  assumes "live_step io net (h, p, st) t sh' t'" "\<forall>r. transport_id (h r) = ids r" "lacks h i p" "may_use ids i t'"
  shows "may_use ids i t \<and> (\<forall>before. comes_from ids i before t \<longrightarrow> comes_from ids i before t')"
proof -
  consider (copies) c q reader contended where "t' = Copied c q reader (healthy_transports_sync h p contended)"
    | (picks) chooser c q reader xs r st' where "choose_ok chooser" "pick chooser st h xs = (Inr r, st')"
        "t = Copied c q reader xs" "t' = Live (Serving c (h r) q reader)"
    using assms(1,4) by (auto elim: live_stepE)
  then show ?thesis
  proof cases
    case copies
    then have "\<exists>r \<in> set (pool_all p). transport_id (h r) = i"
      using assms(2,4) by (auto simp: pool_defs split: if_splits)
    then show ?thesis using assms(3) by (auto simp: lacks_def)
  next
    case picks
    then have "r \<in> set xs"
      using router_iface.pick_healthy [OF pick_router_iface, of chooser st h xs r] by simp
    then show ?thesis using picks assms(2,4) by auto
  qed
qed

interpretation draining: task_system "\<lambda>c. Live (Reading c)" "live_step io net" "pool_env from_str to_string version" live_aborts
  "drains ids i before" for io net from_str to_string version ids i before
proof
  fix sh ts c
  assume "drains ids i before sh ts"
  then show "drains ids i before sh (ts @ [Live (Reading c)])"
    by (auto simp: drains_def nth_append less_Suc_eq)
next
  fix sh ts j sh' t
  assume inv: "drains ids i before sh ts" and j: "j < length ts" and step: "live_step io net sh (ts ! j) sh' t"
  obtain h p st st' where sh: "sh = (h, p, st)" "sh' = (h, p, st')"
    using live_step_keeps [of io net "fst sh" "fst (snd sh)" "snd (snd sh)"] step by (metis prod.collapse)
  have "may_use ids i t \<longrightarrow> j < length before \<and> comes_from ids i (before ! j) t"
    using live_step_may_use [OF step [unfolded sh(1)], of ids i] inv j by (auto simp: drains_def sh(1))
  then show "drains ids i before sh' (ts[j := t])"
    using inv j by (auto simp: drains_def sh nth_list_update)
next
  fix sh ts sh'
  assume "drains ids i before sh ts" "pool_env from_str to_string version sh sh'"
  then show "drains ids i before sh' ts"
    using pool_env_keeps [of from_str to_string version "fst sh" "fst (snd sh)" "snd (snd sh)" "fst sh'" "fst (snd sh')" "snd (snd sh')"]
    by (simp add: drains_def)
qed

section \<open>The window\<close>

text \<open>A pick by \<open>rand\<close> that takes the wanted transport when it is offered.\<close>

definition wanted_chooser :: "aref \<Rightarrow> aref list \<Rightarrow> aref option" where
  "wanted_chooser r xs = (if r \<in> set xs then Some r else case xs of [] \<Rightarrow> None | x # _ \<Rightarrow> Some x)"

lemma wanted_chooser_ok: "choose_ok (wanted_chooser r)"
  by (auto simp: choose_ok_def wanted_chooser_def split: list.split)

lemma copied_is_given:
  assumes "r \<in> set xs" "healthy (h r)"
  shows "live_step io net (h, p, RandomRouter) (Copied c q reader xs) (h, p, RandomRouter) (Live (Serving c (h r) q reader))"
  by (rule live_picks [OF wanted_chooser_ok [of r]])
    (use assms in \<open>simp add: random_pick_def router_healthy_def wanted_chooser_def\<close>)

section \<open>Properties\<close>

text \<open>
  C24. Removing a tunnel drains it, up to the picks already under way. When an MCP server that
  shares the pool with a running proxy has served a \<open>pool_remove\<close> request, then whatever the
  agents, the MCP client and other holders of the transports do next, in whatever order: a
  connection that has a transport with that id either had it when the request was served, or was
  then between the two halves of its pick, with that transport in its copy of the list. No
  connection that copies the list later, or is accepted later, is given it. The window is real:
  under the random router every connection in it whose copy has the healthy transport can still be
  given it, after the removal was confirmed.
\<close>

theorem mcp_removal_drains:
  fixes to_string :: "json \<Rightarrow> string" and version :: string
  assumes "from_str request = Inr parsed" "removes parsed = Some i" "sv_shared s = (h, p, st)"
  defines "removed \<equiv> s\<lparr>sv_shared := (h, snd (mcp_handle_request from_str to_string version request h p), st)\<rparr>"
  shows "(\<forall>s' j c t q reader. live_steps io net from_str to_string version removed s'
       \<and> j < length (sv_tasks s') \<and> sv_tasks s' ! j = Live (Serving c t q reader) \<and> transport_id t = i
       \<longrightarrow> j < length (sv_tasks s)
         \<and> (sv_tasks s ! j = Live (Serving c t q reader)
            \<or> (\<exists>xs. sv_tasks s ! j = Copied c q reader xs \<and> (\<exists>r \<in> set xs. transport_id (h r) = i))))
    \<and> (\<forall>j c q reader xs r. j < length (sv_tasks s) \<and> sv_tasks s ! j = Copied c q reader xs \<and> r \<in> set xs
         \<and> healthy (h r) \<and> st = RandomRouter \<and> \<not> aborted live_aborts s
       \<longrightarrow> (\<exists>s'. live_steps io net from_str to_string version removed s' \<and> sv_tasks s' ! j = Live (Serving c (h r) q reader)))"
proof ((rule conjI; intro allI impI), goal_cases)
  case (1 s' j c t q reader)
  let ?ids = "\<lambda>r. transport_id (h r)"
  have "lacks h i (fst (snd (sv_shared removed)))"
    using mcp_pool_effect [where from_str = from_str and request = request and parsed = parsed, OF assms(1), of to_string version h p]
      assms(2) by (simp add: removed_def lacks_after_remove)
  moreover have "comes_from ?ids i b b" for b :: "('a, 'b, 'c) live_task"
    by (cases "(?ids, i, b, b)" rule: comes_from.cases) auto
  ultimately have "drains ?ids i (sv_tasks s) (sv_shared removed) (sv_tasks removed)" by (simp add: drains_def removed_def)
  moreover have "live_steps io net from_str to_string version removed s'" using 1 by blast
  ultimately have "drains ?ids i (sv_tasks s) (sv_shared s') (sv_tasks s')" using draining.steps_good by blast
  then have "may_use ?ids i (sv_tasks s' ! j) \<longrightarrow> j < length (sv_tasks s) \<and> comes_from ?ids i (sv_tasks s ! j) (sv_tasks s' ! j)"
    using 1 unfolding drains_def by blast
  then show ?case using 1 by simp
next
  case (2 j c q reader xs r)
  let ?s = "removed\<lparr>sv_tasks := (sv_tasks s)[j := Live (Serving c (h r) q reader)]\<rparr>"
  have "accept_step (\<lambda>c. Live (Reading c)) (live_step io net) (pool_env from_str to_string version) live_aborts removed ?s"
    using task_runs [of live_aborts removed j "live_step io net" "sv_shared removed" "Live (Serving c (h r) q reader)"] 2
      copied_is_given [of r xs h io net _ c q reader]
    by (simp add: removed_def aborted_def)
  then show ?case using 2 by (intro exI [of _ ?s]) (simp add: r_into_rtranclp)
qed

definition remove_request :: json where
  "remove_request = JObj [(''id'', JNum 1), (''method'', JStr ''tools/call''),
     (''params'', JObj [(''name'', JStr ''pool_remove''), (''arguments'', JObj [(''id'', JStr ''socks5-l'')])])]"

text \<open>
  A connection in the window: the only tunnel is removed, the pool is empty, and the connection is
  given the tunnel all the same.
\<close>

theorem mcp_removal_drains_witness:
  "\<exists>s'. live_steps br_io sink_net read_json print_json ''1''
       \<lparr>sv_error = None,
        sv_shared = (\<lambda>_. Socks5 (socks5_new ''a'' ''l''),
          snd (mcp_handle_request read_json print_json ''1'' (print_json remove_request)
            (\<lambda>_. Socks5 (socks5_new ''a'' ''l'')) (pool_new [0])), RandomRouter),
        sv_tasks = [Copied short_conn (Tunnel ''h'' 443) (br_new short_conn) [0]]\<rparr> s'
     \<and> sv_tasks s' ! 0 = Live (Serving short_conn (Socks5 (socks5_new ''a'' ''l'')) (Tunnel ''h'' 443) (br_new short_conn))"
proof -
  let ?h = "\<lambda>_::nat. Socks5 (socks5_new ''a'' ''l'')"
  let ?s = "\<lparr>sv_error = None, sv_shared = (?h, pool_new [0], RandomRouter),
     sv_tasks = [Copied short_conn (Tunnel ''h'' 443) (br_new short_conn) [0]]\<rparr> :: (live_state, (conn, bufreader, string) live_task) server"
  have "wf_json remove_request" by (simp add: remove_request_def)
  then have read: "read_json (print_json remove_request) = Inr remove_request"
    using read_json_print unfolding json_reads_def by blast
  have removes: "removes remove_request = Some ''socks5-l''"
    by (simp add: removes_def remove_request_def get_str_def)
  have shared: "sv_shared ?s = (?h, pool_new [0], RandomRouter)" by simp
  have "healthy (?h 0)" "\<not> aborted live_aborts ?s" by (simp_all add: socks5_new_def aborted_def)
  then show ?thesis
    using mcp_removal_drains [where from_str = read_json and to_string = print_json and version = "''1''" and io = br_io and net = sink_net,
        OF read removes shared, THEN conjunct2, rule_format, of 0 short_conn "Tunnel ''h'' 443" "br_new short_conn" "[0]" 0]
    by simp
qed

end
