(* ===== verification/Request_Body.thy ===== *)
theory Request_Body
  imports Proxy_Server
begin

text \<open>
  Which body of a plain request is forwarded (\<open>handle_plain_http\<close> in \<open>src/src/proxy/mod.rs\<close>):
  the header loop against a reference that reads the header block as a whole, and the bodies
  that the loop's reading misses.
\<close>

section \<open>The declared length\<close>

text \<open>The value of a header line in one of the two spellings the code knows.\<close>

definition length_header :: "string \<Rightarrow> usize option" where
  "length_header line =
     (if starts_with line ''Content-Length:'' \<or> starts_with line ''content-length:''
      then parse_usize (trim (drop 15 line)) else None)"

lemma strip_prefix_drop: "strip_prefix p s = (if starts_with s p then Some (drop (length p) s) else None)"
  by (auto simp: strip_prefix_None_iff strip_prefix_iff prefix_def)

lemma note_content_length_spec:
  "note_content_length line n = (case length_header line of Some len \<Rightarrow> len | None \<Rightarrow> n)"
proof -
  have len: "length ''Content-Length:'' = 15" "length ''content-length:'' = 15" by simp_all
  show ?thesis
    unfolding note_content_length_def length_header_def strip_prefix_drop len by (simp split: option.split)
qed

lemma fold_last_value:
  "fold (\<lambda>x n. case f x of Some v \<Rightarrow> v | None \<Rightarrow> n) xs n = last (n # List.map_filter f xs)"
  by (induction xs arbitrary: n) (auto simp: List.map_filter_def split: option.splits)

lemma declared_length_last: "declared_length hs = last (0 # List.map_filter length_header hs)"
  unfolding declared_length_def fold_last_value [symmetric]
  by (intro fold_cong) (simp_all add: note_content_length_spec fun_eq_iff)

lemma declared_length_none: "List.map_filter length_header hs = [] \<Longrightarrow> declared_length hs = 0"
  by (simp add: declared_length_last)

text \<open>
  C21. The header loop is equivalent to a reading of the header block as a whole: over a lawful
  reader, whatever its segments, it collects the lines before the first blank one, declares the
  value of the last of them that has a known spelling of \<open>Content-Length\<close> and a number in
  range, or 0 when there is none, and leaves exactly what follows the blank line unread; it
  fails only when the connection is broken before that line.
\<close>

theorem header_loop_spec:
  assumes "line_reader rd pend brok" "split_headers (pend r) = (hs, body)"
  shows "(\<exists>r'. read_headers rd r [] 0 = Some (Inr (hs, last (0 # List.map_filter length_header hs)), r')
       \<and> pend r' = body \<and> brok r' = brok r)
     \<or> (\<exists>e r'. brok r = Some e \<and> read_headers rd r [] 0 = Some (Inl e, r'))"
proof (rule line_reader.header_loops [OF assms(1), of r "[]" 0])
  fix r'
  assume "read_headers rd r [] 0 = Some (Inr ([] @ fst (split_headers (pend r)),
      fold note_content_length (fst (split_headers (pend r))) 0), r')"
    "pend r' = snd (split_headers (pend r))" "brok r' = brok r"
  then show ?thesis
    using assms(2) declared_length_last [of hs] by (simp add: declared_length_def)
qed blast

theorem header_loop_spec_witness:
  "\<exists>r'. read_headers br_read_line (br_new (sample_conn [''a: b'' @ crlf @ ''content-'', ''length: 7'' @ crlf, crlf @ ''x'']))
       [] 0 = Some (Inr ([''a: b'' @ crlf, ''content-length: 7'' @ crlf], 7), r') \<and> br_pending r' = ''x''"
proof -
  define r where "r = br_new (sample_conn [''a: b'' @ crlf @ ''content-'', ''length: 7'' @ crlf, crlf @ ''x''])"
  define hs where "hs = [''a: b'' @ crlf, ''content-length: 7'' @ crlf]"
  have pend: "br_pending r = ''a: b'' @ crlf @ ''content-length: 7'' @ crlf @ crlf @ ''x''" "br_broken r = None"
    by (simp_all add: r_def br_new_def br_broken_def br_pending_def sample_conn_def crlf_def)
  have split: "split_headers (br_pending r) = (hs, ''x'')"
    unfolding pend hs_def by (simp add: text_eval)
  have "last (0 # List.map_filter length_header hs) = 7"
    unfolding hs_def by (simp add: List.map_filter_def length_header_def parse_usize_def text_eval)
  then have "\<exists>r'. read_headers br_read_line r [] 0 = Some (Inr (hs, 7), r') \<and> br_pending r' = ''x''"
    using header_loop_spec [OF br.line_reader_axioms split] pend(2) by auto
  then show ?thesis unfolding r_def hs_def .
qed

section \<open>Bodies that are not forwarded\<close>

text \<open>
  C22. A body without a \<open>Content-Length\<close> in one of the two spellings never reaches the server:
  when the header block has another spelling of the name, an unreadable value, or announces a
  chunked body, the server receives the request line, the header lines and the blank line,
  and, since only the reply is copied after that, no byte of whatever body the agent sends; the
  handler still ends without an error.
\<close>

theorem unsized_body_dropped:
  assumes "exact_reader (rd_read_line io) pend brok (rd_read_exact io)" "tunnel_accepts io net sent"
    and "\<And>s a. sent (fst (snd (copy_stream io s a))) = sent s"
    and "brok (rd_new io stream) = None" "pend (rd_new io stream) = text"
    and "\<not> starts_with (to_uppercase (trim_end (next_line text))) ''CONNECT ''"
    and "parse_http_request (trim_end (next_line text)) = Inr (method, host, port, path)"
    and "picker st host port = (Inr t, st')" "connect net t host port = Inr tunnel"
    and "split_headers (after_line text) = (hs, body)" "List.map_filter length_header hs = []"
  shows "\<exists>agent tunnel'. handle_connection io net picker st stream = Some (Finished agent tunnel', st')
     \<and> sent tunnel' = sent tunnel @ method @ '' '' @ path @ '' HTTP/1.1'' @ crlf @ concat hs @ crlf"
proof -
  note zero = declared_length_none [OF assms(11)]
  obtain tunnel' reader where fwd: "sent tunnel' = sent tunnel @ method @ '' '' @ path @ '' HTTP/1.1'' @ crlf @ concat hs @ crlf"
    "handle_connection io net picker st stream =
       Some (case copy_stream io tunnel' (rd_into_inner io reader) of (_, tunnel'', agent) \<Rightarrow> (Finished agent tunnel'', st'))"
    by (rule plain_request_ok [where picker = picker and st = st and st' = st', OF assms(1,2,4-10)]) (simp_all add: zero)
  obtain res tunnel'' agent where "copy_stream io tunnel' (rd_into_inner io reader) = (res, tunnel'', agent)"
    by (metis prod_cases3)
  then show ?thesis using fwd assms(3) [of tunnel' "rd_into_inner io reader"] by simp
qed

definition sample_chunked_text :: string where
  "sample_chunked_text = ''POST http://a/x HTTP/1.1'' @ crlf @ ''CONTENT-LENGTH: 2'' @ crlf
     @ ''Transfer-Encoding: chunked'' @ crlf @ crlf @ ''hi''"

lemma sample_chunked_parts:
  "trim_end (next_line sample_chunked_text) = ''POST http://a/x HTTP/1.1''"
  "split_headers (after_line sample_chunked_text)
     = ([''CONTENT-LENGTH: 2'' @ crlf, ''Transfer-Encoding: chunked'' @ crlf], ''hi'')"
  by (simp_all add: sample_chunked_text_def text_eval)

theorem unsized_body_dropped_witness:
  "\<exists>agent. handle_connection br_io sink_net sample_pick () (sample_conn [sample_chunked_text])
     = Some (Finished agent (''POST /x HTTP/1.1'' @ crlf @ ''CONTENT-LENGTH: 2'' @ crlf
         @ ''Transfer-Encoding: chunked'' @ crlf @ crlf), ())"
proof -
  let ?c = "sample_conn [sample_chunked_text]"
  have new: "br_broken (rd_new br_io ?c) = None" "br_pending (rd_new br_io ?c) = sample_chunked_text"
    by (simp_all add: br_io_def br_new_def br_broken_def br_pending_def sample_conn_def)
  have up: "\<not> starts_with (to_uppercase ''POST http://a/x HTTP/1.1'') ''CONNECT ''"
    by (simp add: ascii_upper_def)
  have pick: "sample_pick () h p = (Inr (Socks5 (socks5_new ''p:1'' ''l'')), ())" for h p
    by (simp add: sample_pick_def)
  have none: "List.map_filter length_header [''CONTENT-LENGTH: 2'' @ crlf, ''Transfer-Encoding: chunked'' @ crlf] = []"
    by (simp add: List.map_filter_def length_header_def)
  have copy: "fst (snd (copy_stream br_io s a)) = s" for s a by (simp add: br_io_def)
  note drop = unsized_body_dropped [OF br_io_exact sink_accepts copy new, where picker = sample_pick,
      unfolded sample_chunked_parts, OF up sample_post_parse pick sink_connect refl none]
  show ?thesis using drop by auto
qed

section \<open>When the header loops end\<close>

text \<open>The reader after \<open>k\<close> reads, and the reads at which a header loop stops.\<close>

fun after_reads :: "('r \<Rightarrow> (string + string) \<times> 'r) \<Rightarrow> nat \<Rightarrow> 'r \<Rightarrow> 'r" where
  "after_reads rd_line 0 reader = reader"
| "after_reads rd_line (Suc k) reader = after_reads rd_line k (snd (rd_line reader))"

definition header_stop :: "('r \<Rightarrow> (string + string) \<times> 'r) \<Rightarrow> 'r \<Rightarrow> bool" where
  "header_stop rd_line reader = (case fst (rd_line reader) of Inl e \<Rightarrow> True | Inr line \<Rightarrow> trim line = [])"

lemma discard_headers_stops:
  assumes "discard_headers rd_line reader = Some x"
  shows "\<exists>k. header_stop rd_line (after_reads rd_line k reader)"
proof (rule discard_headers.raw_induct [where P = "\<lambda>rd_line reader x. \<exists>k. header_stop rd_line (after_reads rd_line k reader)", OF _ assms])
  fix rec :: "('a \<Rightarrow> (string + string) \<times> 'a) \<Rightarrow> 'a \<Rightarrow> ((string + unit) \<times> 'a) option" and rd reader x
  assume IH: "\<And>rd reader x. rec rd reader = Some x \<Longrightarrow> \<exists>k. header_stop rd (after_reads rd k reader)"
    and step: "(case rd reader of (Inl e, reader') \<Rightarrow> Some (Inl e, reader')
       | (Inr header_line, reader') \<Rightarrow> if trim header_line = [] then Some (Inr (), reader') else rec rd reader') = Some x"
  show "\<exists>k. header_stop rd (after_reads rd k reader)"
  proof (cases "header_stop rd reader")
    case True
    then show ?thesis by (intro exI [of _ 0]) simp
  next
    case False
    then have "rec rd (snd (rd reader)) = Some x"
      using step by (auto simp: header_stop_def split: prod.splits sum.splits if_splits)
    from IH [OF this] obtain k where "header_stop rd (after_reads rd k (snd (rd reader)))" by blast
    then show ?thesis by (intro exI [of _ "Suc k"]) simp
  qed
qed

lemma header_loops_return:
  assumes "header_stop rd_line (after_reads rd_line k reader)"
  shows "(\<exists>x. discard_headers rd_line reader = Some x) \<and> (\<exists>x. read_headers rd_line reader hs n = Some x)"
  using assms
proof (induction k arbitrary: reader hs n)
  case 0
  then show ?case
    by (auto simp: header_stop_def discard_headers.simps [of _ reader] read_headers.simps [of _ reader] split: prod.split sum.splits)
next
  case (Suc k)
  then show ?case
    by (auto simp: discard_headers.simps [of _ reader] read_headers.simps [of _ reader] split: prod.split sum.split)
qed

text \<open>Both loops make the same reads, so they end together.\<close>

lemma read_headers_stops:
  assumes "read_headers rd_line reader hs n = Some x"
  shows "\<exists>k. header_stop rd_line (after_reads rd_line k reader)"
proof (rule read_headers.raw_induct [where P = "\<lambda>rd_line reader hs n x. \<exists>k. header_stop rd_line (after_reads rd_line k reader)", OF _ assms])
  fix rec :: "('a \<Rightarrow> (string + string) \<times> 'a) \<Rightarrow> 'a \<Rightarrow> string list \<Rightarrow> usize \<Rightarrow> ((string + (string list \<times> usize)) \<times> 'a) option"
    and rd reader hs n x
  assume IH: "\<And>rd reader hs n x. rec rd reader hs n = Some x \<Longrightarrow> \<exists>k. header_stop rd (after_reads rd k reader)"
    and step: "(case rd reader of (Inl e, reader') \<Rightarrow> Some (Inl e, reader')
       | (Inr line, reader') \<Rightarrow> if trim line = [] then Some (Inr (hs, n), reader')
           else rec rd reader' (hs @ [line]) (note_content_length line n)) = Some x"
  show "\<exists>k. header_stop rd (after_reads rd k reader)"
  proof (cases "header_stop rd reader")
    case True
    then show ?thesis by (intro exI [of _ 0]) simp
  next
    case False
    then obtain hs' n' where "rec rd (snd (rd reader)) hs' n' = Some x"
      using step by (auto simp: header_stop_def split: prod.splits sum.splits if_splits)
    from IH [OF this] obtain k where "header_stop rd (after_reads rd k (snd (rd reader)))" by blast
    then show ?thesis by (intro exI [of _ "Suc k"]) simp
  qed
qed

lemma header_loops_return_iff:
  "discard_headers rd_line reader = None \<longleftrightarrow> (\<forall>k. \<not> header_stop rd_line (after_reads rd_line k reader))"
  "read_headers rd_line reader hs n = None \<longleftrightarrow> (\<forall>k. \<not> header_stop rd_line (after_reads rd_line k reader))"
  using discard_headers_stops [of rd_line reader] read_headers_stops [of rd_line reader hs n] header_loops_return [of rd_line _ reader hs n]
  by (metis not_Some_eq)+



end
