(* ===== verification/Payment_402.thy ===== *)
theory Payment_402
  imports Houdinny_Error
begin

text \<open>
  The payment layer (\<open>src/src/payment/mod.rs\<close>): parsing a 402 response and choosing the
  handler that pays. A handler, a trait object in the code, is the record of its methods; the
  contract of a handler is the locale \<open>payment_method\<close>, interpreted on both handlers of the
  crate.
\<close>

section \<open>Data\<close>

record payment_request =
  pr_url :: string
  pr_amount :: "string option"
  pr_currency :: "string option"
  pr_pay_to :: "string option"
  pr_network :: "string option"
  pr_headers :: "(string \<times> string) list"
  pr_body :: "string option"

record payment_proof =
  header_name :: string
  header_value :: string

record payment_handler =
  can_handle :: "payment_request \<Rightarrow> bool"
  pay :: "payment_request \<Rightarrow> error + payment_proof"
  handler_name :: string

record payment_interceptor =
  pi_handlers :: "payment_handler list"
  pi_max_retries :: nat

definition interceptor_new :: payment_interceptor where
  "interceptor_new = \<lparr>pi_handlers = [], pi_max_retries = 3\<rparr>"

definition interceptor_default :: payment_interceptor where
  "interceptor_default = interceptor_new"

definition add_handler :: "payment_interceptor \<Rightarrow> payment_handler \<Rightarrow> payment_interceptor" where
  "add_handler p handler = p\<lparr>pi_handlers := pi_handlers p @ [handler]\<rparr>"

definition max_retries :: "payment_interceptor \<Rightarrow> nat" where
  "max_retries p = pi_max_retries p"

section \<open>Parsing\<close>

record payment_fields =
  pf_amount :: "string option"
  pf_currency :: "string option"
  pf_pay_to :: "string option"
  pf_network :: "string option"

definition match_key :: "string \<Rightarrow> string \<Rightarrow> payment_fields \<Rightarrow> payment_fields" where
  "match_key lower value f =
     (if lower = ''x-payment-amount'' then f\<lparr>pf_amount := Some value\<rparr>
      else if lower = ''x-payment-currency'' then f\<lparr>pf_currency := Some value\<rparr>
      else if lower = ''x-payment-address'' then f\<lparr>pf_pay_to := Some value\<rparr>
      else if lower = ''x-payment-network'' then f\<lparr>pf_network := Some value\<rparr>
      else f)"

definition header_step :: "string \<times> string \<Rightarrow> payment_fields \<Rightarrow> payment_fields" where
  "header_step kv f =
     (let lower = to_lowercase (fst kv);
          f = match_key lower (snd kv) f;
          f = (if starts_with lower ''x-402'' \<and> pf_network f = None
               then f\<lparr>pf_network := Some ''x402''\<rparr> else f)
      in if lower = ''www-authenticate'' \<and> starts_with (to_lowercase (snd kv)) ''l402'' \<and> pf_network f = None
         then f\<lparr>pf_network := Some ''l402''\<rparr> else f)"

definition parse_402 ::
  "u16 \<Rightarrow> (string \<times> string) list \<Rightarrow> string option \<Rightarrow> string \<Rightarrow> payment_request option" where
  "parse_402 status headers body url =
     (if status \<noteq> 402 then None
      else
        let f = fold header_step headers
                  \<lparr>pf_amount = None, pf_currency = None, pf_pay_to = None, pf_network = None\<rparr>
        in Some \<lparr>pr_url = url, pr_amount = pf_amount f, pr_currency = pf_currency f,
                 pr_pay_to = pf_pay_to f, pr_network = pf_network f, pr_headers = headers,
                 pr_body = body\<rparr>)"

section \<open>Paying\<close>

fun try_handlers :: "payment_handler list \<Rightarrow> payment_request \<Rightarrow> error + payment_proof" where
  "try_handlers [] request = Inl (Payment (''no payment handler available for '' @ pr_url request))"
| "try_handlers (handler # rest) request =
     (if can_handle handler request
      then (case pay handler request of Inr proof \<Rightarrow> Inr proof | Inl e \<Rightarrow> Inl e)
      else try_handlers rest request)"

definition handle_payment :: "payment_interceptor \<Rightarrow> payment_request \<Rightarrow> error + payment_proof" where
  "handle_payment p request = try_handlers (pi_handlers p) request"

definition hex_digit :: "nat \<Rightarrow> char" where
  "hex_digit d = (if d < 10 then digit_char d else char_of (87 + d))"

definition hex2 :: "u8 \<Rightarrow> string" where
  "hex2 b = [hex_digit (unat b div 16), hex_digit (unat b mod 16)]"

text \<open>The sixteen random bytes are an argument.\<close>

definition dummy_pay :: "u8 list \<Rightarrow> payment_request \<Rightarrow> error + payment_proof" where
  "dummy_pay bytes request =
     Inr \<lparr>header_name = ''X-Payment-Proof'', header_value = ''dummy-proof-'' @ concat (map hex2 bytes)\<rparr>"

definition dummy_payment_handler :: "u8 list \<Rightarrow> payment_handler" where
  "dummy_payment_handler bytes =
     \<lparr>can_handle = (\<lambda>_. True), pay = dummy_pay bytes, handler_name = ''dummy''\<rparr>"

definition x402_can_handle :: "payment_request \<Rightarrow> bool" where
  "x402_can_handle request =
     (pr_network request = Some ''x402''
      \<or> list_ex (\<lambda>kv. starts_with (to_lowercase (fst kv)) ''x-402'') (pr_headers request))"

definition x402_payment_handler :: payment_handler where
  "x402_payment_handler =
     \<lparr>can_handle = x402_can_handle,
      pay = (\<lambda>_. Inl (Payment ''x402 payments not yet implemented'')), handler_name = ''x402''\<rparr>"

section \<open>Handlers and their contract\<close>

fun is_payment_error :: "error \<Rightarrow> bool" where
  "is_payment_error (Payment _) = True"
| "is_payment_error _ = False"

locale payment_method =
  fixes accepts :: "payment_request \<Rightarrow> bool"
    and settle :: "payment_request \<Rightarrow> error + payment_proof"
  assumes settle_errors: "accepts r \<Longrightarrow> errs_in is_payment_error (settle r)"
    and proof_named: "accepts r \<Longrightarrow> settle r = Inr p \<Longrightarrow> header_name p \<noteq> []"
begin

lemma settle_cases:
  assumes "accepts r"
  obtains (paid) p where "settle r = Inr p" "header_name p \<noteq> []"
  | (refused) m where "settle r = Inl (Payment m)"
proof (cases "settle r")
  case (Inl e)
  then have "is_payment_error e" using settle_errors [OF assms] by simp
  then show thesis using Inl refused by (cases e) auto
next
  case (Inr p)
  then show thesis using paid proof_named [OF assms] by blast
qed

end

interpretation dummy: payment_method "can_handle (dummy_payment_handler bytes)" "pay (dummy_payment_handler bytes)"
  by unfold_locales (auto simp: dummy_payment_handler_def dummy_pay_def)

interpretation x402: payment_method "can_handle x402_payment_handler" "pay x402_payment_handler"
  by unfold_locales (simp_all add: x402_payment_handler_def)

definition lawful :: "payment_handler \<Rightarrow> bool" where
  "lawful h = payment_method (can_handle h) (pay h)"

lemma try_handlers_find:
  "try_handlers hs r = (case find (\<lambda>h. can_handle h r) hs of
     Some h \<Rightarrow> pay h r | None \<Rightarrow> Inl (Payment (''no payment handler available for '' @ pr_url r)))"
  by (induction hs) (auto split: sum.split)

lemma find_Some_split:
  "find P xs = Some x \<Longrightarrow> P x \<and> x \<in> set xs"
  by (induction xs) (auto split: if_splits)

section \<open>What the header loop leaves\<close>

text \<open>The last value a header name (in any case) is given, and the first protocol detected.\<close>

definition last_value :: "string \<Rightarrow> (string \<times> string) list \<Rightarrow> string option" where
  "last_value name headers = map_of (rev (map (\<lambda>kv. (to_lowercase (fst kv), snd kv)) headers)) name"

definition detects :: "string \<times> string \<Rightarrow> string option" where
  "detects kv =
     (if starts_with (to_lowercase (fst kv)) ''x-402'' then Some ''x402''
      else if to_lowercase (fst kv) = ''www-authenticate'' \<and> starts_with (to_lowercase (snd kv)) ''l402''
      then Some ''l402'' else None)"

fun first_detected :: "(string \<times> string) list \<Rightarrow> string option" where
  "first_detected [] = None"
| "first_detected (kv # kvs) = (case detects kv of Some p \<Rightarrow> Some p | None \<Rightarrow> first_detected kvs)"

definition or_else :: "'a option \<Rightarrow> 'a option \<Rightarrow> 'a option" where
  "or_else x y = (case x of None \<Rightarrow> y | Some v \<Rightarrow> Some v)"

lemma last_value_Nil [simp]: "last_value n [] = None"
  by (simp add: last_value_def)

lemma last_value_snoc: "last_value n (kvs @ [kv]) =
    (if to_lowercase (fst kv) = n then Some (snd kv) else last_value n kvs)"
  by (simp add: last_value_def)

lemma first_detected_snoc: "first_detected (kvs @ [kv]) = or_else (first_detected kvs) (detects kv)"
  by (induction kvs) (auto simp: or_else_def split: option.splits)

lemma header_step_fields:
  fixes kv
  defines "k \<equiv> to_lowercase (fst kv)"
  shows "pf_amount (header_step kv f) = (if k = ''x-payment-amount'' then Some (snd kv) else pf_amount f)"
    and "pf_currency (header_step kv f) = (if k = ''x-payment-currency'' then Some (snd kv) else pf_currency f)"
    and "pf_pay_to (header_step kv f) = (if k = ''x-payment-address'' then Some (snd kv) else pf_pay_to f)"
    and "pf_network (header_step kv f) =
       (if k = ''x-payment-network'' then Some (snd kv) else or_else (pf_network f) (detects kv))"
  unfolding k_def by (auto simp: header_step_def match_key_def detects_def or_else_def Let_def split: option.split)

lemma fold_header_step:
  fixes f
  defines "f \<equiv> \<lparr>pf_amount = None, pf_currency = None, pf_pay_to = None, pf_network = None\<rparr>"
  shows "pf_amount (fold header_step kvs f) = last_value ''x-payment-amount'' kvs
    \<and> pf_currency (fold header_step kvs f) = last_value ''x-payment-currency'' kvs
    \<and> pf_pay_to (fold header_step kvs f) = last_value ''x-payment-address'' kvs
    \<and> pf_network (fold header_step kvs f) = or_else (last_value ''x-payment-network'' kvs) (first_detected kvs)"
proof (induction kvs rule: rev_induct)
  case Nil
  show ?case by (simp add: f_def or_else_def)
next
  case (snoc kv kvs)
  then show ?case
    by (simp add: header_step_fields last_value_snoc first_detected_snoc) (simp add: or_else_def split: option.split)
qed

section \<open>Properties\<close>

text \<open>
  C37. What a 402 response yields: nothing for any other status; otherwise amount, currency
  and address are the last values of their headers, in any case of the header names, and the
  network is the last one named explicitly, or else the first protocol detected; the raw
  headers, body and URL are kept.
\<close>

theorem parse_402_spec:
  "parse_402 status headers body url =
     (if status = 402
      then Some \<lparr>pr_url = url, pr_amount = last_value ''x-payment-amount'' headers,
                 pr_currency = last_value ''x-payment-currency'' headers,
                 pr_pay_to = last_value ''x-payment-address'' headers,
                 pr_network = or_else (last_value ''x-payment-network'' headers) (first_detected headers),
                 pr_headers = headers, pr_body = body\<rparr>
      else None)"
  using fold_header_step [of headers] by (simp add: parse_402_def Let_def)

text \<open>
  The interceptor pays through the first registered handler that accepts the request
  and through no other: its result is returned, failure included, without trying a later
  handler; without such a handler the request fails. With handlers that keep their contract
  every failure is a payment error.
\<close>

theorem handle_payment_first:
  assumes "list_all lawful (pi_handlers p)"
  shows "handle_payment (add_handler p h) r =
       (case find (\<lambda>h. can_handle h r) (pi_handlers p) of
          Some first \<Rightarrow> pay first r
        | None \<Rightarrow> if can_handle h r then pay h r
                   else Inl (Payment (''no payment handler available for '' @ pr_url r)))
     \<and> errs_in is_payment_error (handle_payment p r)"
proof
  have "try_handlers (hs @ [h]) r = (case find (\<lambda>h. can_handle h r) hs of
          Some first \<Rightarrow> pay first r
        | None \<Rightarrow> if can_handle h r then pay h r
                   else Inl (Payment (''no payment handler available for '' @ pr_url r)))" for hs
    by (induction hs) (auto split: sum.split)
  then show "handle_payment (add_handler p h) r =
       (case find (\<lambda>h. can_handle h r) (pi_handlers p) of
          Some first \<Rightarrow> pay first r
        | None \<Rightarrow> if can_handle h r then pay h r
                   else Inl (Payment (''no payment handler available for '' @ pr_url r)))"
    by (simp add: handle_payment_def add_handler_def)
  show "errs_in is_payment_error (handle_payment p r)"
  proof (cases "find (\<lambda>h. can_handle h r) (pi_handlers p)")
    case (Some first)
    then have first: "can_handle first r" "first \<in> set (pi_handlers p)" using find_Some_split by force+
    then have "payment_method (can_handle first) (pay first)"
      using assms by (auto simp: list_all_iff lawful_def)
    from payment_method.settle_errors [OF this first(1)] show ?thesis
      by (simp add: handle_payment_def try_handlers_find Some)
  qed (simp add: handle_payment_def try_handlers_find)
qed

theorem handle_payment_first_witness:
  "handle_payment (add_handler (add_handler interceptor_new x402_payment_handler) (dummy_payment_handler [0, 255]))
     \<lparr>pr_url = ''u'', pr_amount = None, pr_currency = None, pr_pay_to = None, pr_network = Some ''l402'',
      pr_headers = [], pr_body = None\<rparr>
   = Inr \<lparr>header_name = ''X-Payment-Proof'', header_value = ''dummy-proof-00ff''\<rparr>"
proof -
  have "list_all lawful (pi_handlers (add_handler interceptor_new x402_payment_handler))"
    using x402.payment_method_axioms by (simp add: lawful_def add_handler_def interceptor_new_def)
  moreover have "char_of (102 :: nat) = CHR ''f''" by code_simp
  ultimately show ?thesis
    using handle_payment_first [of "add_handler interceptor_new x402_payment_handler"]
    by (simp add: add_handler_def interceptor_new_def x402_payment_handler_def x402_can_handle_def
        dummy_payment_handler_def dummy_pay_def hex2_def hex_digit_def)
qed

end
