(* ===== verification/Relay.thy ===== *)
theory Relay
  imports Houdinny_Error
begin

text \<open>
  The relays (\<open>src/src/relay/mod.rs\<close>): \<open>RelayStream\<close>, which copies between one agent and
  one server, and \<open>BufferedRelay\<close>, which keeps the agent while servers are rotated. A
  \<open>select!\<close> loop is driven by the list of the events its branches deliver, in the order in
  which they win; a list that ends without closing a side is a relay that is still running.
  What a rotation may repeat and lose is accounted for by the locale \<open>accounting\<close>; that nothing
  is, where nothing fails half-way, by \<open>conserving\<close>.
\<close>

type_synonym bytes = "u8 list"

section \<open>Events\<close>

text \<open>
  A read yields bytes (none at the end of the stream) or an error. With the bytes comes what
  happens to the \<open>write_all\<close> that follows: it completes, or it fails after a prefix went out.
\<close>

datatype write_end = Written | Write_failed nat string

datatype relay_event =
    Agent_read "string + bytes" write_end
  | Server_read "string + bytes" write_end

fun written :: "bytes \<Rightarrow> write_end \<Rightarrow> bytes" where
  "written data Written = data"
| "written data (Write_failed k e) = take k data"

record relay_stats =
  bytes_up :: u64
  bytes_down :: u64
  duration :: nat

section \<open>The simple relay\<close>

text \<open>The server stream and the agent's write half are the bytes they were given.\<close>

record relay_stream =
  rs_agent_writer :: bytes
  rs_server :: bytes
  rs_bytes_relayed_up :: u64
  rs_bytes_relayed_down :: u64

definition relay_stream_new :: relay_stream where
  "relay_stream_new =
     \<lparr>rs_agent_writer = [], rs_server = [], rs_bytes_relayed_up = 0, rs_bytes_relayed_down = 0\<rparr>"

text \<open>One turn of the loop; the flag tells whether the loop goes on.\<close>

fun relay_step :: "relay_stream \<Rightarrow> u64 \<Rightarrow> u64 \<Rightarrow> relay_event \<Rightarrow> relay_stream \<times> u64 \<times> u64 \<times> bool" where
  "relay_step r up down (Agent_read (Inl e) _) = (r, up, down, False)"
| "relay_step r up down (Agent_read (Inr data) w) =
     (if data = [] then (r, up, down, False)
      else case w of
             Write_failed _ _ \<Rightarrow> (r\<lparr>rs_server := rs_server r @ written data w\<rparr>, up, down, False)
           | Written \<Rightarrow>
               let up = up + word_of_nat (length data) in
               (r\<lparr>rs_server := rs_server r @ data, rs_bytes_relayed_up := up\<rparr>, up, down, True))"
| "relay_step r up down (Server_read (Inl e) _) = (r, up, down, False)"
| "relay_step r up down (Server_read (Inr data) w) =
     (if data = [] then (r, up, down, False)
      else case w of
             Write_failed _ _ \<Rightarrow>
               (r\<lparr>rs_agent_writer := rs_agent_writer r @ written data w\<rparr>, up, down, False)
           | Written \<Rightarrow>
               let down = down + word_of_nat (length data) in
               (r\<lparr>rs_agent_writer := rs_agent_writer r @ data, rs_bytes_relayed_down := down\<rparr>, up, down, True))"

fun relay_loop :: "relay_stream \<Rightarrow> u64 \<Rightarrow> u64 \<Rightarrow> relay_event list \<Rightarrow> (relay_stream \<times> u64 \<times> u64) option" where
  "relay_loop r up down [] = None"
| "relay_loop r up down (ev # evs) =
     (case relay_step r up down ev of
        (r, up, down, go) \<Rightarrow> if go then relay_loop r up down evs else Some (r, up, down))"

definition relay :: "relay_stream \<Rightarrow> nat \<Rightarrow> nat \<Rightarrow> relay_event list \<Rightarrow> (relay_stats \<times> relay_stream) option" where
  "relay r start finish evs =
     map_option (\<lambda>(r, up, down). (\<lparr>bytes_up = up, bytes_down = down, duration = finish - start\<rparr>, r))
       (relay_loop r 0 0 evs)"

section \<open>The buffered relay\<close>

record buffered_relay =
  agent_writer :: bytes
  buffer :: bytes
  agent_connected :: bool
  total_bytes_up :: u64
  total_bytes_down :: u64
  started_at :: "nat option"

definition buffered_relay_new :: buffered_relay where
  "buffered_relay_new =
     \<lparr>agent_writer = [], buffer = [], agent_connected = True, total_bytes_up = 0,
      total_bytes_down = 0, started_at = None\<rparr>"

record session =
  se_server :: bytes
  se_up :: u64
  se_down :: u64

fun buffered_step :: "buffered_relay \<Rightarrow> session \<Rightarrow> relay_event \<Rightarrow> buffered_relay \<times> session \<times> bool" where
  "buffered_step r s (Agent_read (Inl e) _) = (r\<lparr>agent_connected := False\<rparr>, s, False)"
| "buffered_step r s (Agent_read (Inr data) w) =
     (if data = [] then (r\<lparr>agent_connected := False\<rparr>, s, False)
      else case w of
             Write_failed _ _ \<Rightarrow>
               (r\<lparr>buffer := buffer r @ data\<rparr>, s\<lparr>se_server := se_server s @ written data w\<rparr>, False)
           | Written \<Rightarrow>
               (r, s\<lparr>se_server := se_server s @ data, se_up := se_up s + word_of_nat (length data)\<rparr>, True))"
| "buffered_step r s (Server_read (Inl e) _) = (r, s, False)"
| "buffered_step r s (Server_read (Inr data) w) =
     (if data = [] then (r, s, False)
      else case w of
             Write_failed _ _ \<Rightarrow>
               (r\<lparr>agent_connected := False, agent_writer := agent_writer r @ written data w\<rparr>, s, False)
           | Written \<Rightarrow>
               (r\<lparr>agent_writer := agent_writer r @ data\<rparr>,
                s\<lparr>se_down := se_down s + word_of_nat (length data)\<rparr>, True))"

fun buffered_loop :: "buffered_relay \<Rightarrow> session \<Rightarrow> relay_event list \<Rightarrow> (buffered_relay \<times> session) option" where
  "buffered_loop r s [] = None"
| "buffered_loop r s (ev # evs) =
     (case buffered_step r s ev of
        (r, s, go) \<Rightarrow> if go then buffered_loop r s evs else Some (r, s))"

text \<open>
  \<open>relay_through\<close>: \<open>flush\<close> is the end of the write that empties the buffer. The result is the
  value returned, the relay, and the bytes the server was given.
\<close>

definition relay_through ::
  "buffered_relay \<Rightarrow> write_end \<Rightarrow> relay_event list \<Rightarrow> nat \<Rightarrow> nat \<Rightarrow>
     ((error + relay_stats) \<times> buffered_relay \<times> bytes) option" where
  "relay_through r flush evs start finish =
     (if \<not> agent_connected r then Some (Inl (Proxy ''agent connection is closed''), r, [])
      else
        let r = (if started_at r = None then r\<lparr>started_at := Some start\<rparr> else r);
            buffered = buffer r;
            r = r\<lparr>buffer := []\<rparr>
        in case (if buffered = [] then Written else flush) of
             Write_failed k e \<Rightarrow> Some (Inl (Io e), r, take k buffered)
           | Written \<Rightarrow>
               map_option
                 (\<lambda>(r, s). (Inr \<lparr>bytes_up = se_up s, bytes_down = se_down s, duration = finish - start\<rparr>,
                             r\<lparr>total_bytes_up := total_bytes_up r + se_up s,
                               total_bytes_down := total_bytes_down r + se_down s\<rparr>,
                             se_server s))
                 (buffered_loop r
                    \<lparr>se_server = buffered, se_up = word_of_nat (length buffered), se_down = 0\<rparr> evs))"

definition agent_alive :: "buffered_relay \<Rightarrow> bool" where
  "agent_alive r = agent_connected r"

definition total_stats :: "buffered_relay \<Rightarrow> nat \<Rightarrow> relay_stats" where
  "total_stats r now =
     \<lparr>bytes_up = total_bytes_up r, bytes_down = total_bytes_down r,
      duration = (case started_at r of Some s \<Rightarrow> now - s | None \<Rightarrow> 0)\<rparr>"

section \<open>Which events a loop consumes\<close>

fun closes :: "relay_event \<Rightarrow> bool" where
  "closes (Agent_read (Inr data) Written) = (data = [])"
| "closes (Server_read (Inr data) Written) = (data = [])"
| "closes _ = True"

text \<open>The events up to and including the first one that closes the session.\<close>

fun consumed :: "relay_event list \<Rightarrow> relay_event list" where
  "consumed [] = []"
| "consumed (ev # evs) = (if closes ev then [ev] else ev # consumed evs)"

fun agent_bytes :: "relay_event \<Rightarrow> bytes" where
  "agent_bytes (Agent_read (Inr data) _) = data"
| "agent_bytes _ = []"

fun server_bytes :: "relay_event \<Rightarrow> bytes" where
  "server_bytes (Server_read (Inr data) Written) = data"
| "server_bytes _ = []"

fun sent_up :: "relay_event \<Rightarrow> bytes" where
  "sent_up (Agent_read (Inr data) Written) = data"
| "sent_up _ = []"

text \<open>What went out of a write that failed.\<close>

fun sent_before_failure :: "relay_event \<Rightarrow> bytes" where
  "sent_before_failure (Agent_read (Inr data) (Write_failed k _)) = take k data"
| "sent_before_failure _ = []"

fun clean_failure :: "relay_event \<Rightarrow> bool" where
  "clean_failure (Agent_read _ (Write_failed k _)) = (k = 0)"
| "clean_failure (Server_read _ (Write_failed k _)) = (k = 0)"
| "clean_failure _ = True"

lemma relay_step_closes: "snd (snd (snd (relay_step r up down ev))) = (\<not> closes ev)"
  by (cases "(r, up, down, ev)" rule: relay_step.cases) (auto simp: Let_def split: write_end.splits)

lemma buffered_step_closes: "snd (snd (buffered_step r s ev)) = (\<not> closes ev)"
  by (cases "(r, s, ev)" rule: buffered_step.cases) (auto split: write_end.splits)

lemma relay_loop_returns_iff: "(\<exists>x. relay_loop r up down evs = Some x) \<longleftrightarrow> (\<exists>ev \<in> set evs. closes ev)"
proof (induction evs arbitrary: r up down)
  case (Cons ev evs)
  show ?case
    using Cons.IH relay_step_closes [of r up down ev] by (auto split: prod.splits)
qed simp

lemma buffered_loop_returns_iff: "(\<exists>x. buffered_loop r s evs = Some x) \<longleftrightarrow> (\<exists>ev \<in> set evs. closes ev)"
proof (induction evs arbitrary: r s)
  case (Cons ev evs)
  show ?case
    using Cons.IH buffered_step_closes [of r s ev] by (auto split: prod.splits)
qed simp

lemma buffered_step_flow_all:
  assumes "buffer r = []" "clean_failure ev"
  shows "case buffered_step r s ev of (r', s', go) \<Rightarrow>
      se_server s' @ buffer r' = se_server s @ agent_bytes ev
    \<and> agent_writer r' = agent_writer r @ server_bytes ev
    \<and> se_up s' = se_up s + word_of_nat (length (sent_up ev))
    \<and> se_down s' = se_down s + word_of_nat (length (server_bytes ev))
    \<and> (go \<longrightarrow> buffer r' = [])
    \<and> total_bytes_up r' = total_bytes_up r \<and> total_bytes_down r' = total_bytes_down r"
proof (cases ev)
  case (Agent_read x w)
  then show ?thesis using assms by (cases x; cases w) simp_all
next
  case (Server_read x w)
  then show ?thesis using assms by (cases x; cases w) simp_all
qed

lemma buffered_step_flow:
  assumes "buffer r = []" "buffered_step r s ev = (r', s', go)" "clean_failure ev"
  shows "se_server s' @ buffer r' = se_server s @ agent_bytes ev"
    and "agent_writer r' = agent_writer r @ server_bytes ev"
    and "se_up s' = se_up s + word_of_nat (length (sent_up ev))"
    and "se_down s' = se_down s + word_of_nat (length (server_bytes ev))"
    and "go \<longrightarrow> buffer r' = []"
    and "total_bytes_up r' = total_bytes_up r" "total_bytes_down r' = total_bytes_down r"
  using buffered_step_flow_all [OF assms(1,3), of s] assms(2) by simp_all

lemma buffered_loop_flow:
  assumes "buffer r = []" "buffered_loop r s evs = Some (r', s')" "list_all clean_failure (consumed evs)"
  shows "se_server s' @ buffer r' = se_server s @ concat (map agent_bytes (consumed evs))
    \<and> agent_writer r' = agent_writer r @ concat (map server_bytes (consumed evs))
    \<and> se_up s' = se_up s + word_of_nat (length (concat (map sent_up (consumed evs))))
    \<and> se_down s' = se_down s + word_of_nat (length (concat (map server_bytes (consumed evs))))
    \<and> total_bytes_up r' = total_bytes_up r \<and> total_bytes_down r' = total_bytes_down r"
  using assms
proof (induction evs arbitrary: r s)
  case (Cons ev evs)
  obtain r1 s1 go where step: "buffered_step r s ev = (r1, s1, go)" by (cases "buffered_step r s ev")
  have clean: "clean_failure ev" using Cons.prems(3) by (simp split: if_splits)
  note flow = buffered_step_flow [OF Cons.prems(1) step clean]
  have go: "go = (\<not> closes ev)" using buffered_step_closes [of r s ev] step by simp
  show ?case
  proof (cases "closes ev")
    case True
    then show ?thesis using Cons.prems(2) step go flow by simp
  next
    case False
    then have "buffered_loop r1 s1 evs = Some (r', s')" "buffer r1 = []"
      "list_all clean_failure (consumed evs)"
      using Cons.prems step go flow(5) by simp_all
    from Cons.IH [OF this(2,1,3)] show ?thesis
      using False flow(1-4,6,7) \<open>buffer r1 = []\<close> by simp
  qed
qed simp

lemma buffered_step_balance:
  assumes "buffer r = []"
  shows "case buffered_step r s ev of (r', s', go) \<Rightarrow>
      (\<exists>kept. se_server s' = se_server s @ kept @ sent_before_failure ev \<and> kept @ buffer r' = agent_bytes ev)
    \<and> (go \<longrightarrow> buffer r' = [] \<and> sent_before_failure ev = [])"
proof (cases ev)
  case (Agent_read x w)
  then show ?thesis using assms by (cases x; cases w) simp_all
next
  case (Server_read x w)
  then show ?thesis using assms by (cases x; cases w) simp_all
qed

lemma buffered_loop_balance:
  assumes "buffer r = []" "buffered_loop r s evs = Some (r', s')"
  shows "\<exists>kept. se_server s' = se_server s @ kept @ concat (map sent_before_failure (consumed evs))
    \<and> kept @ buffer r' = concat (map agent_bytes (consumed evs))"
  using assms
proof (induction evs arbitrary: r s)
  case (Cons ev evs)
  obtain r1 s1 go where step: "buffered_step r s ev = (r1, s1, go)" by (cases "buffered_step r s ev")
  have go: "go = (\<not> closes ev)" using buffered_step_closes [of r s ev] step by simp
  obtain k where k: "se_server s1 = se_server s @ k @ sent_before_failure ev" "k @ buffer r1 = agent_bytes ev"
    "go \<longrightarrow> buffer r1 = [] \<and> sent_before_failure ev = []"
    using buffered_step_balance [OF Cons.prems(1), of s ev] step by auto
  show ?case
  proof (cases "closes ev")
    case True
    then show ?thesis using Cons.prems(2) step go k by (intro exI [of _ k]) simp
  next
    case False
    then have "buffered_loop r1 s1 evs = Some (r', s')" "buffer r1 = []" using Cons.prems step go k(3) by simp_all
    from Cons.IH [OF this(2,1)] obtain ks where
      "se_server s' = se_server s1 @ ks @ concat (map sent_before_failure (consumed evs))"
      "ks @ buffer r' = concat (map agent_bytes (consumed evs))" by blast
    then show ?thesis using False k go by (intro exI [of _ "k @ ks"]) auto
  qed
qed simp

section \<open>Conservation over rotations\<close>

fun run_all :: "('s \<Rightarrow> 'i \<Rightarrow> ('s \<times> 'b list) option) \<Rightarrow> 's \<Rightarrow> 'i list \<Rightarrow> ('s \<times> 'b list) option" where
  "run_all step s [] = Some (s, [])"
| "run_all step s (i # is) =
     (case step s i of
        None \<Rightarrow> None
      | Some (s1, out) \<Rightarrow> map_option (\<lambda>(s2, outs). (s2, out @ outs)) (run_all step s1 is))"

text \<open>What a quantity of the single steps comes to over a run, step by step.\<close>

fun along :: "('s \<Rightarrow> 'i \<Rightarrow> ('s \<times> 'b list) option) \<Rightarrow> ('s \<Rightarrow> 'i \<Rightarrow> 'c) \<Rightarrow> 's \<Rightarrow> 'i list \<Rightarrow> 'c list" where
  "along step q s [] = []"
| "along step q s (i # is) = q s i # (case step s i of None \<Rightarrow> [] | Some (s1, _) \<Rightarrow> along step q s1 is)"

text \<open>
  A step takes in what it is fed and gives something out. What it gives out ends with what it
  will give out once more; what it was given, with what it held before, is what it gave out
  for good, then what it lost, then what it holds.
\<close>

locale accounting =
  fixes step :: "'s \<Rightarrow> 'i \<Rightarrow> ('s \<times> 'b list) option"
    and held :: "'s \<Rightarrow> 'b list"
    and fed repeated lost :: "'s \<Rightarrow> 'i \<Rightarrow> 'b list"
  assumes accounts: "step s i = Some (s', out) \<Longrightarrow>
      \<exists>kept. out = kept @ repeated s i \<and> held s @ fed s i = kept @ lost s i @ held s'"
begin

lemma run_accounts:
  "run_all step s is = Some (s', out) \<Longrightarrow>
   \<exists>kept. length kept = length is \<and> out = concat (map2 (@) kept (along step repeated s is))
     \<and> held s @ concat (along step fed s is) = concat (map2 (@) kept (along step lost s is)) @ held s'"
proof (induction "is" arbitrary: s out)
  case (Cons i "is")
  obtain s1 o1 o2 where step: "step s i = Some (s1, o1)" "run_all step s1 is = Some (s', o2)" "out = o1 @ o2"
    using Cons.prems by (auto split: option.splits)
  obtain k where k: "o1 = k @ repeated s i" "held s @ fed s i = k @ lost s i @ held s1"
    using accounts [OF step(1)] by blast
  obtain ks where ks: "length ks = length is" "o2 = concat (map2 (@) ks (along step repeated s1 is))"
    "held s1 @ concat (along step fed s1 is) = concat (map2 (@) ks (along step lost s1 is)) @ held s'"
    using Cons.IH [OF step(2)] by blast
  have "held s @ concat (along step fed s (i # is)) = k @ lost s i @ held s1 @ concat (along step fed s1 is)"
    using step(1) k(2) by (simp flip: append_assoc)
  then show ?case using step(1,3) k(1) ks by (intro exI [of _ "k # ks"]) simp
qed simp

end

text \<open>Steps of which nothing is repeated or lost conserve what they are fed.\<close>

locale conserving = accounting +
  fixes ok :: "'b \<Rightarrow> bool"
  assumes ok_exact: "ok i \<Longrightarrow> repeated s i = [] \<and> lost s i = []"
begin

lemma along_empty:
  "list_all ok is \<Longrightarrow> length kept = length is \<Longrightarrow> q = repeated \<or> q = lost \<Longrightarrow>
   run_all step s is = Some x \<Longrightarrow> concat (map2 (@) kept (along step q s is)) = concat kept"
  by (induction "is" arbitrary: s kept x) (auto simp: length_Suc_conv ok_exact split: option.splits)

lemma run_conserves:
  assumes "list_all ok is" "run_all step s is = Some (s', out)"
  shows "out @ held s' = held s @ concat (along step fed s is)"
proof -
  obtain kept where "length kept = length is" "out = concat (map2 (@) kept (along step repeated s is))"
    "held s @ concat (along step fed s is) = concat (map2 (@) kept (along step lost s is)) @ held s'"
    using run_accounts [OF assms(2)] by blast
  then show ?thesis using along_empty [OF assms(1)] assms(2) by simp
qed

end

text \<open>A session as a step: the server it goes through, its events, and when it starts and ends.\<close>

type_synonym session_input = "write_end \<times> relay_event list \<times> nat \<times> nat"

fun session_step :: "buffered_relay \<Rightarrow> session_input \<Rightarrow> (buffered_relay \<times> bytes) option" where
  "session_step r (flush, evs, start, finish) =
     map_option (\<lambda>(_, r', server). (r', server)) (relay_through r flush evs start finish)"

text \<open>A session is run when the agent is there and the buffer has been handed over.\<close>

fun hand_over :: "buffered_relay \<Rightarrow> session_input \<Rightarrow> write_end" where
  "hand_over r (flush, _, _, _) = (if buffer r = [] then Written else flush)"

definition session_runs :: "buffered_relay \<Rightarrow> session_input \<Rightarrow> bool" where
  "session_runs r i = (agent_connected r \<and> hand_over r i = Written)"

fun session_fed :: "buffered_relay \<Rightarrow> session_input \<Rightarrow> bytes" where
  "session_fed r (flush, evs, start, finish) =
     (if session_runs r (flush, evs, start, finish) then concat (map agent_bytes (consumed evs)) else [])"

text \<open>The part of a failed write that went out is sent again from the buffer.\<close>

fun session_repeated :: "buffered_relay \<Rightarrow> session_input \<Rightarrow> bytes" where
  "session_repeated r (flush, evs, start, finish) =
     (if session_runs r (flush, evs, start, finish) then concat (map sent_before_failure (consumed evs)) else [])"

text \<open>The part of the buffer that did not go out when its hand-over failed is dropped.\<close>

fun session_lost :: "buffered_relay \<Rightarrow> session_input \<Rightarrow> bytes" where
  "session_lost r (flush, evs, start, finish) =
     (case flush of
        Write_failed k _ \<Rightarrow> if agent_connected r then drop k (buffer r) else []
      | Written \<Rightarrow> [])"

fun session_ok :: "session_input \<Rightarrow> bool" where
  "session_ok (flush, evs, _, _) = (flush = Written \<and> list_all clean_failure evs)"

lemma consumed_subset: "set (consumed evs) \<subseteq> set evs"
  by (induction evs) auto

lemma relay_through_flow:
  assumes "agent_connected r" "relay_through r Written evs start finish = Some (res, r', server)"
    and "list_all clean_failure (consumed evs)"
  shows "\<exists>stats. res = Inr stats
    \<and> server @ buffer r' = buffer r @ concat (map agent_bytes (consumed evs))
    \<and> agent_writer r' = agent_writer r @ concat (map server_bytes (consumed evs))
    \<and> bytes_up stats = word_of_nat (length (buffer r @ concat (map sent_up (consumed evs))))
    \<and> bytes_down stats = word_of_nat (length (concat (map server_bytes (consumed evs))))
    \<and> total_bytes_up r' = total_bytes_up r + bytes_up stats
    \<and> total_bytes_down r' = total_bytes_down r + bytes_down stats"
proof -
  let ?r = "(if started_at r = None then r\<lparr>started_at := Some start\<rparr> else r)\<lparr>buffer := []\<rparr>"
  let ?s = "\<lparr>se_server = buffer r, se_up = word_of_nat (length (buffer r)), se_down = 0\<rparr>"
  obtain r1 s1 where loop: "buffered_loop ?r ?s evs = Some (r1, s1)"
    and res: "res = Inr \<lparr>bytes_up = se_up s1, bytes_down = se_down s1, duration = finish - start\<rparr>"
    and r': "r' = r1\<lparr>total_bytes_up := total_bytes_up r1 + se_up s1,
               total_bytes_down := total_bytes_down r1 + se_down s1\<rparr>"
    and server: "server = se_server s1"
    using assms(1,2) by (auto simp: relay_through_def Let_def split: if_splits)
  have "buffer ?r = []" by simp
  note flow = buffered_loop_flow [OF this loop assms(3)]
  show ?thesis
    by (rule exI [of _ "\<lparr>bytes_up = se_up s1, bytes_down = se_down s1, duration = finish - start\<rparr>"])
      (use flow in \<open>simp add: res r' server\<close>)
qed

lemma session_step_accounts:
  assumes "session_step r i = Some (r', server)"
  shows "\<exists>kept. server = kept @ session_repeated r i \<and> buffer r @ session_fed r i = kept @ session_lost r i @ buffer r'"
proof -
  obtain flush evs start finish where i: "i = (flush, evs, start, finish)" by (cases i)
  obtain res where run: "relay_through r flush evs start finish = Some (res, r', server)"
    using assms by (auto simp: i)
  show ?thesis
  proof (cases "session_runs r i")
    case False
    then show ?thesis using run
      by (cases flush) (auto simp: i relay_through_def session_runs_def Let_def split: if_splits)
  next
    case True
    let ?r = "(if started_at r = None then r\<lparr>started_at := Some start\<rparr> else r)\<lparr>buffer := []\<rparr>"
    let ?s = "\<lparr>se_server = buffer r, se_up = word_of_nat (length (buffer r)), se_down = 0\<rparr>"
    have flush: "agent_connected r" "(if buffer r = [] then Written else flush) = Written"
      using True by (simp_all add: session_runs_def i)
    then obtain r1 s1 where "buffered_loop ?r ?s evs = Some (r1, s1)" "buffer r' = buffer r1" "server = se_server s1"
      using run by (cases "started_at r = None") (auto simp: relay_through_def Let_def)
    then obtain kept where "server = buffer r @ kept @ concat (map sent_before_failure (consumed evs))"
      "kept @ buffer r' = concat (map agent_bytes (consumed evs))"
      using buffered_loop_balance [of ?r ?s evs r1 s1] by auto
    moreover have "session_lost r i = []" using flush by (cases flush) (auto simp: i split: if_splits)
    ultimately show ?thesis using True by (intro exI [of _ "buffer r @ kept"]) (simp add: i)
  qed
qed

lemma session_ok_exact:
  assumes "session_ok i"
  shows "session_repeated r i = [] \<and> session_lost r i = []"
proof -
  obtain evs start finish where i: "i = (Written, evs, start, finish)" "list_all clean_failure evs"
    using assms by (cases i) auto
  have "sent_before_failure ev = []" if "ev \<in> set (consumed evs)" for ev
    using that i(2) consumed_subset [of evs]
    by (cases ev rule: sent_before_failure.cases) (auto simp: list_all_iff dest!: subsetD)
  then show ?thesis by (simp add: i(1))
qed

interpretation sessions: conserving session_step buffer session_fed session_repeated session_lost session_ok
  by unfold_locales (simp_all add: session_step_accounts session_ok_exact)

section \<open>Properties\<close>

text \<open>
  C8. What a rotation does with the agent's bytes, over any sequence of sessions, whatever
  fails in them: the bytes the servers were given and the bytes the agent sent agree session by
  session, in order, up to two things. The part of a failed write that had gone out is given to
  the next server once more, and the part of the buffer that did not go out when its hand-over
  failed is lost; what is left is still buffered. So when every hand-over succeeds and a failed
  write took nothing of its data, the bytes of all servers, followed by the buffer, are exactly
  the bytes the agent sent.
\<close>

theorem rotation_conserves:
  assumes "run_all session_step buffered_relay_new ss = Some (r, delivered)"
  defines "sent \<equiv> concat (along session_step session_fed buffered_relay_new ss)"
  shows "(\<exists>kept. length kept = length ss
      \<and> delivered = concat (map2 (@) kept (along session_step session_repeated buffered_relay_new ss))
      \<and> sent = concat (map2 (@) kept (along session_step session_lost buffered_relay_new ss)) @ buffer r)
    \<and> (list_all session_ok ss \<longrightarrow> sent = delivered @ buffer r)"
  using sessions.run_accounts [OF assms(1)] sessions.run_conserves [OF _ assms(1)]
  unfolding sent_def by (simp add: buffered_relay_new_def)

text \<open>
  Three sessions: a write that fails after one byte of two, the hand-over of these two failing
  after the first, and a session on the empty buffer. The byte \<open>2\<close> reaches the servers twice,
  the byte \<open>3\<close> never.
\<close>

definition rough_sessions :: "session_input list" where
  "rough_sessions =
     [(Written, [Agent_read (Inr [1]) Written, Agent_read (Inr [2, 3]) (Write_failed 1 ''reset'')], 0, 5),
      (Write_failed 1 ''reset'', [], 6, 6),
      (Written, [Agent_read (Inr [4]) Written, Agent_read (Inr []) Written], 7, 8)]"

theorem rotation_conserves_witness:
  "\<exists>r kept. run_all session_step buffered_relay_new rough_sessions = Some (r, [1, 2, 2, 4])
     \<and> length kept = 3
     \<and> [1, 2, 2, 4] = concat (map2 (@) kept [[2], [], []])
     \<and> [1, 2, 3, 4] = concat (map2 (@) kept [[], [3], []]) @ buffer r"
proof -
  obtain r where run: "run_all session_step buffered_relay_new rough_sessions = Some (r, [1, 2, 2, 4])"
    by (simp add: rough_sessions_def relay_through_def buffered_relay_new_def Let_def)
  have "along session_step session_fed buffered_relay_new rough_sessions = [[1, 2, 3], [], [4]]"
    "along session_step session_repeated buffered_relay_new rough_sessions = [[2], [], []]"
    "along session_step session_lost buffered_relay_new rough_sessions = [[], [3], []]"
    by (simp_all add: rough_sessions_def relay_through_def buffered_relay_new_def session_runs_def Let_def)
  moreover have "length rough_sessions = 3" by (simp add: rough_sessions_def)
  ultimately show ?thesis using rotation_conserves [OF run] run by (intro exI [of _ r]) (elim conjE exE, auto)
qed

text \<open>
  The exception: when the hand-over of the buffer to a new server fails, the buffered
  bytes are gone although the agent is still counted as connected; the next server is given
  nothing of them.
\<close>

theorem flush_failure_loses_buffer:
  assumes "agent_connected r" "buffer r \<noteq> []"
  shows "\<exists>r'. relay_through r (Write_failed k e) evs start finish = Some (Inl (Io e), r', take k (buffer r))
     \<and> agent_alive r' \<and> buffer r' = []
     \<and> (\<forall>flush. relay_through r' flush [Agent_read (Inr []) Written] start' finish'
          = Some (Inr \<lparr>bytes_up = 0, bytes_down = 0, duration = finish' - start'\<rparr>, r'\<lparr>agent_connected := False\<rparr>, []))"
proof -
  let ?r = "(if started_at r = None then r\<lparr>started_at := Some start\<rparr> else r)\<lparr>buffer := []\<rparr>"
  have "relay_through r (Write_failed k e) evs start finish = Some (Inl (Io e), ?r, take k (buffer r))"
    using assms by (simp add: relay_through_def Let_def)
  moreover have "agent_alive ?r" "buffer ?r = []" "started_at ?r \<noteq> None"
    using assms(1) by (simp_all add: agent_alive_def)
  moreover from this have "relay_through ?r flush [Agent_read (Inr []) Written] start' finish'
      = Some (Inr \<lparr>bytes_up = 0, bytes_down = 0, duration = finish' - start'\<rparr>, ?r\<lparr>agent_connected := False\<rparr>, [])"
    for flush by (simp add: relay_through_def agent_alive_def Let_def)
  ultimately show ?thesis by blast
qed

theorem flush_failure_loses_buffer_witness:
  "\<exists>r'. relay_through (buffered_relay_new\<lparr>buffer := [7, 8]\<rparr>) (Write_failed 1 ''reset'') [] 0 1
       = Some (Inl (Io ''reset''), r', [7]) \<and> agent_alive r' \<and> buffer r' = []"
proof -
  have "agent_connected (buffered_relay_new\<lparr>buffer := [7, 8]\<rparr>)" "buffer (buffered_relay_new\<lparr>buffer := [7, 8]\<rparr>) \<noteq> []"
    by (simp_all add: buffered_relay_new_def)
  from flush_failure_loses_buffer [OF this, of 1 "''reset''" "[]" 0 1 0 0] show ?thesis by auto
qed

text \<open>
  The counters account for the traffic: a session that ends reports, modulo
  \<open>2^64\<close>, the bytes handed to the server (the flushed buffer included) and to the agent;
  the running totals grow by exactly that; and a session ends if and only if one of its
  events closes a side.
\<close>

theorem session_accounting:
  assumes "agent_connected r" "list_all clean_failure evs"
  shows "((\<exists>x. relay_through r Written evs start finish = Some x) \<longleftrightarrow> (\<exists>ev \<in> set evs. closes ev))
   \<and> (relay_through r Written evs start finish = Some (res, r', server) \<longrightarrow>
      (\<exists>stats. res = Inr stats
        \<and> bytes_up stats = word_of_nat (length (buffer r @ concat (map sent_up (consumed evs))))
        \<and> bytes_down stats = word_of_nat (length (concat (map server_bytes (consumed evs))))
        \<and> agent_writer r' = agent_writer r @ concat (map server_bytes (consumed evs))
        \<and> bytes_up (total_stats r' now) = bytes_up (total_stats r now) + bytes_up stats
        \<and> bytes_down (total_stats r' now) = bytes_down (total_stats r now) + bytes_down stats))"
proof
  show "(\<exists>x. relay_through r Written evs start finish = Some x) \<longleftrightarrow> (\<exists>ev \<in> set evs. closes ev)"
    using assms(1) buffered_loop_returns_iff [of _ _ evs] by (simp add: relay_through_def Let_def)
  have "list_all clean_failure (consumed evs)"
    using assms(2) consumed_subset by (fastforce simp: list_all_iff)
  then show "relay_through r Written evs start finish = Some (res, r', server) \<longrightarrow>
      (\<exists>stats. res = Inr stats
        \<and> bytes_up stats = word_of_nat (length (buffer r @ concat (map sent_up (consumed evs))))
        \<and> bytes_down stats = word_of_nat (length (concat (map server_bytes (consumed evs))))
        \<and> agent_writer r' = agent_writer r @ concat (map server_bytes (consumed evs))
        \<and> bytes_up (total_stats r' now) = bytes_up (total_stats r now) + bytes_up stats
        \<and> bytes_down (total_stats r' now) = bytes_down (total_stats r now) + bytes_down stats)"
    using relay_through_flow [OF assms(1)] unfolding total_stats_def by fastforce
qed

theorem session_accounting_witness:
  "\<exists>stats r'. relay_through buffered_relay_new Written
       [Server_read (Inr [1, 2, 3]) Written, Agent_read (Inr [4]) Written, Server_read (Inr []) Written] 0 1
     = Some (Inr stats, r', [4]) \<and> bytes_up stats = 1 \<and> bytes_down stats = 3 \<and> agent_writer r' = [1, 2, 3]"
proof -
  let ?evs = "[Server_read (Inr [1, 2, 3]) Written, Agent_read (Inr [4]) Written, Server_read (Inr []) Written]"
  obtain res r' where run: "relay_through buffered_relay_new Written ?evs 0 1 = Some (res, r', [4])"
    by (simp add: relay_through_def buffered_relay_new_def Let_def)
  have pre: "agent_connected buffered_relay_new" "list_all clean_failure ?evs"
    by (simp_all add: buffered_relay_new_def)
  show ?thesis
    using session_accounting [OF pre, of 0 1 res r' "[4]" 0] run
    by (auto simp: buffered_relay_new_def)
qed

lemma relay_loop_flow:
  "relay_loop r up down evs = Some (r', up', down') \<Longrightarrow>
     up' = up + word_of_nat (length (concat (map sent_up (consumed evs))))
   \<and> down' = down + word_of_nat (length (concat (map server_bytes (consumed evs))))
   \<and> prefix (rs_server r @ concat (map sent_up (consumed evs))) (rs_server r')
   \<and> prefix (rs_agent_writer r @ concat (map server_bytes (consumed evs))) (rs_agent_writer r')
   \<and> (rs_bytes_relayed_up r = up \<and> rs_bytes_relayed_down r = down \<longrightarrow>
        rs_bytes_relayed_up r' = up' \<and> rs_bytes_relayed_down r' = down')"
proof (induction evs arbitrary: r up down)
  case (Cons ev evs)
  obtain r1 up1 down1 go where step: "relay_step r up down ev = (r1, up1, down1, go)"
    by (cases "relay_step r up down ev")
  have go: "go = (\<not> closes ev)" using relay_step_closes [of r up down ev] step by simp
  have flow: "case relay_step r up down ev of (r1, up1, down1, go) \<Rightarrow>
      up1 = up + word_of_nat (length (sent_up ev)) \<and> down1 = down + word_of_nat (length (server_bytes ev))
    \<and> prefix (rs_server r @ sent_up ev) (rs_server r1)
    \<and> prefix (rs_agent_writer r @ server_bytes ev) (rs_agent_writer r1)
    \<and> (go \<longrightarrow> rs_server r1 = rs_server r @ sent_up ev \<and> rs_agent_writer r1 = rs_agent_writer r @ server_bytes ev)
    \<and> (rs_bytes_relayed_up r = up \<and> rs_bytes_relayed_down r = down \<longrightarrow>
         rs_bytes_relayed_up r1 = up1 \<and> rs_bytes_relayed_down r1 = down1)"
  proof (cases ev)
    case (Agent_read x w)
    then show ?thesis by (cases x; cases w) (simp_all add: Let_def)
  next
    case (Server_read x w)
    then show ?thesis by (cases x; cases w) (simp_all add: Let_def)
  qed
  show ?case
  proof (cases "closes ev")
    case True
    then show ?thesis using Cons.prems step go flow by simp
  next
    case False
    then have "relay_loop r1 up1 down1 evs = Some (r', up', down')" using Cons.prems step go by simp
    from Cons.IH [OF this] show ?thesis using False flow step go by simp
  qed
qed simp

text \<open>
  The simple relay returns exactly when a side closes or fails, and then its counters,
  also those other tasks read, are the bytes that were written completely, modulo \<open>2^64\<close>;
  each direction arrives in order, followed at most by the part of a write that failed.
\<close>

theorem relay_accounting:
  "((\<exists>x. relay relay_stream_new start finish evs = Some x) \<longleftrightarrow> list_ex closes evs)
   \<and> (case relay relay_stream_new start finish evs of
        None \<Rightarrow> True
      | Some (stats, r) \<Rightarrow>
          bytes_up stats = word_of_nat (length (concat (map sent_up (consumed evs))))
        \<and> bytes_down stats = word_of_nat (length (concat (map server_bytes (consumed evs))))
        \<and> rs_bytes_relayed_up r = bytes_up stats \<and> rs_bytes_relayed_down r = bytes_down stats
        \<and> prefix (concat (map sent_up (consumed evs))) (rs_server r)
        \<and> prefix (concat (map server_bytes (consumed evs))) (rs_agent_writer r))"
proof
  show "(\<exists>x. relay relay_stream_new start finish evs = Some x) \<longleftrightarrow> list_ex closes evs"
    using relay_loop_returns_iff [of relay_stream_new 0 0 evs] by (auto simp: relay_def list_ex_iff)
qed (auto simp: relay_def relay_stream_new_def split: option.splits dest!: relay_loop_flow)

end
