(* ===== verification/Route.thy ===== *)
theory Route
  imports Houdinny_Error
begin

text \<open>
  Route management (\<open>src/src/route/mod.rs\<close>): the Linux policy-routing manager with its 32-bit
  table numbers, the namespace commands, the no-op manager and the factory. The trait
  \<open>RouteManager\<close> is the locale \<open>route_iface\<close>, interpreted on the factory's result.
\<close>

section \<open>Data\<close>

definition default_base_table :: u32 where
  "default_base_table = 100"

record route_config =
  rc_enabled :: bool
  rc_base_table :: u32
  rc_use_namespaces :: bool

definition route_config_default :: route_config where
  "route_config_default = \<lparr>rc_enabled = False, rc_base_table = default_base_table, rc_use_namespaces = False\<rparr>"

record tunnel_route =
  tr_tunnel_id :: string
  tr_interface :: string
  tr_routing_table :: "u32 option"
  tr_namespace :: "string option"

text \<open>The lock around the routes is poisoned when a thread panicked while it held it.\<close>

record linux_route_manager =
  lr_base_table :: u32
  lr_routes :: "tunnel_route list"
  lr_poisoned :: bool

definition poison_text :: string where
  "poison_text = ''poisoned lock: another task failed inside''"

section \<open>The Linux manager\<close>

definition linux_with_base_table :: "u32 \<Rightarrow> linux_route_manager" where
  "linux_with_base_table base_table = \<lparr>lr_base_table = base_table, lr_routes = [], lr_poisoned = False\<rparr>"

definition linux_new :: linux_route_manager where
  "linux_new = linux_with_base_table default_base_table"

definition linux_default :: linux_route_manager where
  "linux_default = linux_new"

definition base_table :: "linux_route_manager \<Rightarrow> u32" where
  "base_table m = lr_base_table m"

definition table_for_offset :: "linux_route_manager \<Rightarrow> u32 \<Rightarrow> u32" where
  "table_for_offset m offset = lr_base_table m + offset"

definition generate_setup_commands :: "string \<Rightarrow> string \<Rightarrow> u32 \<Rightarrow> u32 \<Rightarrow> string list" where
  "generate_setup_commands interface gateway table fwmark =
     [''ip route add default via '' @ gateway @ '' dev '' @ interface @ '' table '' @ show_word table,
      ''ip rule add fwmark '' @ show_word fwmark @ '' table '' @ show_word table]"

definition generate_teardown_commands :: "u32 \<Rightarrow> u32 \<Rightarrow> string list" where
  "generate_teardown_commands table fwmark =
     [''ip rule del fwmark '' @ show_word fwmark @ '' table '' @ show_word table,
      ''ip route del default table '' @ show_word table]"

definition linux_setup_tunnel_route ::
  "linux_route_manager \<Rightarrow> string \<Rightarrow> string \<Rightarrow> (error + unit) \<times> linux_route_manager" where
  "linux_setup_tunnel_route m interface tunnel_id =
     (if lr_poisoned m then (Inl (Config (''route lock poisoned: '' @ poison_text)), m)
      else
        let offset = word_of_nat (length (lr_routes m));
            table = table_for_offset m offset
        in (Inr (),
            m\<lparr>lr_routes := lr_routes m @
                [\<lparr>tr_tunnel_id = tunnel_id, tr_interface = interface, tr_routing_table = Some table,
                  tr_namespace = None\<rparr>]\<rparr>))"

definition linux_teardown_tunnel_route ::
  "linux_route_manager \<Rightarrow> string \<Rightarrow> (error + unit) \<times> linux_route_manager" where
  "linux_teardown_tunnel_route m tunnel_id =
     (if lr_poisoned m then (Inl (Config (''route lock poisoned: '' @ poison_text)), m)
      else (Inr (), m\<lparr>lr_routes := filter (\<lambda>r. tr_tunnel_id r \<noteq> tunnel_id) (lr_routes m)\<rparr>))"

definition linux_active_routes :: "linux_route_manager \<Rightarrow> tunnel_route list" where
  "linux_active_routes m = (if lr_poisoned m then [] else lr_routes m)"

section \<open>Namespaces\<close>

definition generate_create_commands :: "string \<Rightarrow> string \<Rightarrow> string list" where
  "generate_create_commands ns_name interface =
     [''ip netns add '' @ ns_name,
      ''ip link set '' @ interface @ '' netns '' @ ns_name,
      ''ip netns exec '' @ ns_name @ '' ip link set '' @ interface @ '' up'']"

definition generate_delete_commands :: "string \<Rightarrow> string list" where
  "generate_delete_commands ns_name = [''ip netns del '' @ ns_name]"

text \<open>
  The directory listing is an argument: an error of \<open>read_dir\<close>, or its entries, each an error
  or a name, which is none when it is not Unicode.
\<close>

fun collect_names :: "(string + string option) list \<Rightarrow> string list \<Rightarrow> error + string list" where
  "collect_names [] namespaces = Inr namespaces"
| "collect_names (Inl e # _) namespaces = Inl (Io e)"
| "collect_names (Inr None # rest) namespaces = collect_names rest namespaces"
| "collect_names (Inr (Some name) # rest) namespaces = collect_names rest (namespaces @ [name])"

definition list_namespaces :: "bool \<Rightarrow> (string + (string + string option) list) \<Rightarrow> error + string list" where
  "list_namespaces path_exists read_dir =
     (if \<not> path_exists then Inr []
      else and_then (map_err Io read_dir) (\<lambda>entries. collect_names entries []))"

section \<open>The factory\<close>

datatype route_manager = LinuxManager linux_route_manager | NoopManager

text \<open>The manager of the platforms that isolate at the socket keeps no state.\<close>

definition noop_setup_tunnel_route :: "string \<Rightarrow> string \<Rightarrow> error + unit" where
  [simp]: "noop_setup_tunnel_route interface tunnel_id = Inr ()"

definition noop_teardown_tunnel_route :: "string \<Rightarrow> error + unit" where
  [simp]: "noop_teardown_tunnel_route tunnel_id = Inr ()"

definition noop_active_routes :: "tunnel_route list" where
  [simp]: "noop_active_routes = []"

fun setup_tunnel_route :: "route_manager \<Rightarrow> string \<Rightarrow> string \<Rightarrow> (error + unit) \<times> route_manager" where
  "setup_tunnel_route (LinuxManager m) interface tunnel_id =
     (case linux_setup_tunnel_route m interface tunnel_id of (res, m) \<Rightarrow> (res, LinuxManager m))"
| "setup_tunnel_route NoopManager interface tunnel_id = (noop_setup_tunnel_route interface tunnel_id, NoopManager)"

fun teardown_tunnel_route :: "route_manager \<Rightarrow> string \<Rightarrow> (error + unit) \<times> route_manager" where
  "teardown_tunnel_route (LinuxManager m) tunnel_id =
     (case linux_teardown_tunnel_route m tunnel_id of (res, m) \<Rightarrow> (res, LinuxManager m))"
| "teardown_tunnel_route NoopManager tunnel_id = (noop_teardown_tunnel_route tunnel_id, NoopManager)"

fun active_routes :: "route_manager \<Rightarrow> tunnel_route list" where
  "active_routes (LinuxManager m) = linux_active_routes m"
| "active_routes NoopManager = noop_active_routes"

definition create_route_manager :: "bool \<Rightarrow> route_config \<Rightarrow> route_manager" where
  "create_route_manager on_linux config =
     (if \<not> rc_enabled config then NoopManager
      else if on_linux then LinuxManager (linux_with_base_table (rc_base_table config))
      else NoopManager)"

section \<open>The interface\<close>

datatype route_op = Setup string string | Teardown string

fun apply_op :: "('m \<Rightarrow> string \<Rightarrow> string \<Rightarrow> (error + unit) \<times> 'm) \<Rightarrow> ('m \<Rightarrow> string \<Rightarrow> (error + unit) \<times> 'm) \<Rightarrow>
    'm \<Rightarrow> route_op \<Rightarrow> 'm" where
  "apply_op bring_up teardown m (Setup interface tunnel_id) = snd (bring_up m interface tunnel_id)"
| "apply_op bring_up teardown m (Teardown tunnel_id) = snd (teardown m tunnel_id)"

text \<open>
  What the routes are whatever the platform: a setup adds at most one route, for the tunnel
  and interface asked for, behind the others; a teardown takes exactly the tunnel's routes.
\<close>

locale route_iface =
  fixes bring_up :: "'m \<Rightarrow> string \<Rightarrow> string \<Rightarrow> (error + unit) \<times> 'm"
    and teardown :: "'m \<Rightarrow> string \<Rightarrow> (error + unit) \<times> 'm"
    and active :: "'m \<Rightarrow> tunnel_route list"
  assumes setup_adds:
      "active (snd (bring_up m i t)) = active m \<or>
       (\<exists>r. active (snd (bring_up m i t)) = active m @ [r] \<and> tr_tunnel_id r = t \<and> tr_interface r = i)"
    and teardown_takes: "active (snd (teardown m t)) = filter (\<lambda>r. tr_tunnel_id r \<noteq> t) (active m)"
begin

lemma gone_until_setup:
  "\<lbrakk>\<forall>r \<in> set (active m). tr_tunnel_id r \<noteq> t; \<forall>i. Setup i t \<notin> set ops\<rbrakk> \<Longrightarrow>
   \<forall>r \<in> set (active (foldl (apply_op bring_up teardown) m ops)). tr_tunnel_id r \<noteq> t"
proof (induction ops arbitrary: m)
  case (Cons op ops)
  have "\<forall>r \<in> set (active (apply_op bring_up teardown m op)). tr_tunnel_id r \<noteq> t"
  proof (cases op)
    case (Setup i t')
    then have "t' \<noteq> t" using Cons.prems(2) by auto
    then show ?thesis using setup_adds [of m i t'] Cons.prems(1) by (auto simp: Setup)
  next
    case (Teardown t')
    then show ?thesis using teardown_takes Cons.prems(1) by simp
  qed
  then show ?case using Cons.IH Cons.prems(2) by simp
qed simp

lemma teardown_final:
  "\<forall>i. Setup i t \<notin> set ops \<Longrightarrow>
   t \<notin> tr_tunnel_id ` set (active (foldl (apply_op bring_up teardown) (snd (teardown m t)) ops))"
  using gone_until_setup [of "snd (teardown m t)" t ops] by (auto simp: teardown_takes)

end

lemmas linux_defs = linux_setup_tunnel_route_def linux_teardown_tunnel_route_def linux_active_routes_def

interpretation dyn_routes: route_iface setup_tunnel_route teardown_tunnel_route active_routes
proof
  fix m i t
  show "active_routes (snd (setup_tunnel_route m i t)) = active_routes m \<or>
      (\<exists>r. active_routes (snd (setup_tunnel_route m i t)) = active_routes m @ [r]
         \<and> tr_tunnel_id r = t \<and> tr_interface r = i)"
    by (cases m) (simp_all add: linux_defs Let_def)
  show "active_routes (snd (teardown_tunnel_route m t)) = filter (\<lambda>r. tr_tunnel_id r \<noteq> t) (active_routes m)"
    by (cases m) (simp_all add: linux_defs)
qed

section \<open>Tables\<close>

lemma setups_append:
  "\<not> lr_poisoned m \<Longrightarrow>
   foldl (apply_op setup_tunnel_route teardown_tunnel_route) (LinuxManager m) (map (\<lambda>(i, t). Setup i t) its)
   = LinuxManager (m\<lparr>lr_routes := lr_routes m @
       map (\<lambda>(k, i, t). \<lparr>tr_tunnel_id = t, tr_interface = i,
              tr_routing_table = Some (lr_base_table m + word_of_nat (length (lr_routes m) + k)), tr_namespace = None\<rparr>)
         (enumerate 0 its)\<rparr>)"
proof (induction its rule: rev_induct)
  case (snoc x its)
  obtain i t where x: "x = (i, t)" by (cases x)
  show ?case
    using snoc by (simp add: x linux_setup_tunnel_route_def table_for_offset_def enumerate_append_eq Let_def)
qed simp

section \<open>Properties\<close>

text \<open>
  A tunnel that was torn down stays down: after a teardown and any further setups and
  teardowns that do not set the tunnel up again, on any platform and in any state, no active
  route is the tunnel's.
\<close>

theorem teardown_is_final:
  assumes "\<forall>i. Setup i t \<notin> set ops"
  shows "t \<notin> tr_tunnel_id ` set (active_routes
     (foldl (apply_op setup_tunnel_route teardown_tunnel_route) (snd (teardown_tunnel_route m t)) ops))"
  by (rule dyn_routes.teardown_final [OF assms])

theorem teardown_is_final_witness:
  "''a'' \<notin> tr_tunnel_id ` set (active_routes
     (foldl (apply_op setup_tunnel_route teardown_tunnel_route)
        (snd (teardown_tunnel_route (LinuxManager (snd (linux_setup_tunnel_route linux_new ''wg0'' ''a''))) ''a''))
        [Setup ''wg1'' ''b'', Teardown ''c'']))"
  by (rule teardown_is_final) simp

text \<open>
  Tunnels that are only ever set up are isolated: starting from a fresh manager, at most
  \<open>2^32\<close> setups give every tunnel a routing table of its own, counted up from the base table
  and wrapping at 32 bits.
\<close>

theorem setup_tables_distinct:
  assumes "length its \<le> 2 ^ 32"
  shows "map tr_routing_table (active_routes
       (foldl (apply_op setup_tunnel_route teardown_tunnel_route)
          (create_route_manager True \<lparr>rc_enabled = True, rc_base_table = base, rc_use_namespaces = ns\<rparr>)
          (map (\<lambda>(i, t). Setup i t) its)))
     = map (\<lambda>k. Some (base + word_of_nat k)) [0..<length its]
   \<and> distinct (map (\<lambda>k. Some (base + word_of_nat k)) [0..<length its])"
proof
  have fresh: "create_route_manager True \<lparr>rc_enabled = True, rc_base_table = base, rc_use_namespaces = ns\<rparr>
      = LinuxManager (linux_with_base_table base)" by (simp add: create_route_manager_def)
  show "map tr_routing_table (active_routes
       (foldl (apply_op setup_tunnel_route teardown_tunnel_route)
          (create_route_manager True \<lparr>rc_enabled = True, rc_base_table = base, rc_use_namespaces = ns\<rparr>)
          (map (\<lambda>(i, t). Setup i t) its)))
     = map (\<lambda>k. Some (base + word_of_nat k)) [0..<length its]"
    unfolding fresh using setups_append [of "linux_with_base_table base" its]
    by (simp add: linux_with_base_table_def linux_active_routes_def)
      (rule nth_equalityI, simp_all add: nth_enumerate_eq split: prod.split)
  show "distinct (map (\<lambda>k. Some (base + word_of_nat k)) [0..<length its])"
    using assms by (auto simp: distinct_map inj_on_def word_of_nat_eq_iff take_bit_nat_eq_self_iff [THEN iffD2])
qed

theorem setup_tables_distinct_witness:
  "map tr_routing_table (active_routes
       (foldl (apply_op setup_tunnel_route teardown_tunnel_route)
          (create_route_manager True \<lparr>rc_enabled = True, rc_base_table = 100, rc_use_namespaces = False\<rparr>)
          (map (\<lambda>(i, t). Setup i t) [(''wg0'', ''a''), (''wg1'', ''b'')]))) = [Some 100, Some 101]"
proof -
  have "length [(''wg0'', ''a''), (''wg1'', ''b'')] \<le> 2 ^ 32" by simp
  from setup_tables_distinct [OF this, of 100 False] show ?thesis
    by (simp add: upt_rec numeral_2_eq_2)
qed

lemma active_after_setups:
  "active_routes (foldl (apply_op setup_tunnel_route teardown_tunnel_route) (LinuxManager (linux_with_base_table base))
       (map (\<lambda>(i, t). Setup i t) its))
   = map (\<lambda>(k, i, t). \<lparr>tr_tunnel_id = t, tr_interface = i, tr_routing_table = Some (base + word_of_nat k), tr_namespace = None\<rparr>)
       (enumerate 0 its)"
  using setups_append [of "linux_with_base_table base" its] by (simp add: linux_with_base_table_def linux_active_routes_def)

text \<open>Taking one of several different elements out.\<close>

lemma filter_drop_nth:
  assumes "distinct (map f xs)" "k < length xs"
  shows "filter (\<lambda>x. f x \<noteq> f (xs ! k)) xs = take k xs @ drop (Suc k) xs"
proof -
  have parts: "xs = take k xs @ xs ! k # drop (Suc k) xs" using id_take_nth_drop [OF assms(2)] .
  have "distinct (map f (take k xs @ xs ! k # drop (Suc k) xs))" using assms(1) parts by metis
  then have "f x \<noteq> f (xs ! k)" if "x \<in> set (take k xs) \<or> x \<in> set (drop (Suc k) xs)" for x
    using that by (auto simp: image_iff)
  then show ?thesis by (subst parts) (simp add: filter_id_conv)
qed

text \<open>
  C40. A teardown breaks the isolation, in general. The next table number is the count of
  live routes; so when \<open>n\<close> different tunnels have been set up and the \<open>k\<close>-th of them is torn down,
  the tunnel set up next is given the table of the last of the \<open>n\<close>: a table that a live tunnel
  uses, unless it was the last one that was torn down. This holds for every base table, with the
  wrap-around of the table numbers.
\<close>

theorem teardown_reuses_live_table:
  fixes base :: u32
  assumes "distinct (map snd its)" "k < length its" "length its \<le> 2 ^ 32"
  defines "m \<equiv> foldl (apply_op setup_tunnel_route teardown_tunnel_route) (LinuxManager (linux_with_base_table base))
     (map (\<lambda>(i, t). Setup i t) its @ [Teardown (snd (its ! k))])"
  shows "\<exists>r. active_routes (snd (setup_tunnel_route m i t)) = active_routes m @ [r] \<and> tr_tunnel_id r = t
     \<and> tr_routing_table r = Some (base + word_of_nat (length its - 1))
     \<and> map tr_routing_table (active_routes m) = map (\<lambda>j. Some (base + word_of_nat j)) ([0..<k] @ [Suc k..<length its])
     \<and> (tr_routing_table r \<in> set (map tr_routing_table (active_routes m)) \<longleftrightarrow> Suc k < length its)"
proof -
  let ?rs = "map (\<lambda>(k, i, t). \<lparr>tr_tunnel_id = t, tr_interface = i,
      tr_routing_table = Some (base + word_of_nat k), tr_namespace = None\<rparr>) (enumerate 0 its)"
  let ?m = "foldl (apply_op setup_tunnel_route teardown_tunnel_route) (LinuxManager (linux_with_base_table base))
     (map (\<lambda>(i, t). Setup i t) its)"
  have m: "m = snd (teardown_tunnel_route ?m (snd (its ! k)))" by (simp add: m_def)
  obtain l where l: "?m = LinuxManager l" "\<not> lr_poisoned l" "lr_base_table l = base"
    using setups_append [of "linux_with_base_table base" its] by (simp add: linux_with_base_table_def)
  have rs: "lr_routes l = ?rs" using active_after_setups [of base its] l by (simp add: linux_active_routes_def)
  have ids: "map tr_tunnel_id ?rs = map snd its" and len: "length ?rs = length its"
    by (rule nth_equalityI; simp add: nth_enumerate_eq case_prod_unfold) simp
  have tables: "map tr_routing_table ?rs = map (\<lambda>j. Some (base + word_of_nat j)) [0..<length its]"
    by (rule nth_equalityI) (simp_all add: nth_enumerate_eq case_prod_unfold)
  have "tr_tunnel_id (?rs ! k) = snd (its ! k)" using assms(2) by (simp add: nth_enumerate_eq case_prod_unfold)
  then have left: "filter (\<lambda>r. tr_tunnel_id r \<noteq> snd (its ! k)) ?rs = take k ?rs @ drop (Suc k) ?rs"
    using filter_drop_nth [of tr_tunnel_id ?rs k] assms(1,2) ids len by simp
  have ml: "m = LinuxManager (l\<lparr>lr_routes := take k ?rs @ drop (Suc k) ?rs\<rparr>)"
    unfolding m l(1) using l(2) left by (simp add: linux_teardown_tunnel_route_def rs)
  have n: "length (take k ?rs @ drop (Suc k) ?rs) = length its - 1" using assms(2) by simp
  have live: "map tr_routing_table (active_routes m) = map (\<lambda>j. Some (base + word_of_nat j)) ([0..<k] @ [Suc k..<length its])"
  proof -
    have "map tr_routing_table (active_routes m) = take k (map tr_routing_table ?rs) @ drop (Suc k) (map tr_routing_table ?rs)"
      using l(2) by (simp add: ml linux_active_routes_def take_map drop_map)
    then show ?thesis unfolding tables using assms(2) by (simp add: take_map drop_map)
  qed
  have inj: "base + word_of_nat (length its - 1) = base + word_of_nat j \<longleftrightarrow> j = length its - 1" if "j < length its" for j
  proof -
    have "(word_of_nat a = (word_of_nat j :: u32)) \<longleftrightarrow> j = a" if "a < length its" for a
      using that \<open>j < length its\<close> assms(3) by (auto simp: word_of_nat_eq_iff take_bit_nat_eq_self_iff [THEN iffD2])
    then show ?thesis using that by (simp del: of_nat_diff)
  qed
  have "(\<exists>j \<in> {0..<k} \<union> {Suc k..<length its}. base + word_of_nat (length its - 1) = base + word_of_nat j)
      \<longleftrightarrow> (\<exists>j \<in> {0..<k} \<union> {Suc k..<length its}. j = length its - 1)"
    using assms(2) by (intro bex_cong refl inj) auto
  also have "\<dots> \<longleftrightarrow> Suc k < length its" using assms(2) by auto
  finally have "base + word_of_nat (length its - 1) \<in> (\<lambda>j. base + word_of_nat j) ` ({0..<k} \<union> {Suc k..<length its}) \<longleftrightarrow> Suc k < length its"
    by (simp only: image_iff)
  then have used: "Some (base + word_of_nat (length its - 1)) \<in> set (map tr_routing_table (active_routes m)) \<longleftrightarrow> Suc k < length its"
    unfolding live by (auto simp: image_iff)
  have "active_routes (snd (setup_tunnel_route m i t)) = active_routes m @
      [\<lparr>tr_tunnel_id = t, tr_interface = i, tr_routing_table = Some (base + word_of_nat (length its - 1)), tr_namespace = None\<rparr>]"
    using l(2,3) n by (simp add: ml linux_defs table_for_offset_def Let_def)
  then show ?thesis using live used by simp
qed

theorem teardown_reuses_live_table_witness:
  "\<exists>r. tr_routing_table r = Some 102
     \<and> r \<in> set (active_routes (snd (setup_tunnel_route (foldl (apply_op setup_tunnel_route teardown_tunnel_route)
          (LinuxManager (linux_with_base_table 100))
          [Setup ''wg0'' ''a'', Setup ''wg1'' ''b'', Setup ''wg2'' ''c'', Teardown ''b'']) ''wg3'' ''d'')))
     \<and> tr_tunnel_id r = ''d''
     \<and> Some 102 \<in> set (map tr_routing_table (active_routes (foldl (apply_op setup_tunnel_route teardown_tunnel_route)
          (LinuxManager (linux_with_base_table 100))
          [Setup ''wg0'' ''a'', Setup ''wg1'' ''b'', Setup ''wg2'' ''c'', Teardown ''b''])))"
proof -
  let ?its = "[(''wg0'', ''a''), (''wg1'', ''b''), (''wg2'', ''c'')]"
  have pre: "distinct (map snd ?its)" "1 < length ?its" "length ?its \<le> 2 ^ 32" by simp_all
  let ?m = "foldl (apply_op setup_tunnel_route teardown_tunnel_route) (LinuxManager (linux_with_base_table 100))
          [Setup ''wg0'' ''a'', Setup ''wg1'' ''b'', Setup ''wg2'' ''c'', Teardown ''b'']"
  obtain r where "active_routes (snd (setup_tunnel_route ?m ''wg3'' ''d'')) = active_routes ?m @ [r]" "tr_tunnel_id r = ''d''"
    "tr_routing_table r = Some 102" "tr_routing_table r \<in> set (map tr_routing_table (active_routes ?m))"
    using teardown_reuses_live_table [OF pre, where base = 100 and i = "''wg3''" and t = "''d''"] by (auto simp del: foldl_Cons)
  then show ?thesis by (intro exI [of _ r]) (simp del: foldl_Cons)
qed

end
