(* ===== verification/Anticorr.thy ===== *)
theory Anticorr
  imports Prelude
begin

text \<open>
  The anti-correlation layer (\<open>src/src/anticorr/mod.rs\<close>): timing jitter and packet padding.
  The random number generator is a function of the range it is asked for; durations are in
  milliseconds. The codec contract that padding satisfies is the locale \<open>codec\<close>.
\<close>

unbundle bit_operations_syntax

section \<open>Configuration\<close>

record jitter_config =
  jc_enabled :: bool
  jc_min_ms :: u64
  jc_max_ms :: u64

record padding_config =
  pc_enabled :: bool
  pc_target_size :: usize

record anti_correlation_config =
  ac_jitter :: jitter_config
  ac_padding :: padding_config

definition default_min_ms :: u64 where
  "default_min_ms = 0"

definition default_max_ms :: u64 where
  "default_max_ms = 2000"

definition default_target_size :: usize where
  "default_target_size = 1024"

definition jitter_config_default :: jitter_config where
  "jitter_config_default = \<lparr>jc_enabled = False, jc_min_ms = default_min_ms, jc_max_ms = default_max_ms\<rparr>"

definition padding_config_default :: padding_config where
  "padding_config_default = \<lparr>pc_enabled = False, pc_target_size = default_target_size\<rparr>"

definition anti_correlation_config_default :: anti_correlation_config where
  "anti_correlation_config_default = \<lparr>ac_jitter = jitter_config_default, ac_padding = padding_config_default\<rparr>"

section \<open>Timing jitter\<close>

record timing_jitter =
  tj_max_ms :: u64
  tj_min_ms :: u64
  tj_enabled :: bool

definition jitter_new :: "u64 \<Rightarrow> u64 \<Rightarrow> timing_jitter" where
  "jitter_new min_ms max_ms = \<lparr>tj_max_ms = max_ms, tj_min_ms = min_ms, tj_enabled = True\<rparr>"

definition jitter_disabled :: timing_jitter where
  "jitter_disabled = \<lparr>tj_max_ms = 0, tj_min_ms = 0, tj_enabled = False\<rparr>"

text \<open>\<open>random_range lo hi\<close> draws from the inclusive range; the sleep is its result.\<close>

definition jitter_apply :: "(u64 \<Rightarrow> u64 \<Rightarrow> u64) \<Rightarrow> timing_jitter \<Rightarrow> u64" where
  "jitter_apply random_range j =
     (if \<not> tj_enabled j then 0
      else
        let lo = tj_min_ms j; hi = max (tj_max_ms j) lo in
        if lo = hi then lo else random_range lo hi)"

section \<open>Packet padding\<close>

record packet_padder =
  pp_target_size :: usize
  pp_pad_byte :: u8
  pp_enabled :: bool

definition length_trailer_size :: nat where
  "length_trailer_size = 4"

definition padder_new :: "usize \<Rightarrow> packet_padder" where
  "padder_new target = \<lparr>pp_target_size = target, pp_pad_byte = 0, pp_enabled = True\<rparr>"

definition padder_disabled :: packet_padder where
  "padder_disabled = \<lparr>pp_target_size = 0, pp_pad_byte = 0, pp_enabled = False\<rparr>"

definition to_be_bytes :: "u32 \<Rightarrow> u8 list" where
  "to_be_bytes w = [ucast (drop_bit 24 w), ucast (drop_bit 16 w), ucast (drop_bit 8 w), ucast w]"

definition from_be_bytes :: "u8 \<Rightarrow> u8 \<Rightarrow> u8 \<Rightarrow> u8 \<Rightarrow> u32" where
  "from_be_bytes a b c d =
     push_bit 24 (ucast a) OR push_bit 16 (ucast b) OR push_bit 8 (ucast c) OR ucast d"

definition pad :: "packet_padder \<Rightarrow> u8 list \<Rightarrow> u8 list" where
  "pad p data =
     (if \<not> pp_enabled p then data
      else
        let original_len = length data;
            needed = original_len + length_trailer_size;
            total = (if needed \<ge> unat (pp_target_size p) then needed else unat (pp_target_size p));
            padding_bytes = total - needed
        in data @ replicate padding_bytes (pp_pad_byte p) @ to_be_bytes (word_of_nat original_len))"

definition unpad :: "packet_padder \<Rightarrow> u8 list \<Rightarrow> u8 list" where
  "unpad p data =
     (if \<not> pp_enabled p then data
      else if length data < length_trailer_size then data
      else
        let trailer_start = length data - length_trailer_size;
            original_len = unat (from_be_bytes (data ! trailer_start) (data ! (trailer_start + 1))
                                   (data ! (trailer_start + 2)) (data ! (trailer_start + 3)))
        in if original_len > trailer_start then data else take original_len data)"

section \<open>The layer\<close>

record anti_corr_stats =
  st_jitter_applied :: u64
  st_padding_added :: nat

record anti_correlation_layer =
  al_jitter :: timing_jitter
  al_padder :: packet_padder

definition layer_from_config :: "anti_correlation_config \<Rightarrow> anti_correlation_layer" where
  "layer_from_config config =
     \<lparr>al_jitter = (if jc_enabled (ac_jitter config)
                   then jitter_new (jc_min_ms (ac_jitter config)) (jc_max_ms (ac_jitter config))
                   else jitter_disabled),
      al_padder = (if pc_enabled (ac_padding config)
                   then padder_new (pc_target_size (ac_padding config))
                   else padder_disabled)\<rparr>"

definition layer_disabled :: anti_correlation_layer where
  "layer_disabled = \<lparr>al_jitter = jitter_disabled, al_padder = padder_disabled\<rparr>"

definition pre_request :: "(u64 \<Rightarrow> u64 \<Rightarrow> u64) \<Rightarrow> anti_correlation_layer \<Rightarrow> anti_corr_stats" where
  "pre_request random_range l =
     \<lparr>st_jitter_applied = jitter_apply random_range (al_jitter l), st_padding_added = 0\<rparr>"

definition pad_outgoing :: "anti_correlation_layer \<Rightarrow> u8 list \<Rightarrow> u8 list" where
  "pad_outgoing l data = pad (al_padder l) data"

definition unpad_incoming :: "anti_correlation_layer \<Rightarrow> u8 list \<Rightarrow> u8 list" where
  "unpad_incoming l data = unpad (al_padder l) data"

section \<open>The trailer\<close>

lemma from_to_be_bytes:
  "from_be_bytes (ucast (drop_bit 24 w)) (ucast (drop_bit 16 w)) (ucast (drop_bit 8 w)) (ucast w) = w"
proof (rule bit_word_eqI)
  fix n :: nat
  assume "n < LENGTH(32)"
  then have n: "n < 32" by simp
  consider "n < 8" | "8 \<le> n" "n < 16" | "16 \<le> n" "n < 24" | "24 \<le> n" using n by linarith
  then show "bit (from_be_bytes (ucast (drop_bit 24 w)) (ucast (drop_bit 16 w)) (ucast (drop_bit 8 w)) (ucast w)) n
      = bit w n"
    by cases (use n in \<open>auto simp: from_be_bytes_def bit_simps\<close>)
qed

lemma length_to_be_bytes [simp]: "length (to_be_bytes w) = 4"
  by (simp add: to_be_bytes_def)

lemma pad_enabled:
  assumes "pp_enabled p"
  shows "pad p data = data @ replicate (unat (pp_target_size p) - (length data + 4)) (pp_pad_byte p)
     @ to_be_bytes (word_of_nat (length data))"
  using assms by (simp add: pad_def length_trailer_size_def Let_def)

lemma pad_length:
  assumes "pp_enabled p"
  shows "length (pad p data) = max (unat (pp_target_size p)) (length data + 4)"
  using assms by (simp add: pad_enabled)

lemma unpad_trailer:
  assumes "pp_enabled p"
  shows "unpad p (body @ to_be_bytes w) = (if unat w > length body then body @ to_be_bytes w else take (unat w) body)"
  using assms from_to_be_bytes [of w]
  by (simp add: unpad_def length_trailer_size_def Let_def to_be_bytes_def nth_append)

lemma unat_u32_of_nat: "unat (word_of_nat n :: u32) = n mod 2 ^ 32"
  by (simp add: unsigned_of_nat take_bit_nat_eq_self take_bit_eq_mod)

section \<open>Codecs\<close>

text \<open>A codec decodes what it encoded, on the inputs it accepts, and decoding never invents data.\<close>

locale codec =
  fixes enc :: "'x list \<Rightarrow> 'x list"
    and dec :: "'x list \<Rightarrow> 'x list"
    and accepts :: "'x list \<Rightarrow> bool"
  assumes dec_enc: "accepts x \<Longrightarrow> dec (enc x) = x"
    and dec_prefix: "prefix (dec y) y"
begin

lemma enc_inj: "accepts x \<Longrightarrow> accepts y \<Longrightarrow> enc x = enc y \<Longrightarrow> x = y"
  using dec_enc by metis

lemma enc_longer: "accepts x \<Longrightarrow> length x \<le> length (enc x)"
  using dec_enc [of x] dec_prefix [of "enc x"] by (simp add: prefix_length_le)

end

lemma unpad_prefix: "prefix (unpad p data) data"
  by (simp add: unpad_def Let_def take_is_prefix)

lemma unpad_pad:
  assumes "pp_enabled p"
  shows "unpad p (pad p data) = take (length data mod 2 ^ 32) data"
proof -
  let ?body = "data @ replicate (unat (pp_target_size p) - (length data + 4)) (pp_pad_byte p)"
  have "length data mod 2 ^ 32 \<le> length data" by simp
  then show ?thesis
    using unpad_trailer [OF assms, of ?body "word_of_nat (length data)"]
    by (simp add: pad_enabled [OF assms] unat_u32_of_nat)
qed

interpretation padding: codec "pad p" "unpad p" "\<lambda>data. length data < 2 ^ 32"
proof
  fix x y :: "u8 list"
  show "unpad p (pad p x) = x" if "length x < 2 ^ 32"
    using that unpad_pad [of p x] by (cases "pp_enabled p") (simp_all add: pad_def unpad_def)
  show "prefix (unpad p y) y" by (rule unpad_prefix)
qed

section \<open>Properties\<close>

text \<open>
  C10. What the receiver recovers: whatever the configuration, unpadding a padded message
  gives back its first \<open>length mod 2^32\<close> bytes when padding is on, hence the message itself
  below 4 GiB, and the message itself when padding is off.
\<close>

theorem layer_roundtrip:
  "unpad_incoming (layer_from_config c) (pad_outgoing (layer_from_config c) data) =
     (if pc_enabled (ac_padding c) then take (length data mod 2 ^ 32) data else data)"
proof (cases "pc_enabled (ac_padding c)")
  case True
  then show ?thesis
    using unpad_pad [of "padder_new (pc_target_size (ac_padding c))" data]
    by (simp add: unpad_incoming_def pad_outgoing_def layer_from_config_def padder_new_def)
next
  case False
  then show ?thesis
    by (simp add: unpad_incoming_def pad_outgoing_def layer_from_config_def padder_disabled_def
        pad_def unpad_def)
qed

text \<open>
  C38. Padding hides sizes: two messages that fit the target together with the four byte
  trailer leave with the same length, the target; a longer one leaves with four bytes more
  than it has. Two different messages below 4 GiB never leave as the same packet.
\<close>

theorem padding_hides_size:
  assumes "pc_enabled (ac_padding c)"
  shows "length (pad_outgoing (layer_from_config c) data)
       = (if length data + 4 \<le> unat (pc_target_size (ac_padding c))
          then unat (pc_target_size (ac_padding c)) else length data + 4)
     \<and> (length data < 2 ^ 32 \<and> length data' < 2 ^ 32
          \<and> pad_outgoing (layer_from_config c) data = pad_outgoing (layer_from_config c) data'
          \<longrightarrow> data = data')"
  using assms padding.enc_inj pad_length [of "padder_new (pc_target_size (ac_padding c))" data]
  by (auto simp: pad_outgoing_def layer_from_config_def padder_new_def max_def)

theorem padding_hides_size_witness:
  "length (pad_outgoing (layer_from_config
       \<lparr>ac_jitter = jitter_config_default, ac_padding = \<lparr>pc_enabled = True, pc_target_size = 16\<rparr>\<rparr>) [1, 2, 3]) = 16"
  using padding_hides_size [of "\<lparr>ac_jitter = jitter_config_default,
      ac_padding = \<lparr>pc_enabled = True, pc_target_size = 16\<rparr>\<rparr>" "[1, 2, 3]" "[]"]
  by simp

text \<open>
  The delay applied is zero when jitter is off; when it is on and the generator keeps to
  the range it is asked for, the delay is at least the configured minimum and at most the
  larger of the two bounds, so that inverted bounds give exactly the minimum.
\<close>

theorem jitter_bounds:
  assumes "\<And>lo hi. lo \<le> hi \<Longrightarrow> lo \<le> rng lo hi \<and> rng lo hi \<le> hi"
  shows "(\<not> jc_enabled (ac_jitter c) \<longrightarrow> st_jitter_applied (pre_request rng (layer_from_config c)) = 0)
    \<and> (jc_enabled (ac_jitter c) \<longrightarrow>
         jc_min_ms (ac_jitter c) \<le> st_jitter_applied (pre_request rng (layer_from_config c))
       \<and> st_jitter_applied (pre_request rng (layer_from_config c))
           \<le> max (jc_min_ms (ac_jitter c)) (jc_max_ms (ac_jitter c)))"
  using assms [of "jc_min_ms (ac_jitter c)" "jc_max_ms (ac_jitter c)"]
  by (auto simp: pre_request_def layer_from_config_def jitter_apply_def jitter_new_def
      jitter_disabled_def Let_def max_def)

theorem jitter_bounds_witness:
  "7 \<le> st_jitter_applied (pre_request (\<lambda>lo hi. hi) (layer_from_config
       \<lparr>ac_jitter = \<lparr>jc_enabled = True, jc_min_ms = 7, jc_max_ms = 5\<rparr>, ac_padding = padding_config_default\<rparr>))"
  using jitter_bounds [of "\<lambda>lo hi. hi" "\<lparr>ac_jitter = \<lparr>jc_enabled = True, jc_min_ms = 7, jc_max_ms = 5\<rparr>,
      ac_padding = padding_config_default\<rparr>"] by simp

end
