(* ===== verification/Library_Config.thy ===== *)
theory Library_Config
  imports Config_File Route Anticorr
begin

text \<open>
  The configuration types of the library modules, as their derived \<open>Deserialize\<close> instances read
  them (\<open>RouteConfig\<close> in \<open>src/src/route/mod.rs\<close>, \<open>AntiCorrelationConfig\<close> in
  \<open>src/src/anticorr/mod.rs\<close>): every field has a default, a value of another type or out of range
  is rejected, unknown keys are ignored. A document is its entries and tables, as the TOML
  reader delivers them.
\<close>

definition default_bool :: "string \<Rightarrow> bool \<Rightarrow> (string \<times> toml_value) list \<Rightarrow> bool option" where
  "default_bool key d kvs = (case map_of kvs key of None \<Rightarrow> Some d | Some (TBool b) \<Rightarrow> Some b | _ \<Rightarrow> None)"

definition default_word :: "string \<Rightarrow> 'n::len word \<Rightarrow> (string \<times> toml_value) list \<Rightarrow> 'n word option" where
  "default_word key d kvs =
     (case map_of kvs key of
        None \<Rightarrow> Some d
      | Some (TInt n) \<Rightarrow> if n < 2 ^ LENGTH('n) then Some (word_of_nat n) else None
      | _ \<Rightarrow> None)"

definition decode_route_config :: "(string \<times> toml_value) list \<Rightarrow> route_config option" where
  "decode_route_config kvs = do {
     enabled \<leftarrow> default_bool ''enabled'' False kvs;
     base_table \<leftarrow> default_word ''base_table'' default_base_table kvs;
     use_namespaces \<leftarrow> default_bool ''use_namespaces'' False kvs;
     Some \<lparr>rc_enabled = enabled, rc_base_table = base_table, rc_use_namespaces = use_namespaces\<rparr>
   }"

definition decode_jitter :: "(string \<times> toml_value) list \<Rightarrow> jitter_config option" where
  "decode_jitter kvs = do {
     enabled \<leftarrow> default_bool ''enabled'' False kvs;
     min_ms \<leftarrow> default_word ''min_ms'' default_min_ms kvs;
     max_ms \<leftarrow> default_word ''max_ms'' default_max_ms kvs;
     Some \<lparr>jc_enabled = enabled, jc_min_ms = min_ms, jc_max_ms = max_ms\<rparr>
   }"

definition decode_padding :: "(string \<times> toml_value) list \<Rightarrow> padding_config option" where
  "decode_padding kvs = do {
     enabled \<leftarrow> default_bool ''enabled'' False kvs;
     target_size \<leftarrow> default_word ''target_size'' default_target_size kvs;
     Some \<lparr>pc_enabled = enabled, pc_target_size = target_size\<rparr>
   }"

definition decode_anti_correlation ::
  "(header \<times> (string \<times> toml_value) list) list \<Rightarrow> anti_correlation_config option" where
  "decode_anti_correlation secs = do {
     jitter \<leftarrow> (case tables_of (Table ''jitter'') secs of [] \<Rightarrow> Some jitter_config_default | kvs # _ \<Rightarrow> decode_jitter kvs);
     padding \<leftarrow> (case tables_of (Table ''padding'') secs of [] \<Rightarrow> Some padding_config_default | kvs # _ \<Rightarrow> decode_padding kvs);
     Some \<lparr>ac_jitter = jitter, ac_padding = padding\<rparr>
   }"

lemmas library_decoders = decode_route_config_def decode_jitter_def decode_padding_def decode_anti_correlation_def
  default_bool_def default_word_def tables_of_def

section \<open>An empty document is the default\<close>

lemma decode_defaults:
  "decode_route_config [] = Some route_config_default" "decode_jitter [] = Some jitter_config_default"
  "decode_padding [] = Some padding_config_default" "decode_anti_correlation [] = Some anti_correlation_config_default"
  by (simp_all add: library_decoders route_config_default_def jitter_config_default_def padding_config_default_def
      anti_correlation_config_default_def)

end
