(* ===== verification/Conformance_Library.thy ===== *)
theory Conformance_Library
  imports Payment_402 Relay Library_Config
begin

text \<open>
  The unit tests of the library modules beside the request path (the \<open>tests\<close> modules of
  \<open>src/src/payment/mod.rs\<close>, \<open>src/src/route/mod.rs\<close>, \<open>src/src/anticorr/mod.rs\<close> and
  \<open>src/src/relay/mod.rs\<close>) as statements about the model: each
  \<open>test_\<close> definition is the test of that name, with its fixture and its assertions, and the
  model passes it. What a test draws at random is an argument, and the test passes for every
  value of it.
\<close>

section \<open>Payment\<close>

definition api_request :: payment_request where
  "api_request =
     \<lparr>pr_url = ''https://api.example.com/resource'', pr_amount = None, pr_currency = None, pr_pay_to = None,
      pr_network = None, pr_headers = [], pr_body = None\<rparr>"

definition test_dummy_can_handle_returns_true_for_anything :: "u8 list \<Rightarrow> bool" where
  "test_dummy_can_handle_returns_true_for_anything bytes =
     (let handler = dummy_payment_handler bytes in can_handle handler api_request)"

definition test_dummy_pay_returns_valid_proof :: "u8 list \<Rightarrow> bool" where
  "test_dummy_pay_returns_valid_proof bytes =
     (let handler = dummy_payment_handler bytes;
          request = api_request\<lparr>pr_amount := Some ''100'', pr_currency := Some ''USD'', pr_pay_to := Some ''addr_123''\<rparr> in
      case pay handler request of
        Inr proof \<Rightarrow> header_name proof = ''X-Payment-Proof'' \<and> starts_with (header_value proof) ''dummy-proof-''
          \<and> (case strip_prefix ''dummy-proof-'' (header_value proof) of Some hex_part \<Rightarrow> length hex_part = 32 | None \<Rightarrow> False)
      | Inl _ \<Rightarrow> False)"

definition test_dummy_name :: "u8 list \<Rightarrow> bool" where
  "test_dummy_name bytes = (handler_name (dummy_payment_handler bytes) = ''dummy'')"

definition test_x402_can_handle_with_network_field :: bool where
  "test_x402_can_handle_with_network_field =
     can_handle x402_payment_handler (api_request\<lparr>pr_network := Some ''x402''\<rparr>)"

definition test_x402_can_handle_with_x402_headers :: bool where
  "test_x402_can_handle_with_x402_headers =
     can_handle x402_payment_handler (api_request\<lparr>pr_headers := [(''X-402-Payment-Required'', ''true'')]\<rparr>)"

definition test_x402_cannot_handle_generic_request :: bool where
  "test_x402_cannot_handle_generic_request =
     (\<not> can_handle x402_payment_handler
          (api_request\<lparr>pr_amount := Some ''100'', pr_currency := Some ''USD'',
             pr_headers := [(''X-Payment-Amount'', ''100''), (''X-Payment-Currency'', ''USD'')]\<rparr>))"

definition test_x402_pay_returns_not_implemented_error :: bool where
  "test_x402_pay_returns_not_implemented_error =
     (case pay x402_payment_handler (api_request\<lparr>pr_network := Some ''x402''\<rparr>) of
        Inl err \<Rightarrow> str_contains ''not yet implemented'' (error_display err)
      | Inr _ \<Rightarrow> False)"

definition test_x402_name :: bool where
  "test_x402_name = (handler_name x402_payment_handler = ''x402'')"

definition test_interceptor_with_dummy_handler_processes_payment :: "u8 list \<Rightarrow> bool" where
  "test_interceptor_with_dummy_handler_processes_payment bytes =
     (let interceptor = add_handler interceptor_new (dummy_payment_handler bytes) in
      case handle_payment interceptor (api_request\<lparr>pr_amount := Some ''50'', pr_currency := Some ''USD''\<rparr>) of
        Inr proof \<Rightarrow> header_name proof = ''X-Payment-Proof'' \<and> starts_with (header_value proof) ''dummy-proof-''
      | Inl _ \<Rightarrow> False)"

definition test_interceptor_with_no_handlers_returns_error :: bool where
  "test_interceptor_with_no_handlers_returns_error =
     (case handle_payment interceptor_new api_request of
        Inl err \<Rightarrow> str_contains ''no payment handler available'' (error_display err)
      | Inr _ \<Rightarrow> False)"

definition test_interceptor_picks_first_matching_handler :: "u8 list \<Rightarrow> bool" where
  "test_interceptor_picks_first_matching_handler bytes =
     (let interceptor = add_handler (add_handler interceptor_new x402_payment_handler) (dummy_payment_handler bytes) in
      case handle_payment interceptor api_request of
        Inr proof \<Rightarrow> starts_with (header_value proof) ''dummy-proof-''
      | Inl _ \<Rightarrow> False)"

definition test_interceptor_x402_handler_returns_error_for_x402_request :: "u8 list \<Rightarrow> bool" where
  "test_interceptor_x402_handler_returns_error_for_x402_request bytes =
     (let interceptor = add_handler (add_handler interceptor_new x402_payment_handler) (dummy_payment_handler bytes) in
      isl (handle_payment interceptor (api_request\<lparr>pr_network := Some ''x402''\<rparr>)))"

abbreviation data_url :: string where
  "data_url \<equiv> ''https://api.example.com/data''"

definition test_parse_402_extracts_payment_details_from_headers :: bool where
  "test_parse_402_extracts_payment_details_from_headers =
     (let headers = [(''X-Payment-Amount'', ''100''), (''X-Payment-Currency'', ''USDC''),
            (''X-Payment-Address'', ''0xabc123''), (''X-Payment-Network'', ''ethereum'')] in
      case parse_402 402 headers (Some ''payment required'') data_url of
        Some req \<Rightarrow> pr_url req = data_url \<and> pr_amount req = Some ''100'' \<and> pr_currency req = Some ''USDC''
          \<and> pr_pay_to req = Some ''0xabc123'' \<and> pr_network req = Some ''ethereum''
          \<and> pr_body req = Some ''payment required'' \<and> length (pr_headers req) = 4
      | None \<Rightarrow> False)"

definition test_parse_402_returns_none_for_non_402 :: bool where
  "test_parse_402_returns_none_for_non_402 =
     (let headers = [(''X-Payment-Amount'', ''100'')] in
      parse_402 200 headers None data_url = None \<and> parse_402 404 headers None data_url = None
      \<and> parse_402 500 headers None data_url = None)"

definition test_parse_402_detects_x402_network_from_headers :: bool where
  "test_parse_402_detects_x402_network_from_headers =
     (map_option pr_network (parse_402 402 [(''X-402-Version'', ''1.0'')] None data_url) = Some (Some ''x402''))"

definition test_parse_402_detects_l402_from_www_authenticate :: bool where
  "test_parse_402_detects_l402_from_www_authenticate =
     (map_option pr_network
        (parse_402 402 [(''WWW-Authenticate'', ''L402 macaroon=abc invoice=xyz'')] None data_url) = Some (Some ''l402''))"

definition test_parse_402_with_empty_headers_and_no_body :: bool where
  "test_parse_402_with_empty_headers_and_no_body =
     (case parse_402 402 [] None data_url of
        Some req \<Rightarrow> pr_url req = data_url \<and> pr_amount req = None \<and> pr_currency req = None \<and> pr_pay_to req = None
          \<and> pr_network req = None \<and> pr_body req = None
      | None \<Rightarrow> False)"

definition test_parse_402_explicit_network_takes_precedence_over_header_detection :: bool where
  "test_parse_402_explicit_network_takes_precedence_over_header_detection =
     (map_option pr_network
        (parse_402 402 [(''X-Payment-Network'', ''lightning''), (''X-402-Version'', ''1.0'')] None data_url)
      = Some (Some ''lightning''))"

definition test_interceptor_default_max_retries :: bool where
  "test_interceptor_default_max_retries = (max_retries interceptor_new = 3)"

lemmas payment_eval = api_request_def dummy_payment_handler_def dummy_pay_def x402_payment_handler_def x402_can_handle_def
  interceptor_new_def add_handler_def handle_payment_def parse_402_def header_step_def match_key_def
  ascii_lower_def max_retries_def char_of_def bit_Suc_0_iff Let_def

lemma hex2_length: "length (concat (map hex2 bytes)) = 2 * length bytes"
  by (induction bytes) (simp_all add: hex2_def)

lemma dummy_handler_tests:
  assumes "length bytes = 16"
  shows "test_dummy_can_handle_returns_true_for_anything bytes" "test_dummy_pay_returns_valid_proof bytes"
    "test_dummy_name bytes" "test_interceptor_with_dummy_handler_processes_payment bytes"
    "test_interceptor_picks_first_matching_handler bytes"
    "test_interceptor_x402_handler_returns_error_for_x402_request bytes"
  using assms
  by (simp_all add: payment_eval hex2_length test_dummy_can_handle_returns_true_for_anything_def
      test_dummy_pay_returns_valid_proof_def test_dummy_name_def test_interceptor_with_dummy_handler_processes_payment_def
      test_interceptor_picks_first_matching_handler_def test_interceptor_x402_handler_returns_error_for_x402_request_def)

lemma x402_handler_tests:
  "test_x402_can_handle_with_network_field" "test_x402_can_handle_with_x402_headers"
  "test_x402_cannot_handle_generic_request" "test_x402_pay_returns_not_implemented_error" "test_x402_name"
  "test_interceptor_with_no_handlers_returns_error" "test_interceptor_default_max_retries"
  by (simp_all add: payment_eval test_x402_can_handle_with_network_field_def test_x402_can_handle_with_x402_headers_def
      test_x402_cannot_handle_generic_request_def test_x402_pay_returns_not_implemented_error_def test_x402_name_def
      test_interceptor_with_no_handlers_returns_error_def test_interceptor_default_max_retries_def)

lemma parse_402_tests:
  "test_parse_402_extracts_payment_details_from_headers" "test_parse_402_returns_none_for_non_402"
  "test_parse_402_detects_x402_network_from_headers" "test_parse_402_detects_l402_from_www_authenticate"
  "test_parse_402_with_empty_headers_and_no_body"
  "test_parse_402_explicit_network_takes_precedence_over_header_detection"
  by (simp_all add: payment_eval test_parse_402_extracts_payment_details_from_headers_def
      test_parse_402_returns_none_for_non_402_def test_parse_402_detects_x402_network_from_headers_def
      test_parse_402_detects_l402_from_www_authenticate_def test_parse_402_with_empty_headers_and_no_body_def
      test_parse_402_explicit_network_takes_precedence_over_header_detection_def)

section \<open>Routes\<close>

definition test_noop_setup_succeeds_silently :: bool where
  "test_noop_setup_succeeds_silently = (fst (setup_tunnel_route NoopManager ''utun3'' ''tunnel-a'') = Inr ())"

definition test_noop_teardown_succeeds_silently :: bool where
  "test_noop_teardown_succeeds_silently = (fst (teardown_tunnel_route NoopManager ''tunnel-a'') = Inr ())"

definition test_noop_active_routes_empty :: bool where
  "test_noop_active_routes_empty = (active_routes NoopManager = [])"

definition test_noop_full_lifecycle :: bool where
  "test_noop_full_lifecycle =
     (case setup_tunnel_route NoopManager ''wg0'' ''t1'' of
        (r1, m) \<Rightarrow> (case setup_tunnel_route m ''wg1'' ''t2'' of
          (r2, m) \<Rightarrow> active_routes m = []
            \<and> (case teardown_tunnel_route m ''t1'' of
                 (r3, m) \<Rightarrow> r1 = Inr () \<and> r2 = Inr () \<and> r3 = Inr () \<and> fst (teardown_tunnel_route m ''t2'') = Inr ())))"

definition test_config_default_values :: bool where
  "test_config_default_values =
     (let config = route_config_default in \<not> rc_enabled config \<and> rc_base_table config = 100 \<and> \<not> rc_use_namespaces config)"

definition test_linux_generate_setup_commands_correct :: bool where
  "test_linux_generate_setup_commands_correct =
     (generate_setup_commands ''wg0'' ''10.0.1.1'' 100 1 =
        [''ip route add default via 10.0.1.1 dev wg0 table 100'', ''ip rule add fwmark 1 table 100''])"

definition test_linux_generate_teardown_commands_correct :: bool where
  "test_linux_generate_teardown_commands_correct =
     (generate_teardown_commands 100 1 = [''ip rule del fwmark 1 table 100'', ''ip route del default table 100''])"

definition test_linux_setup_with_different_params :: bool where
  "test_linux_setup_with_different_params =
     (let cmds = generate_setup_commands ''wg1'' ''10.0.2.1'' 200 2 in
      cmds ! 0 = ''ip route add default via 10.0.2.1 dev wg1 table 200'' \<and> cmds ! 1 = ''ip rule add fwmark 2 table 200'')"

text \<open>The manager after the two set-ups of the tests, with their results.\<close>

definition two_routes :: "(error + unit) \<times> (error + unit) \<times> linux_route_manager" where
  "two_routes =
     (case linux_setup_tunnel_route linux_new ''wg0'' ''tunnel-a'' of
        (r1, m) \<Rightarrow> (case linux_setup_tunnel_route m ''wg1'' ''tunnel-b'' of (r2, m) \<Rightarrow> (r1, r2, m)))"

definition test_linux_tracks_active_routes :: bool where
  "test_linux_tracks_active_routes =
     (case two_routes of
        (r1, r2, m) \<Rightarrow> r1 = Inr () \<and> r2 = Inr ()
          \<and> (let routes = linux_active_routes m in
             length routes = 2
             \<and> tr_tunnel_id (routes ! 0) = ''tunnel-a'' \<and> tr_interface (routes ! 0) = ''wg0''
             \<and> tr_routing_table (routes ! 0) = Some 100
             \<and> tr_tunnel_id (routes ! 1) = ''tunnel-b'' \<and> tr_interface (routes ! 1) = ''wg1''
             \<and> tr_routing_table (routes ! 1) = Some 101))"

definition test_linux_teardown_removes_route :: bool where
  "test_linux_teardown_removes_route =
     (case two_routes of
        (r1, r2, m) \<Rightarrow> (case linux_teardown_tunnel_route m ''tunnel-a'' of
          (r3, m) \<Rightarrow> r3 = Inr () \<and> (let routes = linux_active_routes m in
             length routes = 1 \<and> tr_tunnel_id (routes ! 0) = ''tunnel-b'')))"

definition test_linux_teardown_nonexistent_is_noop :: bool where
  "test_linux_teardown_nonexistent_is_noop =
     (case linux_setup_tunnel_route linux_new ''wg0'' ''tunnel-a'' of
        (r1, m) \<Rightarrow> (case linux_teardown_tunnel_route m ''does-not-exist'' of
          (r2, m) \<Rightarrow> r1 = Inr () \<and> r2 = Inr () \<and> length (linux_active_routes m) = 1))"

definition test_linux_default_base_table :: bool where
  "test_linux_default_base_table = (base_table linux_new = 100)"

definition test_linux_custom_base_table :: bool where
  "test_linux_custom_base_table = (base_table (linux_with_base_table 500) = 500)"

definition test_namespace_generate_create_commands :: bool where
  "test_namespace_generate_create_commands =
     (generate_create_commands ''ns_tunnel_a'' ''wg0'' =
        [''ip netns add ns_tunnel_a'', ''ip link set wg0 netns ns_tunnel_a'',
         ''ip netns exec ns_tunnel_a ip link set wg0 up''])"

definition test_namespace_generate_delete_commands :: bool where
  "test_namespace_generate_delete_commands = (generate_delete_commands ''ns_tunnel_a'' = [''ip netns del ns_tunnel_a''])"

definition test_namespace_create_with_different_names :: bool where
  "test_namespace_create_with_different_names =
     (let cmds = generate_create_commands ''houdinny_tunnel_b'' ''wg1'' in
      cmds ! 0 = ''ip netns add houdinny_tunnel_b'' \<and> cmds ! 1 = ''ip link set wg1 netns houdinny_tunnel_b''
      \<and> cmds ! 2 = ''ip netns exec houdinny_tunnel_b ip link set wg1 up'')"

definition test_create_route_manager_disabled :: "bool \<Rightarrow> bool" where
  "test_create_route_manager_disabled on_linux =
     (let config = route_config_default\<lparr>rc_enabled := False\<rparr>;
          mgr = create_route_manager on_linux config in
      active_routes mgr = []
      \<and> (case setup_tunnel_route mgr ''wg0'' ''t1'' of (r, mgr) \<Rightarrow> r = Inr () \<and> active_routes mgr = []))"

definition test_create_route_manager_enabled_non_linux :: bool where
  "test_create_route_manager_enabled_non_linux =
     (let config = \<lparr>rc_enabled = True, rc_base_table = 200, rc_use_namespaces = False\<rparr>;
          mgr = create_route_manager False config in
      case setup_tunnel_route mgr ''wg0'' ''t1'' of (r, mgr) \<Rightarrow> r = Inr () \<and> active_routes mgr = [])"

lemmas route_eval = route_config_default_def default_base_table_def linux_new_def linux_with_base_table_def base_table_def
  linux_setup_tunnel_route_def linux_teardown_tunnel_route_def linux_active_routes_def table_for_offset_def
  create_route_manager_def generate_setup_commands_def generate_teardown_commands_def generate_create_commands_def
  generate_delete_commands_def two_routes_def show_nat.simps digit_char_def char_of_def bit_Suc_0_iff Let_def

lemma noop_manager_tests:
  "test_noop_setup_succeeds_silently" "test_noop_teardown_succeeds_silently" "test_noop_active_routes_empty"
  "test_noop_full_lifecycle" "test_create_route_manager_disabled on_linux"
  "test_create_route_manager_enabled_non_linux" "test_config_default_values"
  by (simp_all add: route_eval test_noop_setup_succeeds_silently_def test_noop_teardown_succeeds_silently_def
      test_noop_active_routes_empty_def test_noop_full_lifecycle_def test_create_route_manager_disabled_def
      test_create_route_manager_enabled_non_linux_def test_config_default_values_def)

lemma linux_manager_tests:
  "test_linux_tracks_active_routes" "test_linux_teardown_removes_route" "test_linux_teardown_nonexistent_is_noop"
  "test_linux_default_base_table" "test_linux_custom_base_table"
  by (simp_all add: route_eval test_linux_tracks_active_routes_def test_linux_teardown_removes_route_def
      test_linux_teardown_nonexistent_is_noop_def test_linux_default_base_table_def test_linux_custom_base_table_def)

lemma route_command_tests:
  "test_linux_generate_setup_commands_correct" "test_linux_generate_teardown_commands_correct"
  "test_linux_setup_with_different_params" "test_namespace_generate_create_commands"
  "test_namespace_generate_delete_commands" "test_namespace_create_with_different_names"
  by (simp_all add: route_eval test_linux_generate_setup_commands_correct_def test_linux_generate_teardown_commands_correct_def
      test_linux_setup_with_different_params_def test_namespace_generate_create_commands_def
      test_namespace_generate_delete_commands_def test_namespace_create_with_different_names_def)

section \<open>Anti-correlation\<close>

text \<open>A generator that draws from the range it is given.\<close>

definition in_range :: "(u64 \<Rightarrow> u64 \<Rightarrow> u64) \<Rightarrow> bool" where
  "in_range random_range = (\<forall>lo hi. lo \<le> hi \<longrightarrow> lo \<le> random_range lo hi \<and> random_range lo hi \<le> hi)"

definition test_jitter_applies_delay_within_range :: "(u64 \<Rightarrow> u64 \<Rightarrow> u64) \<Rightarrow> bool" where
  "test_jitter_applies_delay_within_range random_range =
     (let delay = jitter_apply random_range (jitter_new 10 50) in 10 \<le> delay \<and> delay \<le> 50)"

definition test_jitter_disabled_returns_zero :: "(u64 \<Rightarrow> u64 \<Rightarrow> u64) \<Rightarrow> bool" where
  "test_jitter_disabled_returns_zero random_range = (jitter_apply random_range jitter_disabled = 0)"

definition test_jitter_equal_min_max :: "(u64 \<Rightarrow> u64 \<Rightarrow> u64) \<Rightarrow> bool" where
  "test_jitter_equal_min_max random_range = (jitter_apply random_range (jitter_new 25 25) = 25)"

definition test_jitter_min_greater_than_max_clamps :: "(u64 \<Rightarrow> u64 \<Rightarrow> u64) \<Rightarrow> bool" where
  "test_jitter_min_greater_than_max_clamps random_range = (jitter_apply random_range (jitter_new 100 50) = 100)"

definition bytes_of :: "string \<Rightarrow> u8 list" where
  "bytes_of s = map of_char s"

definition test_padder_pads_short_data_to_target :: bool where
  "test_padder_pads_short_data_to_target =
     (let padded = pad (padder_new 64) (bytes_of ''hello'') in
      length padded = 64 \<and> take 5 padded = bytes_of ''hello'')"

definition test_padder_does_not_shrink_large_data :: bool where
  "test_padder_does_not_shrink_large_data =
     (let data = replicate 100 0xAA; padded = pad (padder_new 16) data in length padded = 104 \<and> take 100 padded = data)"

definition test_padder_unpad_strips_padding :: bool where
  "test_padder_unpad_strips_padding =
     (let padder = padder_new 128; padded = pad padder (bytes_of ''secret agent data'') in
      length padded = 128 \<and> unpad padder padded = bytes_of ''secret agent data'')"

definition test_padder_round_trip_large_data :: bool where
  "test_padder_round_trip_large_data =
     (let padder = padder_new 32; original = replicate 256 0x42 in unpad padder (pad padder original) = original)"

definition test_padder_disabled_returns_unchanged :: bool where
  "test_padder_disabled_returns_unchanged =
     (let data = bytes_of ''no padding please'' in pad padder_disabled data = data \<and> unpad padder_disabled data = data)"

definition test_padder_unpad_short_data_returns_unchanged :: bool where
  "test_padder_unpad_short_data_returns_unchanged = (unpad (padder_new 128) [1, 2, 3] = [1, 2, 3])"

definition test_padder_unpad_malformed_trailer_returns_raw :: bool where
  "test_padder_unpad_malformed_trailer_returns_raw =
     (let bad = replicate 10 0 @ to_be_bytes 255 in length (unpad (padder_new 128) bad) = length bad)"

definition test_layer_from_config_disabled :: "(u64 \<Rightarrow> u64 \<Rightarrow> u64) \<Rightarrow> bool" where
  "test_layer_from_config_disabled random_range =
     (let layer = layer_from_config anti_correlation_config_default; data = bytes_of ''test data'' in
      st_jitter_applied (pre_request random_range layer) = 0 \<and> pad_outgoing layer data = data \<and> unpad_incoming layer data = data)"

definition test_layer_from_config_enabled :: "(u64 \<Rightarrow> u64 \<Rightarrow> u64) \<Rightarrow> bool" where
  "test_layer_from_config_enabled random_range =
     (let config = \<lparr>ac_jitter = \<lparr>jc_enabled = True, jc_min_ms = 5, jc_max_ms = 20\<rparr>,
                     ac_padding = \<lparr>pc_enabled = True, pc_target_size = 256\<rparr>\<rparr>;
          layer = layer_from_config config;
          stats = pre_request random_range layer;
          padded = pad_outgoing layer (bytes_of ''payload'') in
      5 \<le> st_jitter_applied stats \<and> st_jitter_applied stats \<le> 20 \<and> length padded = 256
      \<and> unpad_incoming layer padded = bytes_of ''payload'')"

definition test_layer_disabled_constructor :: "(u64 \<Rightarrow> u64 \<Rightarrow> u64) \<Rightarrow> bool" where
  "test_layer_disabled_constructor random_range =
     (let stats = pre_request random_range layer_disabled in st_jitter_applied stats = 0 \<and> st_padding_added stats = 0)"

definition test_jitter_config_default :: bool where
  "test_jitter_config_default =
     (let jc = jitter_config_default in \<not> jc_enabled jc \<and> jc_min_ms jc = 0 \<and> jc_max_ms jc = 2000)"

definition test_padding_config_default :: bool where
  "test_padding_config_default = (let pc = padding_config_default in \<not> pc_enabled pc \<and> pc_target_size pc = 1024)"

lemmas jitter_eval = jitter_apply_def jitter_new_def jitter_disabled_def jitter_config_default_def
  padding_config_default_def default_min_ms_def default_max_ms_def default_target_size_def pre_request_def
  layer_from_config_def layer_disabled_def anti_correlation_config_default_def Let_def

lemmas padder_eval = pad_def unpad_def padder_new_def padder_disabled_def length_trailer_size_def pad_outgoing_def
  unpad_incoming_def bytes_of_def Let_def

lemma jitter_tests:
  assumes "in_range random_range"
  shows "test_jitter_applies_delay_within_range random_range" "test_jitter_disabled_returns_zero random_range"
    "test_jitter_equal_min_max random_range" "test_jitter_min_greater_than_max_clamps random_range"
    "test_layer_disabled_constructor random_range" "test_layer_from_config_disabled random_range"
    "test_jitter_config_default" "test_padding_config_default"
  using assms
  by (simp_all add: in_range_def jitter_eval padder_eval max_def test_jitter_applies_delay_within_range_def
      test_jitter_disabled_returns_zero_def test_jitter_equal_min_max_def test_jitter_min_greater_than_max_clamps_def
      test_layer_disabled_constructor_def test_layer_from_config_disabled_def test_jitter_config_default_def
      test_padding_config_default_def)

lemma padder_tests:
  "test_padder_pads_short_data_to_target" "test_padder_does_not_shrink_large_data"
  "test_padder_disabled_returns_unchanged" "test_padder_unpad_short_data_returns_unchanged"
  by (simp_all add: padder_eval test_padder_pads_short_data_to_target_def test_padder_does_not_shrink_large_data_def
      test_padder_disabled_returns_unchanged_def test_padder_unpad_short_data_returns_unchanged_def)

lemma padder_round_trip_tests:
  "test_padder_unpad_strips_padding" "test_padder_round_trip_large_data"
  "test_padder_unpad_malformed_trailer_returns_raw"
proof -
  have on: "pp_enabled (padder_new n)" for n by (simp add: padder_new_def)
  have size: "unat (pp_target_size (padder_new 128)) = 128" by (simp add: padder_new_def)
  note laws = unpad_pad [OF on] pad_length [OF on] unpad_trailer [OF on]
  show "test_padder_unpad_strips_padding"
    by (simp add: test_padder_unpad_strips_padding_def laws size bytes_of_def Let_def)
  show "test_padder_round_trip_large_data"
    by (simp add: test_padder_round_trip_large_data_def laws Let_def)
  show "test_padder_unpad_malformed_trailer_returns_raw"
    by (simp add: test_padder_unpad_malformed_trailer_returns_raw_def laws Let_def)
qed

lemma layer_enabled_test:
  assumes "in_range random_range"
  shows "test_layer_from_config_enabled random_range"
proof -
  have on: "pp_enabled (padder_new n)" for n by (simp add: padder_new_def)
  have size: "unat (pp_target_size (padder_new 256)) = 256" by (simp add: padder_new_def)
  show ?thesis
    using assms
    by (simp add: test_layer_from_config_enabled_def in_range_def jitter_eval pad_outgoing_def unpad_incoming_def
        unpad_pad [OF on] pad_length [OF on] size bytes_of_def max_def)
qed

section \<open>Relays\<close>

text \<open>
  A test drives a relay through its two ends: what it writes at an end is delivered by a read
  of the relay, and dropping an end is a read of length zero. When both ends are dropped, the
  relay may see either first: \<open>agent_first\<close>.
\<close>

abbreviation agent_sends :: "string \<Rightarrow> relay_event" where
  "agent_sends s \<equiv> Agent_read (Inr (bytes_of s)) Written"

abbreviation server_sends :: "string \<Rightarrow> relay_event" where
  "server_sends s \<equiv> Server_read (Inr (bytes_of s)) Written"

abbreviation agent_drops :: relay_event where
  "agent_drops \<equiv> Agent_read (Inr []) Written"

abbreviation server_drops :: relay_event where
  "server_drops \<equiv> Server_read (Inr []) Written"

definition test_relay_stream_bidirectional :: "bool \<Rightarrow> nat \<Rightarrow> nat \<Rightarrow> bool" where
  "test_relay_stream_bidirectional agent_first start finish =
     (case relay relay_stream_new start finish [agent_sends ''hello from agent'', server_sends ''hello from server'',
          if agent_first then agent_drops else server_drops] of
        Some (stats, r) \<Rightarrow> rs_server r = bytes_of ''hello from agent'' \<and> rs_agent_writer r = bytes_of ''hello from server''
          \<and> bytes_up stats = 16 \<and> bytes_down stats = 17
      | None \<Rightarrow> False)"

definition test_relay_stream_server_disconnect :: "nat \<Rightarrow> nat \<Rightarrow> bool" where
  "test_relay_stream_server_disconnect start finish =
     (case relay relay_stream_new start finish [server_drops] of
        Some (stats, r) \<Rightarrow> bytes_up stats = 0 \<and> bytes_down stats = 0
      | None \<Rightarrow> False)"

definition test_relay_stream_agent_disconnect :: "nat \<Rightarrow> nat \<Rightarrow> bool" where
  "test_relay_stream_agent_disconnect start finish =
     (case relay relay_stream_new start finish [agent_drops] of
        Some (stats, r) \<Rightarrow> bytes_up stats = 0 \<and> bytes_down stats = 0
      | None \<Rightarrow> False)"

definition test_relay_stats_reports_correct_counts :: "bool \<Rightarrow> nat \<Rightarrow> nat \<Rightarrow> bool" where
  "test_relay_stats_reports_correct_counts agent_first start finish =
     (case relay relay_stream_new start finish [agent_sends ''exactly twenty!!!'', server_sends ''twelve bytes'',
          if agent_first then agent_drops else server_drops] of
        Some (stats, r) \<Rightarrow> bytes_up stats = 17 \<and> bytes_down stats = 12 \<and> duration stats > 0
      | None \<Rightarrow> False)"

definition test_buffered_relay_basic_bidirectional :: "write_end \<Rightarrow> nat \<Rightarrow> nat \<Rightarrow> bool" where
  "test_buffered_relay_basic_bidirectional flush start finish =
     (let r = buffered_relay_new in
      agent_alive r
      \<and> (case relay_through r flush [agent_sends ''request'', server_sends ''response'', server_drops] start finish of
           Some (Inr stats, r, server) \<Rightarrow> server = bytes_of ''request'' \<and> agent_writer r = bytes_of ''response''
             \<and> bytes_up stats = 7 \<and> bytes_down stats = 8 \<and> agent_alive r
         | _ \<Rightarrow> False))"

definition test_buffered_relay_multiple_servers :: "write_end \<Rightarrow> nat \<Rightarrow> nat \<Rightarrow> bool" where
  "test_buffered_relay_multiple_servers flush start finish =
     (case relay_through buffered_relay_new flush [agent_sends ''first'', server_sends ''reply1'', server_drops] start finish of
        Some (Inr stats1, r, server1) \<Rightarrow>
          server1 = bytes_of ''first'' \<and> bytes_up stats1 = 5 \<and> bytes_down stats1 = 6 \<and> agent_alive r
          \<and> (case relay_through r flush [agent_sends ''second'', server_sends ''reply2!'', server_drops] start finish of
               Some (Inr stats2, r, server2) \<Rightarrow>
                 server2 = bytes_of ''second'' \<and> bytes_up stats2 = 6 \<and> bytes_down stats2 = 7 \<and> agent_alive r
                 \<and> bytes_up (total_stats r finish) = 11 \<and> bytes_down (total_stats r finish) = 13
             | _ \<Rightarrow> False)
      | _ \<Rightarrow> False)"

definition test_buffered_relay_agent_disconnect :: "write_end \<Rightarrow> nat \<Rightarrow> nat \<Rightarrow> bool" where
  "test_buffered_relay_agent_disconnect flush start finish =
     (case relay_through buffered_relay_new flush [agent_drops] start finish of
        Some (Inr stats, r, _) \<Rightarrow> bytes_up stats = 0 \<and> bytes_down stats = 0 \<and> \<not> agent_alive r
      | _ \<Rightarrow> False)"

definition test_buffered_relay_agent_dead_rejects_new_server :: "write_end \<Rightarrow> nat \<Rightarrow> nat \<Rightarrow> bool" where
  "test_buffered_relay_agent_dead_rejects_new_server flush start finish =
     (case relay_through buffered_relay_new flush [agent_drops] start finish of
        Some (_, r, _) \<Rightarrow> \<not> agent_alive r
          \<and> (case relay_through r flush [] start finish of Some (Inl _, _) \<Rightarrow> True | _ \<Rightarrow> False)
      | None \<Rightarrow> False)"

definition test_buffered_relay_server_disconnect_agent_stays_open :: "write_end \<Rightarrow> nat \<Rightarrow> nat \<Rightarrow> bool" where
  "test_buffered_relay_server_disconnect_agent_stays_open flush start finish =
     (case relay_through buffered_relay_new flush [server_drops] start finish of
        Some (Inr stats, r, _) \<Rightarrow> bytes_up stats = 0 \<and> bytes_down stats = 0 \<and> agent_alive r
      | _ \<Rightarrow> False)"

lemmas relay_eval = relay_def relay_stream_new_def relay_through_def buffered_relay_new_def agent_alive_def total_stats_def
  bytes_of_def Let_def

lemma relay_stream_tests:
  "test_relay_stream_bidirectional agent_first start finish" "test_relay_stream_server_disconnect start finish"
  "test_relay_stream_agent_disconnect start finish"
  "start < finish \<Longrightarrow> test_relay_stats_reports_correct_counts agent_first start finish"
  by (simp_all add: relay_eval test_relay_stream_bidirectional_def test_relay_stream_server_disconnect_def
      test_relay_stream_agent_disconnect_def test_relay_stats_reports_correct_counts_def)

lemma buffered_relay_tests:
  "test_buffered_relay_basic_bidirectional flush start finish" "test_buffered_relay_multiple_servers flush start finish"
  "test_buffered_relay_agent_disconnect flush start finish"
  "test_buffered_relay_agent_dead_rejects_new_server flush start finish"
  "test_buffered_relay_server_disconnect_agent_stays_open flush start finish"
  by (simp_all add: relay_eval test_buffered_relay_basic_bidirectional_def test_buffered_relay_multiple_servers_def
      test_buffered_relay_agent_disconnect_def test_buffered_relay_agent_dead_rejects_new_server_def
      test_buffered_relay_server_disconnect_agent_stays_open_def)

section \<open>Configuration documents\<close>

text \<open>A document of a test is its lines, whose entries and tables the TOML reader delivers.\<close>

definition test_route_config_deserialize_empty_toml :: bool where
  "test_route_config_deserialize_empty_toml =
     (case decode_route_config (entries []) of
        Some config \<Rightarrow> \<not> rc_enabled config \<and> rc_base_table config = 100 \<and> \<not> rc_use_namespaces config
      | None \<Rightarrow> False)"

definition test_route_config_deserialize_full_toml :: bool where
  "test_route_config_deserialize_full_toml =
     (case decode_route_config (entries
         [Blank, Entry ''enabled'' (TBool True), Entry ''base_table'' (TInt 200), Entry ''use_namespaces'' (TBool True)]) of
        Some config \<Rightarrow> rc_enabled config \<and> rc_base_table config = 200 \<and> rc_use_namespaces config
      | None \<Rightarrow> False)"

definition test_route_config_deserialize_partial_toml :: bool where
  "test_route_config_deserialize_partial_toml =
     (case decode_route_config (entries [Blank, Entry ''enabled'' (TBool True)]) of
        Some config \<Rightarrow> rc_enabled config \<and> rc_base_table config = 100 \<and> \<not> rc_use_namespaces config
      | None \<Rightarrow> False)"

definition test_anticorr_config_deserialize_empty_toml :: bool where
  "test_anticorr_config_deserialize_empty_toml =
     (case decode_anti_correlation (sections []) of
        Some config \<Rightarrow>
          \<not> jc_enabled (ac_jitter config) \<and> jc_min_ms (ac_jitter config) = 0 \<and> jc_max_ms (ac_jitter config) = 2000
          \<and> \<not> pc_enabled (ac_padding config) \<and> pc_target_size (ac_padding config) = 1024
      | None \<Rightarrow> False)"

definition test_anticorr_config_deserialize_full_toml :: bool where
  "test_anticorr_config_deserialize_full_toml =
     (case decode_anti_correlation (sections
         [Blank, Header (Table ''jitter''), Entry ''enabled'' (TBool True), Entry ''min_ms'' (TInt 100),
          Entry ''max_ms'' (TInt 500), Blank, Header (Table ''padding''), Entry ''enabled'' (TBool True),
          Entry ''target_size'' (TInt 2048)]) of
        Some config \<Rightarrow>
          jc_enabled (ac_jitter config) \<and> jc_min_ms (ac_jitter config) = 100 \<and> jc_max_ms (ac_jitter config) = 500
          \<and> pc_enabled (ac_padding config) \<and> pc_target_size (ac_padding config) = 2048
      | None \<Rightarrow> False)"

definition test_anticorr_config_deserialize_partial_toml :: bool where
  "test_anticorr_config_deserialize_partial_toml =
     (case decode_anti_correlation (sections [Blank, Header (Table ''jitter''), Entry ''enabled'' (TBool True)]) of
        Some config \<Rightarrow>
          jc_enabled (ac_jitter config) \<and> jc_min_ms (ac_jitter config) = 0 \<and> jc_max_ms (ac_jitter config) = 2000
          \<and> \<not> pc_enabled (ac_padding config) \<and> pc_target_size (ac_padding config) = 1024
      | None \<Rightarrow> False)"

lemma route_document_tests:
  "test_route_config_deserialize_empty_toml" "test_route_config_deserialize_full_toml"
  "test_route_config_deserialize_partial_toml"
  by (simp_all add: test_route_config_deserialize_empty_toml_def test_route_config_deserialize_full_toml_def
      test_route_config_deserialize_partial_toml_def library_decoders default_base_table_def)

lemma anticorr_document_tests:
  "test_anticorr_config_deserialize_empty_toml" "test_anticorr_config_deserialize_full_toml"
  "test_anticorr_config_deserialize_partial_toml"
  by (simp_all add: test_anticorr_config_deserialize_empty_toml_def test_anticorr_config_deserialize_full_toml_def
      test_anticorr_config_deserialize_partial_toml_def library_decoders jitter_config_default_def
      padding_config_default_def default_min_ms_def default_max_ms_def default_target_size_def)

end
