(* ===== verification/Conformance_Control.thy ===== *)
theory Conformance_Control
  imports Admin Mcp
begin

text \<open>
  The unit tests of the control interfaces (the \<open>tests\<close> modules of \<open>src/src/admin/mod.rs\<close>
  and \<open>src/src/mcp/mod.rs\<close>) as statements about the model. The JSON library is a parameter that reads back what it
  printed (\<open>json_reads\<close>); a request of a test is the text it prints for that request.
\<close>

section \<open>The pool of the tests\<close>

text \<open>
  The tests' mock transport carries an id, a label, a protocol and a flag; the model's
  transport of that protocol does too.
\<close>

definition socks5_mock :: "string \<Rightarrow> string \<Rightarrow> bool \<Rightarrow> transport" where
  "socks5_mock i label is_healthy = Socks5 \<lparr>s5_address = [], s5_label = label, s5_id = i, s5_healthy = is_healthy\<rparr>"

definition wireguard_mock :: "string \<Rightarrow> string \<Rightarrow> bool \<Rightarrow> transport" where
  "wireguard_mock i label is_healthy =
     WireGuard \<lparr>wg_interface = [], wg_label = label, wg_id = i, wg_healthy = is_healthy\<rparr>"

definition control_heap :: theap where
  "control_heap r =
     (if r = 0 then socks5_mock ''socks5-tokyo'' ''tokyo'' True
      else if r = 1 then socks5_mock ''socks5-london'' ''london'' True
      else wireguard_mock ''wg-nord-us'' ''nord-us'' False)"

definition make_pool :: pool where
  "make_pool = pool_new [0, 1, 2]"

lemmas control_pool = socks5_mock_def wireguard_mock_def control_heap_def make_pool_def pool_new_def pool_all_def
  pool_len_def

section \<open>The admin API\<close>

text \<open>Indexing a value by a key (null when it has none) and reading it as an array.\<close>

definition at :: "json \<Rightarrow> string \<Rightarrow> json" where
  "at v key = (case json_get key v of Some x \<Rightarrow> x | None \<Rightarrow> JNull)"

fun as_array :: "json \<Rightarrow> json list" where
  "as_array (JArr vs) = vs"
| "as_array _ = []"

text \<open>A value printed by the library, read back.\<close>

definition parse_response :: "(string \<Rightarrow> string + json) \<Rightarrow> string \<Rightarrow> json" where
  "parse_response from_str raw = (case from_str raw of Inr v \<Rightarrow> v | Inl _ \<Rightarrow> JNull)"

lemma parse_printed: "json_reads from_str to_string \<Longrightarrow> wf_json v \<Longrightarrow> parse_response from_str (to_string v) = v"
  by (simp add: parse_response_def json_reads_def)

definition test_health_response_serializes :: "string \<Rightarrow> bool" where
  "test_health_response_serializes version =
     (let v = body_json (Health_body (health_body version)) in at v ''status'' = JStr ''ok'' \<and> at v ''version'' = JStr version)"

definition test_stats_response_serializes :: bool where
  "test_stats_response_serializes =
     (let v = body_json (Stats_body stats_body) in
      at v ''connections_total'' = JNum 0 \<and> at v ''connections_active'' = JNum 0 \<and> at v ''bytes_relayed'' = JNum 0)"

definition test_pool_response_serializes :: bool where
  "test_pool_response_serializes =
     (let v = body_json (Pool_body (pool_body control_heap make_pool)); tunnels = as_array (at v ''tunnels'') in
      at v ''total'' = JNum 3 \<and> at v ''healthy'' = JNum 2 \<and> length tunnels = 3
      \<and> at (tunnels ! 0) ''id'' = JStr ''socks5-tokyo'' \<and> at (tunnels ! 0) ''label'' = JStr ''tokyo''
      \<and> at (tunnels ! 0) ''protocol'' = JStr ''socks5'' \<and> at (tunnels ! 0) ''healthy'' = JBool True
      \<and> at (tunnels ! 2) ''id'' = JStr ''wg-nord-us'' \<and> at (tunnels ! 2) ''healthy'' = JBool False)"

definition test_dispatch ::
  "(string \<Rightarrow> string + json) \<Rightarrow> (json \<Rightarrow> string) \<Rightarrow> string \<Rightarrow> string \<Rightarrow> string \<Rightarrow> pool \<Rightarrow> nat \<times> json" where
  "test_dispatch from_str to_string version method path p =
     (let r = admin_handle_request (\<lambda>b. Inr (to_string (body_json b))) version method path control_heap p
      in (rs_status r, parse_response from_str (rs_bytes r)))"


definition test_route_get_health :: "(string \<Rightarrow> string + json) \<Rightarrow> (json \<Rightarrow> string) \<Rightarrow> string \<Rightarrow> bool" where
  "test_route_get_health from_str to_string version =
     (let (status, v) = test_dispatch from_str to_string version ''GET'' ''/health'' make_pool in status = 200
      \<and> at v ''status'' = JStr ''ok'')"

definition test_route_get_pool :: "(string \<Rightarrow> string + json) \<Rightarrow> (json \<Rightarrow> string) \<Rightarrow> string \<Rightarrow> bool" where
  "test_route_get_pool from_str to_string version =
     (let (status, v) = test_dispatch from_str to_string version ''GET'' ''/pool'' make_pool in status = 200
      \<and> at v ''total'' = JNum 3
      \<and> at v ''healthy'' = JNum 2)"

definition test_route_get_stats :: "(string \<Rightarrow> string + json) \<Rightarrow> (json \<Rightarrow> string) \<Rightarrow> string \<Rightarrow> bool" where
  "test_route_get_stats from_str to_string version =
     (let (status, v) = test_dispatch from_str to_string version ''GET'' ''/stats'' make_pool in status = 200
      \<and> at v ''connections_total'' = JNum 0)"

definition test_route_post_health_returns_405 :: "(string \<Rightarrow> string + json) \<Rightarrow> (json \<Rightarrow> string) \<Rightarrow> string \<Rightarrow> bool" where
  "test_route_post_health_returns_405 from_str to_string version =
     (let (status, v) = test_dispatch from_str to_string version ''POST'' ''/health'' make_pool in status = 405
      \<and> at v ''error'' = JStr ''method not allowed'')"

definition test_route_unknown_returns_404 :: "(string \<Rightarrow> string + json) \<Rightarrow> (json \<Rightarrow> string) \<Rightarrow> string \<Rightarrow> bool" where
  "test_route_unknown_returns_404 from_str to_string version =
     (let (status, v) = test_dispatch from_str to_string version ''GET'' ''/nonexistent'' make_pool in status = 404
      \<and> at v ''error'' = JStr ''not found'')"

definition test_route_delete_pool_returns_405 :: "(string \<Rightarrow> string + json) \<Rightarrow> (json \<Rightarrow> string) \<Rightarrow> string \<Rightarrow> bool" where
  "test_route_delete_pool_returns_405 from_str to_string version =
     (let (status, v) = test_dispatch from_str to_string version ''DELETE'' ''/pool'' make_pool in status = 405)"

definition test_empty_pool_response :: "(string \<Rightarrow> string + json) \<Rightarrow> (json \<Rightarrow> string) \<Rightarrow> string \<Rightarrow> bool" where
  "test_empty_pool_response from_str to_string version =
     (let (status, v) = test_dispatch from_str to_string version ''GET'' ''/pool'' (pool_new []) in status = 200
      \<and> at v ''total'' = JNum 0
      \<and> at v ''healthy'' = JNum 0
      \<and> length (as_array (at v ''tunnels'')) = 0)"

lemmas admin_eval = health_body_def stats_body_def error_body_def pool_body_def entry_of_def test_dispatch_def
  admin_handle_request_def json_response_def control_pool health_json_def pool_json_def entry_json_def stats_json_def
  error_json_def at_def Let_def

lemma admin_body_tests:
  "test_health_response_serializes version" "test_stats_response_serializes" "test_pool_response_serializes"
  by (simp_all add: admin_eval test_health_response_serializes_def test_stats_response_serializes_def
      test_pool_response_serializes_def)

lemma admin_route_tests:
  assumes "json_reads from_str to_string"
  shows "test_route_get_health from_str to_string version"
    "test_route_get_pool from_str to_string version"
    "test_route_get_stats from_str to_string version"
    "test_route_post_health_returns_405 from_str to_string version"
    "test_route_unknown_returns_404 from_str to_string version"
    "test_route_delete_pool_returns_405 from_str to_string version"
    "test_empty_pool_response from_str to_string version"
  by (simp_all add: parse_printed [OF assms] wf_body_json admin_eval test_route_get_health_def
      test_route_get_pool_def
      test_route_get_stats_def
      test_route_post_health_returns_405_def
      test_route_unknown_returns_404_def
      test_route_delete_pool_returns_405_def
      test_empty_pool_response_def)

section \<open>The MCP server\<close>

definition rpc_request :: "int \<Rightarrow> string \<Rightarrow> json \<Rightarrow> json" where
  "rpc_request i method params =
     JObj [(''jsonrpc'', JStr ''2.0''), (''id'', JNum i), (''method'', JStr method), (''params'', params)]"

definition tool_call :: "int \<Rightarrow> string \<Rightarrow> json \<Rightarrow> json" where
  "tool_call i name arguments =
     rpc_request i ''tools/call'' (JObj [(''name'', JStr name), (''arguments'', arguments)])"

text \<open>The response to a request, parsed, and the text of a tool's answer.\<close>

definition answer :: "(string \<Rightarrow> string + json) \<Rightarrow> (json \<Rightarrow> string) \<Rightarrow> string \<Rightarrow> string \<Rightarrow> json" where
  "answer from_str to_string version request =
     parse_response from_str (fst (mcp_handle_request from_str to_string version request control_heap make_pool))"

definition answer_text :: "json \<Rightarrow> string" where
  "answer_text v = (case as_str (at (as_array (at (at v ''result'') ''content'') ! 0) ''text'') of Some s \<Rightarrow> s | None \<Rightarrow> [])"


definition test_tools_list_returns_all_four_tools :: "(string \<Rightarrow> string + json) \<Rightarrow> (json \<Rightarrow> string) \<Rightarrow> string \<Rightarrow> bool" where
  "test_tools_list_returns_all_four_tools from_str to_string version =
     (let v = answer from_str to_string version (to_string (rpc_request 1 ''tools/list'' (JObj []))) in
      at v ''jsonrpc'' = JStr ''2.0'' \<and> at v ''id'' = JNum 1
      \<and> (let tools = as_array (at (at v ''result'') ''tools''); names = List.map_filter (\<lambda>t. as_str (at t ''name'')) tools in
         length tools = 4 \<and> ''pool_status'' \<in> set names \<and> ''pool_add'' \<in> set names \<and> ''pool_remove'' \<in> set names
         \<and> ''health_check'' \<in> set names))"

definition test_tools_call_pool_status_works :: "(string \<Rightarrow> string + json) \<Rightarrow> (json \<Rightarrow> string) \<Rightarrow> string \<Rightarrow> bool" where
  "test_tools_call_pool_status_works from_str to_string version =
     (let v = answer from_str to_string version (to_string (tool_call 2 ''pool_status'' (JObj []))) in
      at v ''jsonrpc'' = JStr ''2.0'' \<and> at v ''id'' = JNum 2
      \<and> (let content = as_array (at (at v ''result'') ''content'') in
         length content = 1 \<and> at (content ! 0) ''type'' = JStr ''text''
         \<and> (case from_str (answer_text v) of
              Inr status \<Rightarrow> at status ''total'' = JNum 3 \<and> at status ''healthy'' = JNum 2
                \<and> length (as_array (at status ''tunnels'')) = 3
            | Inl _ \<Rightarrow> False)))"

definition test_tools_call_health_check_works :: "(string \<Rightarrow> string + json) \<Rightarrow> (json \<Rightarrow> string) \<Rightarrow> string \<Rightarrow> bool" where
  "test_tools_call_health_check_works from_str to_string version =
     (let v = answer from_str to_string version (to_string (tool_call 3 ''health_check'' (JObj []))) in
      at v ''jsonrpc'' = JStr ''2.0'' \<and> at v ''id'' = JNum 3
      \<and> (case from_str (answer_text v) of
           Inr health \<Rightarrow> at health ''status'' = JStr ''ok'' \<and> at health ''version'' = JStr version
             \<and> at health ''tunnels_total'' = JNum 3 \<and> at health ''tunnels_healthy'' = JNum 2
         | Inl _ \<Rightarrow> False))"

definition test_unknown_method_returns_error :: "(string \<Rightarrow> string + json) \<Rightarrow> (json \<Rightarrow> string) \<Rightarrow> string \<Rightarrow> bool" where
  "test_unknown_method_returns_error from_str to_string version =
     (let v = answer from_str to_string version (to_string (rpc_request 4 ''unknown/method'' (JObj []))) in
      at v ''jsonrpc'' = JStr ''2.0'' \<and> at v ''id'' = JNum 4
      \<and> at (at v ''error'') ''code'' = JNum method_not_found \<and> (\<exists>s. at (at v ''error'') ''message'' = JStr s \<and> str_contains ''Method not found'' s))"

definition test_malformed_json_returns_parse_error :: "(string \<Rightarrow> string + json) \<Rightarrow> (json \<Rightarrow> string) \<Rightarrow> string \<Rightarrow> bool" where
  "test_malformed_json_returns_parse_error from_str to_string version =
     (let v = answer from_str to_string version ''this is not json {{{'' in
      at v ''jsonrpc'' = JStr ''2.0'' \<and> at v ''id'' = JNull
      \<and> at (at v ''error'') ''code'' = JNum parse_error \<and> (\<exists>s. at (at v ''error'') ''message'' = JStr s \<and> str_contains ''Parse error'' s))"

definition test_unknown_tool_name_returns_error :: "(string \<Rightarrow> string + json) \<Rightarrow> (json \<Rightarrow> string) \<Rightarrow> string \<Rightarrow> bool" where
  "test_unknown_tool_name_returns_error from_str to_string version =
     (let v = answer from_str to_string version (to_string (tool_call 5 ''nonexistent_tool'' (JObj []))) in
      at v ''jsonrpc'' = JStr ''2.0'' \<and> at v ''id'' = JNum 5
      \<and> at (at v ''error'') ''code'' = JNum method_not_found \<and> (\<exists>s. at (at v ''error'') ''message'' = JStr s \<and> str_contains ''Unknown tool'' s))"

definition test_tools_call_pool_remove_existing :: "(string \<Rightarrow> string + json) \<Rightarrow> (json \<Rightarrow> string) \<Rightarrow> string \<Rightarrow> bool" where
  "test_tools_call_pool_remove_existing from_str to_string version =
     (let v = answer from_str to_string version (to_string (tool_call 6 ''pool_remove'' (JObj [(''id'', JStr ''socks5-tokyo'')]))) in
      str_contains ''removed successfully'' (answer_text v))"

definition test_tools_call_pool_remove_nonexistent :: "(string \<Rightarrow> string + json) \<Rightarrow> (json \<Rightarrow> string) \<Rightarrow> string \<Rightarrow> bool" where
  "test_tools_call_pool_remove_nonexistent from_str to_string version =
     (let v = answer from_str to_string version (to_string (tool_call 7 ''pool_remove'' (JObj [(''id'', JStr ''does-not-exist'')]))) in
      str_contains ''not found'' (answer_text v))"

definition test_tools_call_pool_add :: "(string \<Rightarrow> string + json) \<Rightarrow> (json \<Rightarrow> string) \<Rightarrow> string \<Rightarrow> bool" where
  "test_tools_call_pool_add from_str to_string version =
     (let v = answer from_str to_string version (to_string (tool_call 8 ''pool_add'' (JObj [(''protocol'', JStr ''socks5''), (''address'', JStr ''127.0.0.1:1080''),
        (''label'', JStr ''test-tunnel'')]))) in
      at v ''jsonrpc'' = JStr ''2.0'' \<and> at v ''id'' = JNum 8
      \<and> str_contains ''protocol=socks5'' (answer_text v) \<and> str_contains ''address=127.0.0.1:1080'' (answer_text v)
      \<and> str_contains ''label=test-tunnel'' (answer_text v))"

definition test_tools_call_missing_name_returns_error :: "(string \<Rightarrow> string + json) \<Rightarrow> (json \<Rightarrow> string) \<Rightarrow> string \<Rightarrow> bool" where
  "test_tools_call_missing_name_returns_error from_str to_string version =
     (let v = answer from_str to_string version (to_string (rpc_request 9 ''tools/call'' (JObj [(''arguments'', JObj [])]))) in
      at (at v ''error'') ''code'' = JNum invalid_params)"

definition test_missing_method_returns_invalid_request :: "(string \<Rightarrow> string + json) \<Rightarrow> (json \<Rightarrow> string) \<Rightarrow> string \<Rightarrow> bool" where
  "test_missing_method_returns_invalid_request from_str to_string version =
     (let v = answer from_str to_string version (to_string (JObj [(''jsonrpc'', JStr ''2.0''), (''id'', JNum 10)])) in
      at (at v ''error'') ''code'' = JNum invalid_request)"

text \<open>
  A response to a request the parser accepts is read back as the value that was printed.
\<close>

lemmas mcp_eval = rpc_request_def tool_call_def answer_def answer_text_def at_def get_str_def
  mcp_handle_request_def handle_tools_list_def handle_tools_call_def tool_definitions_def tool_def string_prop_def
  tool_pool_status_def tool_health_check_def tool_pool_remove_def tool_pool_add_def Pool.pool_remove_def
  tool_result_def success_response_def error_response_def control_pool quoted_def Let_def



lemma mcp_list_tests:
  assumes "json_reads from_str to_string"
  shows "test_tools_list_returns_all_four_tools from_str to_string version"
  using assms
  by (simp_all add: mcp_eval parse_response_def json_reads_def test_tools_list_returns_all_four_tools_def)

lemma mcp_status_tests:
  assumes "json_reads from_str to_string"
  shows "test_tools_call_pool_status_works from_str to_string version"
    "test_tools_call_health_check_works from_str to_string version"
  using assms
  by (simp_all add: mcp_eval parse_response_def json_reads_def test_tools_call_pool_status_works_def
      test_tools_call_health_check_works_def)

lemma mcp_error_tests:
  assumes "json_reads from_str to_string"
  shows "test_unknown_method_returns_error from_str to_string version"
    "test_unknown_tool_name_returns_error from_str to_string version"
    "test_tools_call_missing_name_returns_error from_str to_string version"
    "test_missing_method_returns_invalid_request from_str to_string version"
  using assms
  by (simp_all add: mcp_eval parse_response_def json_reads_def test_unknown_method_returns_error_def
      test_unknown_tool_name_returns_error_def
      test_tools_call_missing_name_returns_error_def
      test_missing_method_returns_invalid_request_def)

lemma mcp_malformed_test:
  assumes "json_reads from_str to_string"
    and "from_str ''this is not json {{{'' = Inl e"
  shows "test_malformed_json_returns_parse_error from_str to_string version"
  using assms
  by (simp_all add: mcp_eval parse_response_def json_reads_def test_malformed_json_returns_parse_error_def)

lemma mcp_tool_tests:
  assumes "json_reads from_str to_string"
  shows "test_tools_call_pool_remove_existing from_str to_string version"
    "test_tools_call_pool_remove_nonexistent from_str to_string version"
    "test_tools_call_pool_add from_str to_string version"
  using assms
  by (simp_all add: mcp_eval parse_response_def json_reads_def test_tools_call_pool_remove_existing_def
      test_tools_call_pool_remove_nonexistent_def
      test_tools_call_pool_add_def)

end
