(* ===== verification/Conformance_Files.thy ===== *)
theory Conformance_Files
  imports Config_File Docker Nord_Api
begin

text \<open>
  The unit tests of the configuration and of the files the program writes (the \<open>tests\<close>
  modules of \<open>src/src/config/mod.rs\<close>, \<open>src/src/docker.rs\<close>, \<open>src/src/import/nord.rs\<close> and
  \<open>src/src/import/ssh.rs\<close>) as statements about the model. A document of a test is the
  rendering of its lines, read by any TOML reader that satisfies \<open>toml_reads\<close>; a response of
  the NordVPN service is the text of a value under any JSON library that satisfies
  \<open>json_reads\<close>.
\<close>

definition quoted_entry :: "string \<Rightarrow> string \<Rightarrow> string" where
  "quoted_entry key v = key @ '' = '' @ [CHR 0x22] @ v @ [CHR 0x22]"

text \<open>The non-overlapping occurrences of a text, as \<open>matches(..).count()\<close> counts them.\<close>

fun match_count :: "string \<Rightarrow> string \<Rightarrow> nat" where
  "match_count p [] = 0"
| "match_count p (c # cs) =
     (if prefix p (c # cs) then 1 + match_count p (drop (length p - 1) cs) else match_count p cs)"

text \<open>A text is searched piece by piece, its pieces being the lines that make it up.\<close>

lemma contains_self: "str_contains p (p @ b)" "str_contains p p"
  unfolding str_contains_iff by (metis append_Nil append_Nil2)+

lemma contains_skip: "str_contains p b \<Longrightarrow> str_contains p (a @ b)"
  by (auto simp: str_contains_iff) (metis append_assoc)

lemma contains_setting: "str_contains (quoted_entry key v) (setting key v @ b)" "str_contains (quoted_entry key v) (setting key v)"
proof -
  have eq: "setting key v = quoted_entry key v @ [CHR 0x0A]" by (simp add: setting_def quoted_entry_def)
  show "str_contains (quoted_entry key v) (setting key v @ b)" "str_contains (quoted_entry key v) (setting key v)"
    unfolding eq append_assoc by (rule contains_self)+
qed

lemma key_value_setting: "key_value = setting"
  by (intro ext) (simp add: key_value_def setting_def)

lemma count_self: "p \<noteq> [] \<Longrightarrow> match_count p (p @ b) = Suc (match_count p b)"
  by (cases p) auto

lemma count_skip: "c \<notin> set a \<Longrightarrow> match_count (c # p) (a @ b) = match_count (c # p) b"
  by (induction a) auto

lemma count_none: "c \<notin> set a \<Longrightarrow> match_count (c # p) a = 0"
  by (induction a) auto

lemmas search = contains_self contains_skip contains_setting key_value_setting

section \<open>Configuration documents\<close>

abbreviation str_entry :: "string \<Rightarrow> string \<Rightarrow> toml_line" where
  "str_entry key v \<equiv> Entry key (TStr v)"

definition socks_doc :: "toml_line list" where
  "socks_doc =
     [Blank, Header (Table ''proxy''), str_entry ''listen'' ''0.0.0.0:9090'',
      Blank, Header (Tables ''tunnel''), str_entry ''protocol'' ''socks5'', str_entry ''address'' ''127.0.0.1:1080'', str_entry ''label'' ''my-socks'']"

definition vpn_doc :: "toml_line list" where
  "vpn_doc =
     [Blank, Header (Table ''proxy''), str_entry ''listen'' ''127.0.0.1:8080'', str_entry ''strategy'' ''round-robin'',
      Blank, Header (Table ''docker''), Entry ''enabled'' (TBool True),
      Blank, Header (Tables ''docker.vpn''), str_entry ''provider'' ''nordvpn'', str_entry ''token'' ''my-token'', str_entry ''country'' ''us'',
      Blank, Header (Tables ''docker.vpn''), str_entry ''provider'' ''nordvpn'', str_entry ''token'' ''my-token'', str_entry ''country'' ''de'']"

definition full_doc :: "toml_line list" where
  "full_doc =
     [Blank, Header (Table ''proxy''), str_entry ''listen'' ''0.0.0.0:9090'', str_entry ''mode'' ''mitm'', str_entry ''strategy'' ''round-robin'',
      Blank, Header (Tables ''tunnel''), str_entry ''protocol'' ''socks5'', str_entry ''address'' ''127.0.0.1:1080'', str_entry ''label'' ''ssh-tokyo'',
      Blank, Header (Tables ''tunnel''), str_entry ''protocol'' ''wireguard'', str_entry ''endpoint'' ''169.150.196.30:51820'',
      str_entry ''private_key'' ''my-private-key'', str_entry ''public_key'' ''server-public-key'',
      str_entry ''address'' ''10.5.0.2/32'', str_entry ''dns'' ''103.86.96.100'', str_entry ''label'' ''nord-us-east'',
      Blank, Header (Tables ''tunnel''), str_entry ''protocol'' ''sentinel'', str_entry ''node'' ''sentnode1qx...'', str_entry ''denom'' ''udvpn'',
      str_entry ''deposit'' ''1000000udvpn'', str_entry ''wallet_key'' ''~/.houdinny/sentinel_key'', str_entry ''label'' ''sentinel-singapore'']"

definition token_doc :: "string \<Rightarrow> toml_line list" where
  "token_doc token =
     [Blank, Header (Table ''docker''), Entry ''enabled'' (TBool True),
      Blank, Header (Tables ''docker.vpn''), str_entry ''provider'' ''nordvpn'', str_entry ''token'' token, str_entry ''country'' ''us'']"

definition test_parse_empty_config_uses_defaults :: "(string \<Rightarrow> string + config) \<Rightarrow> bool" where
  "test_parse_empty_config_uses_defaults toml =
     (parses_to toml [] (\<lambda>cfg.
        pc_listen (cfg_proxy cfg) = ''127.0.0.1:8080'' \<and> pc_mode (cfg_proxy cfg) = Transparent
        \<and> pc_strategy (cfg_proxy cfg) = Random \<and> cfg_tunnel cfg = [] \<and> \<not> dc_enabled (cfg_docker cfg)
        \<and> dc_vpn (cfg_docker cfg) = []))"

definition test_parse_config_without_docker_section :: "(string \<Rightarrow> string + config) \<Rightarrow> bool" where
  "test_parse_config_without_docker_section toml =
     (parses_to toml socks_doc (\<lambda>cfg.
        pc_listen (cfg_proxy cfg) = ''0.0.0.0:9090'' \<and> \<not> dc_enabled (cfg_docker cfg) \<and> dc_vpn (cfg_docker cfg) = []
        \<and> length (cfg_tunnel cfg) = 1))"

definition test_parse_config_with_docker_section :: "(string \<Rightarrow> string + config) \<Rightarrow> bool" where
  "test_parse_config_with_docker_section toml =
     (parses_to toml vpn_doc (\<lambda>cfg.
        let vpn = dc_vpn (cfg_docker cfg) in
        dc_enabled (cfg_docker cfg) \<and> length vpn = 2 \<and> vpn_provider (vpn ! 0) = ''nordvpn''
        \<and> vpn_token (vpn ! 0) = Some ''my-token'' \<and> vpn_country (vpn ! 0) = ''us'' \<and> vpn_country (vpn ! 1) = ''de''))"

definition test_full_toml_with_multiple_tunnels :: "(string \<Rightarrow> string + config) \<Rightarrow> bool" where
  "test_full_toml_with_multiple_tunnels toml =
     (parses_to toml full_doc (\<lambda>cfg.
        let tunnel = cfg_tunnel cfg in
        pc_listen (cfg_proxy cfg) = ''0.0.0.0:9090'' \<and> pc_mode (cfg_proxy cfg) = Mitm
        \<and> pc_strategy (cfg_proxy cfg) = RoundRobin \<and> length tunnel = 3 \<and> tc_protocol (tunnel ! 0) = ''socks5''
        \<and> tc_protocol (tunnel ! 1) = ''wireguard'' \<and> tc_private_key (tunnel ! 1) = Some ''my-private-key''
        \<and> tc_protocol (tunnel ! 2) = ''sentinel'' \<and> tc_node (tunnel ! 2) = Some ''sentnode1qx...''))"

definition test_config_with_env_var_references_resolves :: "(string \<Rightarrow> string + config) \<Rightarrow> bool" where
  "test_config_with_env_var_references_resolves toml =
     (let resolved = resolve_env_vars [''HOUDINNY_CFG_TOKEN'' \<mapsto> ''secret-abc''] (render (token_doc ''${HOUDINNY_CFG_TOKEN}'')) in
      case parse_toml toml resolved of
        Inr cfg \<Rightarrow> vpn_token (dc_vpn (cfg_docker cfg) ! 0) = Some ''secret-abc''
      | Inl _ \<Rightarrow> False)"

definition test_proxy_mode_deserialization :: "bool" where
  "test_proxy_mode_deserialization =
     (decode_mode ''transparent'' = Some Transparent \<and> decode_mode ''mitm'' = Some Mitm)"

definition test_strategy_deserialization :: "bool" where
  "test_strategy_deserialization =
     (decode_strategy ''random'' = Some Random \<and> decode_strategy ''round-robin'' = Some RoundRobin)"

definition test_default_proxy_config :: "bool" where
  "test_default_proxy_config =
     (pc_listen proxy_config_default = ''127.0.0.1:8080'' \<and> pc_mode proxy_config_default = Transparent
      \<and> pc_strategy proxy_config_default = Random)"

definition test_strategy_display :: "bool" where
  "test_strategy_display =
     (strategy_display Random = ''random'' \<and> strategy_display RoundRobin = ''round-robin'')"

definition test_proxy_mode_display :: "bool" where
  "test_proxy_mode_display =
     (proxy_mode_display Transparent = ''transparent'' \<and> proxy_mode_display Mitm = ''mitm'')"

definition test_strategy_from_name :: "bool" where
  "test_strategy_from_name =
     (strategy_from_name ''random'' = Inr Random \<and> strategy_from_name ''round-robin'' = Inr RoundRobin
      \<and> strategy_from_name ''roundrobin'' = Inr RoundRobin \<and> strategy_from_name ''rr'' = Inr RoundRobin
      \<and> isl (strategy_from_name ''nonexistent''))"

definition test_from_file_nonexistent_returns_error :: "(string \<Rightarrow> string + config) \<Rightarrow> env \<Rightarrow> bool" where
  "test_from_file_nonexistent_returns_error toml e =
     (isl (config_from_file toml e ''/nonexistent/path/tunnels.toml'' (Inl ''No such file or directory (os error 2)'')))"

definition test_parse_tunnel_urls :: "bool" where
  "test_parse_tunnel_urls =
     (let tunnel = cfg_tunnel (from_tunnel_urls [''socks5://127.0.0.1:1080'', ''socks5://127.0.0.1:1081'']) in
      length tunnel = 2 \<and> tc_protocol (tunnel ! 0) = ''socks5'' \<and> tc_address (tunnel ! 0) = Some ''127.0.0.1:1080''
      \<and> tc_label (tunnel ! 0) = Some ''cli-0'' \<and> tc_address (tunnel ! 1) = Some ''127.0.0.1:1081'')"

definition test_parse_tunnel_url_without_scheme_defaults_to_socks5 :: "bool" where
  "test_parse_tunnel_url_without_scheme_defaults_to_socks5 =
     (let tunnel = cfg_tunnel (from_tunnel_urls [''127.0.0.1:9050'']) in
      tc_protocol (tunnel ! 0) = ''socks5'' \<and> tc_address (tunnel ! 0) = Some ''127.0.0.1:9050'')"

definition test_resolve_env_vars_existing :: "bool" where
  "test_resolve_env_vars_existing =
     (resolve_env_vars [''HOUDINNY_TEST_VAR'' \<mapsto> ''hello_world''] (quoted_entry ''token'' ''${HOUDINNY_TEST_VAR}'')
      = quoted_entry ''token'' ''hello_world'')"

definition test_resolve_env_vars_missing_left_as_is :: "env \<Rightarrow> bool" where
  "test_resolve_env_vars_missing_left_as_is e =
     (e ''HOUDINNY_NONEXISTENT_VAR_12345'' = None \<longrightarrow>
      resolve_env_vars e (quoted_entry ''token'' ''${HOUDINNY_NONEXISTENT_VAR_12345}'')
      = quoted_entry ''token'' ''${HOUDINNY_NONEXISTENT_VAR_12345}'')"

definition test_resolve_env_vars_multiple :: "bool" where
  "test_resolve_env_vars_multiple =
     (resolve_env_vars [''HOUDINNY_A'' \<mapsto> ''aaa'', ''HOUDINNY_B'' \<mapsto> ''bbb''] ''${HOUDINNY_A} and ${HOUDINNY_B}'' = ''aaa and bbb'')"

definition test_resolve_env_vars_no_refs :: "env \<Rightarrow> bool" where
  "test_resolve_env_vars_no_refs e =
     (resolve_env_vars e ''just a plain string'' = ''just a plain string'')"

definition test_resolve_env_vars_empty_braces :: "env \<Rightarrow> bool" where
  "test_resolve_env_vars_empty_braces e =
     (resolve_env_vars e ''before ${}after'' = ''before ${}after'')"

definition test_dotenv_loading :: "env \<Rightarrow> bool" where
  "test_dotenv_loading e =
     (let content = ''# comment'' @ [CHR 0x0A] @ ''HOUDINNY_DOTENV_TEST=loaded_value'' @ [CHR 0x0A] @ [CHR 0x0A]
        @ ''ANOTHER=42'' @ [CHR 0x0A] in
      case load_dotenv (Some content) e of
        Some e' \<Rightarrow> e' ''HOUDINNY_DOTENV_TEST'' = Some ''loaded_value'' \<and> e' ''ANOTHER'' = Some ''42''
      | None \<Rightarrow> False)"

lemma test_docs_wf: "wf_doc []" "wf_doc socks_doc" "wf_doc vpn_doc" "wf_doc full_doc" "wf_doc (token_doc ''secret-abc'')"
  by (simp_all add: wf_doc_def bare_char_def plain_string_def socks_doc_def vpn_doc_def full_doc_def token_doc_def)

lemma config_document_tests:
  assumes "toml_reads toml"
  shows "test_parse_empty_config_uses_defaults toml" "test_parse_config_without_docker_section toml"
    "test_parse_config_with_docker_section toml" "test_full_toml_with_multiple_tunnels toml"
  unfolding test_parse_empty_config_uses_defaults_def test_parse_config_without_docker_section_def
    test_parse_config_with_docker_section_def test_full_toml_with_multiple_tunnels_def
  by (intro parses_toI [OF assms] test_docs_wf;
      simp add: decode_eval socks_doc_def vpn_doc_def full_doc_def)+

lemma env_references_test:
  assumes "toml_reads toml"
  shows "test_config_with_env_var_references_resolves toml"
proof -
  have "resolve_env_vars [''HOUDINNY_CFG_TOKEN'' \<mapsto> ''secret-abc''] (render (token_doc ''${HOUDINNY_CFG_TOKEN}''))
      = render (token_doc ''secret-abc'')"
    by (simp add: render_def token_doc_def resolve_ref_def)
  moreover have "parses_to toml (token_doc ''secret-abc'') (\<lambda>cfg. vpn_token (dc_vpn (cfg_docker cfg) ! 0) = Some ''secret-abc'')"
    by (rule parses_toI [OF assms test_docs_wf(5)]; simp add: decode_eval token_doc_def)
  ultimately show ?thesis
    by (simp add: test_config_with_env_var_references_resolves_def parses_to_def)
qed

lemma config_value_tests:
  "test_proxy_mode_deserialization" "test_strategy_deserialization" "test_default_proxy_config" "test_strategy_display"
  "test_proxy_mode_display" "test_strategy_from_name" "test_from_file_nonexistent_returns_error toml e"
  "test_parse_tunnel_urls" "test_parse_tunnel_url_without_scheme_defaults_to_socks5"
  by (simp_all add: decode_eval test_proxy_mode_deserialization_def test_strategy_deserialization_def
      test_default_proxy_config_def test_strategy_display_def test_proxy_mode_display_def test_strategy_from_name_def
      test_from_file_nonexistent_returns_error_def test_parse_tunnel_urls_def
      test_parse_tunnel_url_without_scheme_defaults_to_socks5_def config_from_file_def from_tunnel_urls_def
      tunnel_of_url_def parse_tunnel_url_def strategy_from_name_def ascii_lower_def char_of_def
      bit_Suc_0_iff show_nat.simps digit_char_def Let_def)

lemma resolve_env_vars_tests:
  "test_resolve_env_vars_existing" "test_resolve_env_vars_missing_left_as_is e" "test_resolve_env_vars_multiple"
  "test_resolve_env_vars_no_refs e" "test_resolve_env_vars_empty_braces e"
  by (simp_all add: test_resolve_env_vars_existing_def test_resolve_env_vars_missing_left_as_is_def
      test_resolve_env_vars_multiple_def test_resolve_env_vars_no_refs_def test_resolve_env_vars_empty_braces_def
      quoted_entry_def resolve_ref_def)

lemma dotenv_test: "test_dotenv_loading e"
proof -
  have "str_lines (''# comment'' @ [CHR 0x0A] @ ''HOUDINNY_DOTENV_TEST=loaded_value'' @ [CHR 0x0A] @ [CHR 0x0A]
        @ ''ANOTHER=42'' @ [CHR 0x0A]) = [''# comment'', ''HOUDINNY_DOTENV_TEST=loaded_value'', [], ''ANOTHER=42'']"
    by code_simp
  moreover have "dotenv_assign ''# comment'' = None" "dotenv_assign [] = None"
      "dotenv_assign ''HOUDINNY_DOTENV_TEST=loaded_value'' = Some (''HOUDINNY_DOTENV_TEST'', ''loaded_value'')"
      "dotenv_assign ''ANOTHER=42'' = Some (''ANOTHER'', ''42'')"
    by code_simp+
  ultimately show ?thesis
    by (simp del: str_lines.simps add: test_dotenv_loading_def load_dotenv_def dotenv_line_eq set_var_def)
qed

section \<open>The Docker stack\<close>

text \<open>
  The tests read the generated YAML back and look for texts in it. Its printer is a parameter
  of the model, so the texts are looked for in the strings of the service they belong to.
\<close>

definition service_texts :: "compose_file \<Rightarrow> string \<Rightarrow> string list" where
  "service_texts cf name =
     (case cf_services cf name of
        None \<Rightarrow> []
      | Some sv \<Rightarrow>
          (case sv_environment sv of Some xs \<Rightarrow> xs | None \<Rightarrow> [])
          @ (case sv_ports sv of Some xs \<Rightarrow> xs | None \<Rightarrow> [])
          @ (case sv_networks sv of
               Some m \<Rightarrow> (case m ''houdinny-net'' of Some n \<Rightarrow> [ipv4_address n] | None \<Rightarrow> [])
             | None \<Rightarrow> []))"

definition has_service :: "compose_file \<Rightarrow> string \<Rightarrow> bool" where
  "has_service cf name = (cf_services cf name \<noteq> None)"

definition test_country_code_mapping :: "bool" where
  "test_country_code_mapping =
     (resolve_country ''us'' = ''United_States''
      \<and> resolve_country ''de'' = ''Germany''
      \<and> resolve_country ''jp'' = ''Japan''
      \<and> resolve_country ''kr'' = ''South_Korea''
      \<and> resolve_country ''gb'' = ''United_Kingdom''
      \<and> resolve_country ''uk'' = ''United_Kingdom''
      \<and> resolve_country ''fr'' = ''France''
      \<and> resolve_country ''sg'' = ''Singapore'')"

definition test_full_name_passthrough :: "bool" where
  "test_full_name_passthrough =
     (resolve_country ''United_States'' = ''United_States''
      \<and> resolve_country ''Germany'' = ''Germany''
      \<and> resolve_country ''South_Korea'' = ''South_Korea'')"

definition test_unknown_code_passthrough :: "bool" where
  "test_unknown_code_passthrough =
     (resolve_country ''zz'' = ''zz''
      \<and> resolve_country ''xx'' = ''xx'')"

definition test_country_code_case_insensitive :: "bool" where
  "test_country_code_case_insensitive =
     (resolve_country ''US'' = ''United_States''
      \<and> resolve_country ''De'' = ''Germany''
      \<and> resolve_country ''JP'' = ''Japan'')"

definition test_generate_docker_compose_one_country :: "bool" where
  "test_generate_docker_compose_one_country =
     (let cf = compose [''us''] 8080 in
      has_service cf ''vpn-1'' \<and> has_service cf ''houdinny'' \<and> \<not> has_service cf ''vpn-2''
      \<and> ''CONNECT=United_States'' \<in> set (service_texts cf ''vpn-1'')
      \<and> ''172.20.0.11'' \<in> set (service_texts cf ''vpn-1'')
      \<and> ''8080:8080'' \<in> set (service_texts cf ''houdinny''))"

definition test_generate_docker_compose_three_countries :: "bool" where
  "test_generate_docker_compose_three_countries =
     (let cf = compose [''us'', ''de'', ''jp''] 9090 in
      has_service cf ''vpn-1'' \<and> has_service cf ''vpn-2'' \<and> has_service cf ''vpn-3'' \<and> \<not> has_service cf ''vpn-4''
      \<and> ''CONNECT=United_States'' \<in> set (service_texts cf ''vpn-1'')
      \<and> ''CONNECT=Germany'' \<in> set (service_texts cf ''vpn-2'')
      \<and> ''CONNECT=Japan'' \<in> set (service_texts cf ''vpn-3'')
      \<and> ''172.20.0.11'' \<in> set (service_texts cf ''vpn-1'')
      \<and> ''172.20.0.12'' \<in> set (service_texts cf ''vpn-2'')
      \<and> ''172.20.0.13'' \<in> set (service_texts cf ''vpn-3'')
      \<and> ''9090:9090'' \<in> set (service_texts cf ''houdinny''))"

definition test_generate_docker_compose_five_countries :: "bool" where
  "test_generate_docker_compose_five_countries =
     (let cf = compose [''us'', ''de'', ''jp'', ''kr'', ''gb''] 8080 in
      has_service cf ''vpn-5''
      \<and> ''CONNECT=United_Kingdom'' \<in> set (service_texts cf ''vpn-5'')
      \<and> ''172.20.0.15'' \<in> set (service_texts cf ''vpn-5'')
      \<and> has_service cf ''vpn-1'')"

definition test_generate_docker_compose_healthcheck_values :: "bool" where
  "test_generate_docker_compose_healthcheck_values =
     (case cf_services (compose [''us''] 8080) ''vpn-1'' of
        Some sv \<Rightarrow> (case sv_healthcheck sv of Some hc \<Rightarrow> hc_start_period hc = ''60s'' \<and> hc_retries hc = 18 | None \<Rightarrow> False)
      | None \<Rightarrow> False)"

definition test_generate_tunnels_config :: "bool" where
  "test_generate_tunnels_config =
     (let toml = generate_tunnels_config [''us'', ''de'', ''jp''] ''round-robin'' 8080 in
      str_contains (quoted_entry ''listen'' ''0.0.0.0:8080'') toml
      \<and> str_contains (quoted_entry ''strategy'' ''round-robin'') toml
      \<and> str_contains (quoted_entry ''address'' ''172.20.0.11:1080'') toml
      \<and> str_contains (quoted_entry ''address'' ''172.20.0.12:1080'') toml
      \<and> str_contains (quoted_entry ''address'' ''172.20.0.13:1080'') toml
      \<and> str_contains (quoted_entry ''label'' ''vpn-1-United_States'') toml
      \<and> str_contains (quoted_entry ''label'' ''vpn-2-Germany'') toml
      \<and> str_contains (quoted_entry ''label'' ''vpn-3-Japan'') toml)"

definition test_generate_env :: "bool" where
  "test_generate_env =
     (generate_env ''my-secret-token'' = ''NORD_TOKEN=my-secret-token'' @ [CHR 0x0A])"

lemma country_tests:
  "test_country_code_mapping" "test_full_name_passthrough" "test_unknown_code_passthrough"
  "test_country_code_case_insensitive"
  by code_simp+

lemma test_countries:
  "resolve_country ''us'' = ''United_States''" "resolve_country ''de'' = ''Germany''" "resolve_country ''jp'' = ''Japan''"
  "resolve_country ''kr'' = ''South_Korea''" "resolve_country ''gb'' = ''United_Kingdom''"
  by code_simp+

lemma test_numbers:
  "show_nat (Suc 0) = ''1''" "show_nat 2 = ''2''" "show_nat 3 = ''3''" "show_nat 4 = ''4''" "show_nat 5 = ''5''"
  "show_nat 11 = ''11''" "show_nat 12 = ''12''" "show_nat 13 = ''13''" "show_nat 14 = ''14''" "show_nat 15 = ''15''"
  "show_nat 8080 = ''8080''" "show_nat 9090 = ''9090''"
  by (simp_all add: show_nat.simps digit_char_def char_of_def bit_Suc_0_iff)

lemmas docker_eval = compose_def vpn_service_def houdinny_service_def service_default_def service_texts_def has_service_def
  vpn_ip_def test_countries test_numbers numeral_2_eq_2 [symmetric] numeral_3_eq_3 [symmetric] Let_def

lemma docker_compose_tests:
  "test_generate_docker_compose_one_country" "test_generate_docker_compose_three_countries"
  "test_generate_docker_compose_five_countries" "test_generate_docker_compose_healthcheck_values" "test_generate_env"
  by (simp_all add: docker_eval test_generate_docker_compose_one_country_def
      test_generate_docker_compose_three_countries_def test_generate_docker_compose_five_countries_def
      test_generate_docker_compose_healthcheck_values_def test_generate_env_def generate_env_def)

lemma test_stanzas:
  "tunnel_stanza (Suc 0) ''us'' = [CHR 0x0A] @ ''[[tunnel]]'' @ [CHR 0x0A] @ key_value ''protocol'' ''socks5''
     @ key_value ''address'' ''172.20.0.11:1080'' @ key_value ''label'' ''vpn-1-United_States''"
  "tunnel_stanza 2 ''de'' = [CHR 0x0A] @ ''[[tunnel]]'' @ [CHR 0x0A] @ key_value ''protocol'' ''socks5''
     @ key_value ''address'' ''172.20.0.12:1080'' @ key_value ''label'' ''vpn-2-Germany''"
  "tunnel_stanza 3 ''jp'' = [CHR 0x0A] @ ''[[tunnel]]'' @ [CHR 0x0A] @ key_value ''protocol'' ''socks5''
     @ key_value ''address'' ''172.20.0.13:1080'' @ key_value ''label'' ''vpn-3-Japan''"
  by (simp_all add: tunnel_stanza_def docker_eval)

lemma docker_tunnels_test: "test_generate_tunnels_config"
proof -
  have listen: "''0.0.0.0:'' @ show_nat 8080 = ''0.0.0.0:8080''" by (simp add: test_numbers)
  show ?thesis
    by (simp del: append_Cons str_contains.simps add: test_generate_tunnels_config_def generate_tunnels_config_def
        test_stanzas listen search numeral_2_eq_2 [symmetric] numeral_3_eq_3 [symmetric])
qed

section \<open>The importers\<close>

definition test_server :: "string \<Rightarrow> string \<Rightarrow> string \<Rightarrow> string \<Rightarrow> server_entry" where
  "test_server name station country_code public_key =
     \<lparr>se_id = 1, se_name = name, se_hostname = name @ ''.nordvpn.com'', se_station = station,
      se_technologies = [\<lparr>te_identifier = ''wireguard_udp'',
        te_metadata = [\<lparr>tm_name = ''public_key'', tm_value = public_key\<rparr>], te_pivot_status = Some ''online''\<rparr>],
      se_locations = [\<lparr>lo_country = \<lparr>co_code = country_code, co_name = ''Test Country''\<rparr>\<rparr>]\<rparr>"

definition holds :: "string + 'a \<Rightarrow> ('a \<Rightarrow> bool) \<Rightarrow> bool" where
  "holds r P = (case r of Inr x \<Rightarrow> P x | Inl _ \<Rightarrow> False)"

definition test_nord_generate_toml_single_server :: "bool" where
  "test_nord_generate_toml_single_server =
     (holds (nord_generate_toml ''MY_PRIVATE_KEY'' [test_server ''us1234'' ''169.150.196.30'' ''US'' ''SERVER_PUB_KEY'']) (\<lambda>toml.
        str_contains (quoted_entry ''protocol'' ''wireguard'') toml
        \<and> str_contains (quoted_entry ''endpoint'' ''169.150.196.30:51820'') toml
        \<and> str_contains (quoted_entry ''private_key'' ''MY_PRIVATE_KEY'') toml
        \<and> str_contains (quoted_entry ''public_key'' ''SERVER_PUB_KEY'') toml
        \<and> str_contains (quoted_entry ''address'' ''10.5.0.2/32'') toml
        \<and> str_contains (quoted_entry ''dns'' ''103.86.96.100'') toml
        \<and> str_contains (quoted_entry ''label'' ''nord-us-us1234'') toml))"

definition test_nord_generate_toml_multiple_servers :: "bool" where
  "test_nord_generate_toml_multiple_servers =
     (holds (nord_generate_toml ''MY_KEY''
        [test_server ''us1234'' ''1.1.1.1'' ''US'' ''PK1'', test_server ''de5678'' ''2.2.2.2'' ''DE'' ''PK2'',
         test_server ''jp9999'' ''3.3.3.3'' ''JP'' ''PK3'']) (\<lambda>toml.
        str_contains (quoted_entry ''label'' ''nord-us-us1234'') toml
        \<and> str_contains (quoted_entry ''label'' ''nord-de-de5678'') toml
        \<and> str_contains (quoted_entry ''label'' ''nord-jp-jp9999'') toml
        \<and> match_count ''[[tunnel]]'' toml = 3))"

definition test_nord_generate_toml_empty_servers :: "bool" where
  "test_nord_generate_toml_empty_servers =
     (holds (nord_generate_toml ''KEY'' []) (\<lambda>toml.
        str_contains ''# Generated by: houdinny import nord'' toml
        \<and> \<not> str_contains ''[[tunnel]]'' toml))"

definition test_extract_public_key_missing :: "bool" where
  "test_extract_public_key_missing =
     (isl (extract_wireguard_public_key
        \<lparr>se_id = 1, se_name = ''broken'', se_hostname = ''broken.nordvpn.com'', se_station = ''0.0.0.0'',
         se_technologies = [\<lparr>te_identifier = ''openvpn_tcp'', te_metadata = [], te_pivot_status = None\<rparr>],
         se_locations = []\<rparr>))"

definition test_nord_country_code_mapping :: "bool" where
  "test_nord_country_code_mapping =
     (country_code_to_id ''us'' = Some 228 \<and> country_code_to_id ''US'' = Some 228
      \<and> country_code_to_id ''de'' = Some 81 \<and> country_code_to_id ''xx'' = None)"

text \<open>The file tests run in a fresh directory, a store of texts by path.\<close>

definition test_block :: "string \<Rightarrow> string \<Rightarrow> string" where
  "test_block proto label = ''[[tunnel]]'' @ [CHR 0x0A] @ setting ''protocol'' proto @ setting ''label'' label"

definition new_file_holds :: "((string + unit) \<times> (string \<rightharpoonup> string)) \<Rightarrow> bool" where
  "new_file_holds r =
     (fst r = Inr ()
      \<and> (case snd r ''tunnels.toml'' of
           Some contents \<Rightarrow> str_contains ''[proxy]'' contents \<and> str_contains (quoted_entry ''listen'' ''127.0.0.1:8080'') contents
             \<and> str_contains ''[[tunnel]]'' contents \<and> str_contains (quoted_entry ''label'' ''test'') contents
         | None \<Rightarrow> False))"

definition old_proxy :: string where
  "old_proxy = ''[proxy]'' @ [CHR 0x0A] @ setting ''listen'' ''0.0.0.0:9090''"

definition appended_holds :: "((string + unit) \<times> (string \<rightharpoonup> string)) \<Rightarrow> bool" where
  "appended_holds r =
     (fst r = Inr ()
      \<and> (case snd r ''tunnels.toml'' of
           Some contents \<Rightarrow> str_contains (quoted_entry ''listen'' ''0.0.0.0:9090'') contents
             \<and> str_contains (quoted_entry ''label'' ''appended'') contents
         | None \<Rightarrow> False))"

definition test_nord_write_config_creates_new_file :: "credentials_response \<Rightarrow> server_entry list \<Rightarrow> bool" where
  "test_nord_write_config_creates_new_file creds servers =
     (new_file_holds (nord_write_config (map_io creds servers) Map.empty ''tunnels.toml'' (test_block ''wireguard'' ''test'')))"

definition test_nord_write_config_appends_to_existing :: "credentials_response \<Rightarrow> server_entry list \<Rightarrow> bool" where
  "test_nord_write_config_appends_to_existing creds servers =
     (appended_holds (nord_write_config (map_io creds servers) [''tunnels.toml'' \<mapsto> old_proxy] ''tunnels.toml''
        (test_block ''wireguard'' ''appended'')))"

definition test_ssh_generate_toml_single_port :: "bool" where
  "test_ssh_generate_toml_single_port =
     (holds (Inr (ssh_generate_toml ''my-tailscale-host'' [1080])) (\<lambda>toml.
        str_contains (quoted_entry ''protocol'' ''socks5'') toml
        \<and> str_contains (quoted_entry ''address'' ''127.0.0.1:1080'') toml
        \<and> str_contains (quoted_entry ''label'' ''ssh-my-tailscale-host-1080'') toml))"

definition test_ssh_generate_toml_multiple_ports :: "bool" where
  "test_ssh_generate_toml_multiple_ports =
     (holds (Inr (ssh_generate_toml ''bastion'' [1080, 1081, 1082])) (\<lambda>toml.
        match_count ''[[tunnel]]'' toml = 3
        \<and> str_contains (quoted_entry ''address'' ''127.0.0.1:1080'') toml
        \<and> str_contains (quoted_entry ''address'' ''127.0.0.1:1081'') toml
        \<and> str_contains (quoted_entry ''address'' ''127.0.0.1:1082'') toml
        \<and> str_contains (quoted_entry ''label'' ''ssh-bastion-1080'') toml
        \<and> str_contains (quoted_entry ''label'' ''ssh-bastion-1081'') toml
        \<and> str_contains (quoted_entry ''label'' ''ssh-bastion-1082'') toml))"

definition test_ssh_generate_toml_empty_ports :: "bool" where
  "test_ssh_generate_toml_empty_ports =
     (holds (Inr (ssh_generate_toml ''host'' [])) (\<lambda>toml.
        str_contains ''# Generated by: houdinny import ssh'' toml
        \<and> \<not> str_contains ''[[tunnel]]'' toml))"

definition test_ssh_write_config_creates_new_file :: "credentials_response \<Rightarrow> server_entry list \<Rightarrow> bool" where
  "test_ssh_write_config_creates_new_file creds servers =
     (new_file_holds (ssh_write_config (map_io creds servers) Map.empty ''tunnels.toml'' (test_block ''socks5'' ''test'')))"

definition test_ssh_write_config_appends_to_existing :: "credentials_response \<Rightarrow> server_entry list \<Rightarrow> bool" where
  "test_ssh_write_config_appends_to_existing creds servers =
     (appended_holds (ssh_write_config (map_io creds servers) [''tunnels.toml'' \<mapsto> old_proxy] ''tunnels.toml''
        (test_block ''socks5'' ''appended'')))"

definition test_import_ssh_empty_ports_errors :: "'w import_ops \<Rightarrow> 'w \<Rightarrow> bool" where
  "test_import_ssh_empty_ports_errors io w =
     (case fst (import_ssh io w ''host'' ''user'' [] ''tunnels.toml'' False) of
        Inl e \<Rightarrow> str_contains ''no ports specified'' e
      | Inr _ \<Rightarrow> False)"

lemma test_ports: "show_nat 1080 = ''1080''" "show_nat 1081 = ''1081''" "show_nat 1082 = ''1082''"
  by (simp_all add: show_nat.simps digit_char_def char_of_def bit_Suc_0_iff)

lemma test_codes: "to_lowercase ''US'' = ''us''" "to_lowercase ''DE'' = ''de''" "to_lowercase ''JP'' = ''jp''"
  by code_simp+

lemma nord_stanza_label: "nord_label (test_server name station code pk) = ''nord-'' @ to_lowercase code @ ''-'' @ name"
  by (simp add: nord_label_def test_server_def)

lemma test_key: "extract_wireguard_public_key (test_server name station code pk) = Inr pk"
  by (simp add: extract_wireguard_public_key_def test_server_def)

lemma test_nord_stanza:
  assumes "''nord-'' @ to_lowercase code @ ''-'' @ name = label" "station @ '':51820'' = endpoint"
  shows "nord_stanza sk pk (test_server name station code pk) =
    [CHR 0x0A] @ ''[[tunnel]]'' @ [CHR 0x0A] @ setting ''protocol'' ''wireguard'' @ setting ''endpoint'' endpoint
      @ setting ''private_key'' sk @ setting ''public_key'' pk @ setting ''address'' ''10.5.0.2/32''
      @ setting ''dns'' ''103.86.96.100'' @ setting ''label'' label"
  unfolding nord_stanza_def nord_stanza_label assms(1) assms(2) [symmetric] by (simp add: test_server_def)

lemma test_labels:
  "''nord-'' @ to_lowercase ''US'' @ ''-'' @ ''us1234'' = ''nord-us-us1234''"
  "''nord-'' @ to_lowercase ''DE'' @ ''-'' @ ''de5678'' = ''nord-de-de5678''"
  "''nord-'' @ to_lowercase ''JP'' @ ''-'' @ ''jp9999'' = ''nord-jp-jp9999''"
  by code_simp+

lemma test_endpoints:
  "''169.150.196.30'' @ '':51820'' = ''169.150.196.30:51820''" "''1.1.1.1'' @ '':51820'' = ''1.1.1.1:51820''"
  "''2.2.2.2'' @ '':51820'' = ''2.2.2.2:51820''" "''3.3.3.3'' @ '':51820'' = ''3.3.3.3:51820''"
  by simp_all

lemmas test_nord_stanzas = test_nord_stanza [OF test_labels(1) test_endpoints(1)]
  test_nord_stanza [OF test_labels(1) test_endpoints(2)] test_nord_stanza [OF test_labels(2) test_endpoints(3)]
  test_nord_stanza [OF test_labels(3) test_endpoints(4)]

lemma nord_toml_single: "test_nord_generate_toml_single_server"
  by (simp del: append_Cons str_contains.simps add: test_nord_generate_toml_single_server_def holds_def
      nord_generate_toml_def test_key test_nord_stanzas search)

lemma nord_toml_multiple: "test_nord_generate_toml_multiple_servers"
proof -
  have tunnel: "match_count ''[[tunnel]]'' (''[[tunnel]]'' @ b) = Suc (match_count ''[[tunnel]]'' b)" for b
    by (rule count_self) simp
  have line: "CHR ''['' \<notin> set (setting ''protocol'' ''wireguard'')"
    "CHR ''['' \<notin> set (setting ''endpoint'' ''1.1.1.1:51820'')" "CHR ''['' \<notin> set (setting ''endpoint'' ''2.2.2.2:51820'')"
    "CHR ''['' \<notin> set (setting ''endpoint'' ''3.3.3.3:51820'')" "CHR ''['' \<notin> set (setting ''private_key'' ''MY_KEY'')"
    "CHR ''['' \<notin> set (setting ''public_key'' ''PK1'')" "CHR ''['' \<notin> set (setting ''public_key'' ''PK2'')"
    "CHR ''['' \<notin> set (setting ''public_key'' ''PK3'')" "CHR ''['' \<notin> set (setting ''address'' ''10.5.0.2/32'')"
    "CHR ''['' \<notin> set (setting ''dns'' ''103.86.96.100'')" "CHR ''['' \<notin> set (setting ''label'' ''nord-us-us1234'')"
    "CHR ''['' \<notin> set (setting ''label'' ''nord-de-de5678'')" "CHR ''['' \<notin> set (setting ''label'' ''nord-jp-jp9999'')"
    by (simp_all add: setting_def)
  show ?thesis
    by (simp del: append_Cons str_contains.simps match_count.simps add: test_nord_generate_toml_multiple_servers_def holds_def
        nord_generate_toml_def test_key test_nord_stanzas search tunnel count_skip count_none line)
qed

lemma nord_toml_edge_tests: "test_nord_generate_toml_empty_servers" "test_extract_public_key_missing"
  by (simp_all add: test_nord_generate_toml_empty_servers_def holds_def nord_generate_toml_def
      test_extract_public_key_missing_def extract_wireguard_public_key_def)

lemma nord_country_test: "test_nord_country_code_mapping"
  by code_simp

lemma test_ssh_stanza:
  assumes "''127.0.0.1:'' @ show_word port = address" "''ssh-'' @ host @ ''-'' @ show_word port = label"
  shows "ssh_stanza host port = [CHR 0x0A] @ ''[[tunnel]]'' @ [CHR 0x0A] @ setting ''protocol'' ''socks5''
    @ setting ''address'' address @ setting ''label'' label"
  unfolding ssh_stanza_def assms by simp

lemma test_addresses: "''127.0.0.1:'' @ show_word (1080 :: u16) = ''127.0.0.1:1080''"
  "''127.0.0.1:'' @ show_word (1081 :: u16) = ''127.0.0.1:1081''" "''127.0.0.1:'' @ show_word (1082 :: u16) = ''127.0.0.1:1082''"
  by (simp_all add: test_ports)

lemma test_ssh_labels: "''ssh-'' @ ''my-tailscale-host'' @ ''-'' @ show_word (1080 :: u16) = ''ssh-my-tailscale-host-1080''"
  "''ssh-'' @ ''bastion'' @ ''-'' @ show_word (1080 :: u16) = ''ssh-bastion-1080''"
  "''ssh-'' @ ''bastion'' @ ''-'' @ show_word (1081 :: u16) = ''ssh-bastion-1081''"
  "''ssh-'' @ ''bastion'' @ ''-'' @ show_word (1082 :: u16) = ''ssh-bastion-1082''"
  by (simp_all add: test_ports)

lemmas test_ssh_stanzas = test_ssh_stanza [OF test_addresses(1) test_ssh_labels(1)]
  test_ssh_stanza [OF test_addresses(1) test_ssh_labels(2)] test_ssh_stanza [OF test_addresses(2) test_ssh_labels(3)]
  test_ssh_stanza [OF test_addresses(3) test_ssh_labels(4)]

lemma ssh_toml_single: "test_ssh_generate_toml_single_port"
  by (simp del: append_Cons str_contains.simps add: test_ssh_generate_toml_single_port_def holds_def
      ssh_generate_toml_def test_ssh_stanzas search)

lemma ssh_toml_multiple: "test_ssh_generate_toml_multiple_ports"
proof -
  have tunnel: "match_count ''[[tunnel]]'' (''[[tunnel]]'' @ b) = Suc (match_count ''[[tunnel]]'' b)" for b
    by (rule count_self) simp
  have line: "CHR ''['' \<notin> set (setting ''protocol'' ''socks5'')"
    "CHR ''['' \<notin> set (setting ''address'' ''127.0.0.1:1080'')" "CHR ''['' \<notin> set (setting ''address'' ''127.0.0.1:1081'')"
    "CHR ''['' \<notin> set (setting ''address'' ''127.0.0.1:1082'')" "CHR ''['' \<notin> set (setting ''label'' ''ssh-bastion-1080'')"
    "CHR ''['' \<notin> set (setting ''label'' ''ssh-bastion-1081'')" "CHR ''['' \<notin> set (setting ''label'' ''ssh-bastion-1082'')"
    by (simp_all add: setting_def)
  show ?thesis
    by (simp del: append_Cons str_contains.simps match_count.simps add: test_ssh_generate_toml_multiple_ports_def holds_def
        ssh_generate_toml_def test_ssh_stanzas search tunnel count_skip count_none line)
qed

lemma ssh_toml_empty: "test_ssh_generate_toml_empty_ports"
  by (simp add: test_ssh_generate_toml_empty_ports_def holds_def ssh_generate_toml_def)

lemma write_config_tests:
  "test_nord_write_config_creates_new_file creds servers" "test_nord_write_config_appends_to_existing creds servers"
  "test_ssh_write_config_creates_new_file creds servers" "test_ssh_write_config_appends_to_existing creds servers"
  by (simp_all del: append_Cons str_contains.simps add: test_nord_write_config_creates_new_file_def
      test_nord_write_config_appends_to_existing_def test_ssh_write_config_creates_new_file_def
      test_ssh_write_config_appends_to_existing_def new_file_holds_def appended_holds_def old_proxy_def test_block_def
      write_config_def map_io_def fresh_config_def search)

lemma import_ssh_error_test: "test_import_ssh_empty_ports_errors io w"
  by (simp add: test_import_ssh_empty_ports_errors_def import_ssh_def)

text \<open>The responses of the NordVPN service.\<close>

definition test_parse_credentials_response :: "(string \<Rightarrow> string + json) \<Rightarrow> (json \<Rightarrow> string) \<Rightarrow> bool" where
  "test_parse_credentials_response from_str to_string =
     holds (decode_body from_str decode_credentials
         (to_string (JObj [(''nordlynx_private_key'', JStr ''AAAA+BBBB/CCCC='')])))
       (\<lambda>creds. nordlynx_private_key creds = ''AAAA+BBBB/CCCC='')"

definition test_server_value :: json where
  "test_server_value =
     JObj [(''id'', JNum 123), (''name'', JStr ''us1234''), (''hostname'', JStr ''us1234.nordvpn.com''),
       (''station'', JStr ''169.150.196.30''),
       (''technologies'', JArr [JObj [(''identifier'', JStr ''wireguard_udp''),
         (''metadata'', JArr [JObj [(''name'', JStr ''public_key''), (''value'', JStr ''SERVER_PUB_KEY'')]]),
         (''pivot'', JObj [(''status'', JStr ''online'')])]]),
       (''locations'', JArr [JObj [(''country'', JObj [(''code'', JStr ''US''), (''name'', JStr ''United States'')])]])]"

definition test_parse_server_response :: "(string \<Rightarrow> string + json) \<Rightarrow> (json \<Rightarrow> string) \<Rightarrow> bool" where
  "test_parse_server_response from_str to_string =
     holds (decode_body from_str (as_vec decode_server) (to_string (JArr [test_server_value])))
       (\<lambda>servers. length servers = 1 \<and> se_name (servers ! 0) = ''us1234''
          \<and> se_station (servers ! 0) = ''169.150.196.30''
          \<and> co_code (lo_country (se_locations (servers ! 0) ! 0)) = ''US'')"

lemmas nord_decoders = decode_credentials_def decode_server_def decode_technology_def decode_metadata_def
  decode_pivot_def decode_location_def decode_country_def field_def opt_field_def

lemma nord_response_tests:
  assumes "json_reads from_str to_string"
  shows "test_parse_credentials_response from_str to_string" "test_parse_server_response from_str to_string"
  using assms
  by (simp_all add: json_reads_def decode_body_def holds_def nord_decoders test_server_value_def
      test_parse_credentials_response_def test_parse_server_response_def ok_or_def)

end
