(* ===== verification/Spec2Isabelle.thy ===== *)
theory Spec2Isabelle
  imports Deployment Admin_Server Control Chain Nord_Api Server_Laws Live_Pool Request_Body Shipped_Files Conformance_Proxy Conformance_Library
    Conformance_Control Conformance_Files
begin

text \<open>
  \<^bold>\<open>A verification development of houdinny\<close>, a privacy proxy for AI agents written in Rust.

  \<^bold>\<open>The program.\<close> Agents connect to an HTTP proxy (\<open>src/src/proxy/mod.rs\<close>). For every
  connection the proxy asks a \<open>picker\<close> for a tunnel; the picker takes the healthy transports
  of a pool (\<open>src/src/pool/mod.rs\<close>) and lets a router (\<open>src/src/router/mod.rs\<close>) choose one, at
  random or in turn; the transport (\<open>src/src/transport/\<close>) connects to the destination and the
  proxy copies bytes. \<open>src/src/main.rs\<close> reads the configuration (\<open>src/src/config/mod.rs\<close>),
  builds the transports, the pool, the router and the picker, and serves; its other commands
  import tunnels (\<open>src/src/import/\<close>) or run a stack of VPN containers (\<open>src/src/docker.rs\<close>).
  Library modules beside that path are a relay that survives a change of server
  (\<open>src/src/relay/mod.rs\<close>), an anti-correlation layer (\<open>src/src/anticorr/mod.rs\<close>), payment of
  402 responses (\<open>src/src/payment/mod.rs\<close>), route management (\<open>src/src/route/mod.rs\<close>), an admin
  API (\<open>src/src/admin/mod.rs\<close>) and an MCP server (\<open>src/src/mcp/mod.rs\<close>).

  \<^bold>\<open>The theories.\<close>
  \<^item> \<open>Prelude\<close>: machine integers as words, results with early return (\<open>and_then\<close> is the
    question mark operator), the functions of Rust's \<open>str\<close> and of integer parsing and printing
    that the sources call, and the lemma collections \<open>str_simps\<close>, \<open>res_simps\<close>, \<open>err_intros\<close>.
  \<^item> \<open>Houdinny_Error\<close>: the error enum of \<open>error.rs\<close>.
  \<^item> \<open>Transport\<close>: the five transports as records, the trait object as their sum, every trait
    method, and the SOCKS5, HTTP CONNECT, WireGuard, Sentinel and Tor \<open>connect\<close>. The crates
    that open sockets are the record \<open>net_ops\<close>. Shown: which errors can occur, when the HTTP
    CONNECT handshake succeeds and what it leaves unread, how proxy URLs are split.
  \<^item> \<open>Config_Model\<close>: configuration structs and defaults, \<open>load_dotenv\<close>, \<open>resolve_env_vars\<close>,
    \<open>from_tunnel_urls\<close>, strategy names. The TOML deserialiser is a parameter.
  \<^item> \<open>Pool\<close>: the pool over a heap of shared transports, so that a health flag changes behind
    every handle; runs of several tasks are the step relation \<open>pool_step\<close>; the contract is the
    locale \<open>pool_iface\<close>. Shown: lookup laws, and that a closed transport is never handed out.
  \<^item> \<open>Router\<close>: both routers with the 64-bit counter, and the picker; the contract is
    \<open>router_iface\<close>. Shown: picks are healthy members, and round robin is fair.
  \<^item> \<open>Line_IO\<close>: the buffered line reader the proxy and the MCP server rely on (locales
    \<open>line_reader\<close>, \<open>exact_reader\<close>), and a concrete reader with an 8 KiB buffer over a segmented
    socket that satisfies it.
  \<^item> \<open>Proxy_Server\<close>: the request-line parsers and both connection handlers up to the end of the
    copy loop. Header loops are \<open>partial_function (option)\<close>; that they return is proved from the
    reader's laws. Shown: what is accepted, what is forwarded, that nothing is answered
    without a tunnel, and two defects (lost early data, an abort on a huge
    \<open>Content-Length\<close>).
  \<^item> \<open>Request_Body\<close>: the header loop against a reference that reads the header block as a whole,
    which bodies are therefore not forwarded, and exactly when the header loops do not end.
  \<^item> \<open>Relay\<close>: \<open>RelayStream\<close> and \<open>BufferedRelay\<close> driven by event lists, the contracts
    \<open>accounting\<close> and \<open>conserving\<close>. Shown: which bytes a rotation repeats and loses when a write or
    a hand-over fails, and that it otherwise loses, repeats and reorders none; the counters
    account for the bytes.
  \<^item> \<open>Anticorr\<close>: padding as a codec (locale \<open>codec\<close>) on bytes, and jitter bounds.
  \<^item> \<open>Payment_402\<close>: parsing and paying, the contract \<open>payment_method\<close>.
  \<^item> \<open>Route\<close>: route managers with 32-bit tables, the contract \<open>route_iface\<close>.
  \<^item> \<open>Docker\<close>: generated files, start and stop, and the polling loop, which is shown to end
    when the clock advances; the states of a container are ordered by how resolved they are.
  \<^item> \<open>Import_Cfg\<close>: the NordVPN and SSH imports over a file store (locale \<open>file_store\<close>).
  \<^item> \<open>Nord_Api\<close>: the response types of the NordVPN service as serde decodes them, and the
    requests an import sends. Shown: the access token goes to one address, once, and nowhere
    else.
  \<^item> \<open>Json\<close>: JSON values, what serde's derived instances do with objects, and a concrete printer
    and reader of JSON text that satisfy what the other theories ask of the JSON library
    (\<open>json_reads\<close>, \<open>one_line\<close>).
  \<^item> \<open>Admin\<close>, \<open>Mcp\<close>: the two control interfaces over the pool, with the values they print.
  \<^item> \<open>Control\<close>: the two interfaces together. Shown: they report the same pool.
  \<^item> \<open>Main_Bin\<close>: the command line's decisions, building transports, and the proxy's set-up.
    Shown: which transports a configuration gives, that they keep their identity whatever
    happens to the pool, and which settings override which.
  \<^item> \<open>Accept_Loop\<close>: the accept loops of both servers as a step relation over the connections
    a server holds, any interleaving of its tasks and of accepts, accept errors included.
  \<^item> \<open>Server\<close>: the proxy as a running server: \<open>handle_connection\<close> cut into its steps on the
    state that the connections share, and shown equal to the handler run at once; every
    interleaving of connections refines an abstract server that picks a tunnel in one step;
    every tunnel a connection uses is a healthy one of the pool when it is picked.
  \<^item> \<open>Server_Laws\<close>: what holds over a whole run of that server: round robin stays fair under any
    interleaving.
  \<^item> \<open>Live_Pool\<close>: that server while an MCP server shares its pool. The copy of the list and the
    pick from it are separate steps there, between which a removal may come. Shown: after a
    removal the tunnel is given to no connection but those that were between these two steps,
    and that it can be given to these.
  \<^item> \<open>Admin_Server\<close>: the admin server, whose reports add up at every reachable state while
    others change the pool.
  \<^item> \<open>Program\<close>: \<open>main\<close> from its arguments to its exit status, over a \<open>system\<close> record of what the
    operating system provides. Shown: which of the agents accepted can abort a serving process.
  \<^item> \<open>Config_File\<close>: the fragment of TOML that the program writes, the decoders that serde
    derives for the configuration structs, and a reader of that fragment.
  \<^item> \<open>Generated_Files\<close>: what the program makes of the files it wrote itself: the container's
    configuration, the imported tunnels, the \<open>.env\<close> file.
  \<^item> \<open>Shipped_Files\<close>: the example configuration files of the repository, line by line, and what
    the program makes of them under its default options.
  \<^item> \<open>Deployment\<close>: several invocations in a row. Shown: after \<open>start-docker\<close> has succeeded, the
    agents of the container's proxy leave through the VPN containers of the compose file it
    wrote; after an import the next start serves with the imported tunnels.
  \<^item> \<open>Chain\<close>: one instance as the upstream HTTP proxy of another. Shown: request and reply fit,
    and no byte between them is lost, since the request ends at a boundary of segments.
  \<^item> \<open>Library_Config\<close>: the configuration structs of the route and anti-correlation modules as
    serde decodes them.
  \<^item> \<open>Conformance_Proxy\<close>, \<open>Conformance_Library\<close>, \<open>Conformance_Control\<close>, \<open>Conformance_Files\<close>: the unit
    tests of the sources, each a \<open>test_\<close> definition with the fixture and the assertions of the
    test of that name, and lemmas that the model passes them. They tie the definitions to the
    behaviour the authors wrote down; they are no substitute for the properties.

  \<^bold>\<open>Conventions.\<close> Integers that can wrap are words of their width; lengths of buffers are
  natural numbers. A Rust string is a list of characters read as ASCII, so the error that
  \<open>read_line\<close> returns for bytes that are not UTF-8 occurs only as one of the errors a reader may
  return. Every early return is a
  value of a sum type; a panic is the value \<open>None\<close> of an option (dotenv) or the outcome
  \<open>Aborted\<close> (proxy). Code outside the repository is a parameter: what is relied on of it is a
  named hypothesis or a locale, and each is instantiated by a concrete function in a witness.
  Reads of a lock that the code makes one after the other with nothing in between but its own
  computation are one step, except where others may change what is read (\<open>Admin_Server\<close>,
  \<open>Live_Pool\<close>); the MCP tool \<open>tool_health_check\<close>, which takes the pool's lock twice, reads it once.
  No definition uses fuel: loops are structural, have a measure, or are partial functions
  whose return is proved.

  \<^bold>\<open>Not modelled.\<close> Logging and console output; clap's parsing of the command line (the
  model starts at the parsed \<open>Cli\<close>); TOML beyond the fragment of \<open>Config_File\<close> and YAML
  text, whose readers and printers are parameters; JSON text is a parameter too, with an
  instance in \<open>Json\<close> that leaves floating-point numbers uninterpreted; TLS, DNS and the transports' cryptography;
  the unit tests that only read back the fields of a struct they built or compare texts they
  built themselves, that look at real random numbers, or that need a YAML reader; module lists
  and imports; the container images and the Makefile. These are left out for good: what is left
  is text for other programs, code of other crates, or statements about the tests' own values.
\<close>

end
